(* ===== verification/Prelude.thy ===== *)
theory Prelude
  imports Main
begin

text \<open>
  Shared vocabulary of the development: Go's error values with \<^verbatim>\<open>errors.Is\<close>,
  \<^verbatim>\<open>errors.As\<close> and \<^verbatim>\<open>errors.Join\<close>, instants and durations, the readings
  a call takes from \<^verbatim>\<open>time.Now\<close>, and the list and map lemmas several
  components use.

  An error is a value. The package level sentinels of the repository and of the
  libraries it compares against are constructors of their own, because Go compares
  them by identity; \<^verbatim>\<open>fmt.Errorf\<close> with a wrapping verb is \<open>Wrapped\<close> (or, for
  the three sentinels of \<^verbatim>\<open>jwt/jwt.go\<close> that wrap another sentinel, a constructor
  whose unwrapping is given by \<open>unwrap\<close>). An error of a library or of a service
  that the repository never inspects is \<open>Opaque\<close>.
\<close>

named_theorems table_simps \<open>effect of a statement or operation on the abstract tables\<close>
named_theorems frame_simps \<open>what an operation leaves unchanged\<close>

section \<open>Instants, durations, clock readings\<close>

type_synonym time = int
type_synonym duration = int

text \<open>Nanoseconds, as in package \<^verbatim>\<open>time\<close>.\<close>

definition Second :: duration where
  "Second = 1000000000"

definition Minute :: duration where
  "Minute = 60 * Second"

definition Hour :: duration where
  "Hour = 60 * Minute"

lemmas time_units = Second_def Minute_def Hour_def

text \<open>
  The successive readings of \<^verbatim>\<open>time.Now\<close> during one call. A caller hands the rest of
  its readings to the next function it calls with \<open>later\<close>.
\<close>

type_synonym clock = "nat \<Rightarrow> time"

definition later :: "nat \<Rightarrow> clock \<Rightarrow> clock" where
  "later n clk = (\<lambda>i. clk (n + i))"

lemma later_apply [simp]: "later n clk i = clk (n + i)"
  by (simp add: later_def)

section \<open>Errors\<close>

datatype go_error =
    ErrInvalidToken
  | ErrUnexpectedSigningMethod
  | ErrTypeAssertionFailed
  | ErrTokenRevoked
  | ErrDeviceNotFound
  | ErrInvalidSignature
  | ErrTokenSignatureInvalid
  | ErrNoRows
  | PgError string string
  | ErrUserNotFound
  | ErrExternalUsers
  | ErrInvalidMaximumSize
  | ErrMissingTTLFunc
  | RedisNil
  | ErrMissingEmail
  | ErrUnverifiedEmail
  | ErrInvalidDuration
  | ErrInvalidUserEmailReference
  | ErrOIDCMissingClient
  | ErrGenericProviderMissingURLs
  | ErrInvalidInteger
  | ErrNonPositiveDuration
  | ErrInvalidUsernameColumn
  | ErrUsernameColumnWithoutRef
  | ErrIdentitySecretTooShort
  | ErrUnsupportedDriver
  | DeadlineExceeded
  | RotateError string int go_error
  | Wrapped string go_error
  | Joined "go_error list"
  | Opaque string

fun unwrap :: "go_error \<Rightarrow> go_error list" where
  "unwrap ErrTokenRevoked = [ErrInvalidToken]"
| "unwrap ErrDeviceNotFound = [ErrInvalidToken]"
| "unwrap ErrInvalidSignature = [ErrInvalidToken]"
| "unwrap (RotateError _ _ e) = [e]"
| "unwrap (Wrapped _ e) = [e]"
| "unwrap (Joined es) = es"
| "unwrap _ = []"

text \<open>\<^verbatim>\<open>errors.Is\<close>: the error itself, or something it wraps, is the target.\<close>

fun errors_Is :: "go_error \<Rightarrow> go_error \<Rightarrow> bool" where
  "errors_Is (RotateError m s e) t = (RotateError m s e = t \<or> errors_Is e t)"
| "errors_Is (Wrapped m e) t = (Wrapped m e = t \<or> errors_Is e t)"
| "errors_Is (Joined es) t = (Joined es = t \<or> list_ex (\<lambda>e. errors_Is e t) es)"
| "errors_Is e t = (e = t \<or> list_ex (\<lambda>u. u = t) (unwrap e))"

text \<open>\<^verbatim>\<open>errors.As\<close> for the two pointer types the repository asks for.\<close>

fun errors_As_PgError :: "go_error \<Rightarrow> (string \<times> string) option" where
  "errors_As_PgError (PgError c k) = Some (c, k)"
| "errors_As_PgError (RotateError _ _ e) = errors_As_PgError e"
| "errors_As_PgError (Wrapped _ e) = errors_As_PgError e"
| "errors_As_PgError (Joined es) =
     fold (\<lambda>e acc. case acc of Some x \<Rightarrow> Some x | None \<Rightarrow> errors_As_PgError e) es None"
| "errors_As_PgError _ = None"

fun errors_As_RotateError :: "go_error \<Rightarrow> (string \<times> int \<times> go_error) option" where
  "errors_As_RotateError (RotateError m s e) = Some (m, s, e)"
| "errors_As_RotateError (Wrapped _ e) = errors_As_RotateError e"
| "errors_As_RotateError (Joined es) =
     fold (\<lambda>e acc. case acc of Some x \<Rightarrow> Some x | None \<Rightarrow> errors_As_RotateError e) es None"
| "errors_As_RotateError _ = None"

text \<open>\<^verbatim>\<open>errors.Join\<close> drops nil errors, and is nil when all of them are.\<close>

definition errors_Join :: "go_error option list \<Rightarrow> go_error option" where
  "errors_Join es = (case List.map_filter id es of [] \<Rightarrow> None | xs \<Rightarrow> Some (Joined xs))"

lemma errors_Is_refl [simp]: "errors_Is e e"
  by (cases e) auto

text \<open>Every error that wraps an invalid-token error is an invalid-token error.\<close>

lemma errors_Is_unwrap: "u \<in> set (unwrap e) \<Longrightarrow> errors_Is u t \<Longrightarrow> errors_Is e t"
  by (cases e) (auto simp: list_ex_iff)

lemma errors_Is_invalid_token:
  "errors_Is e ErrTokenRevoked \<or> errors_Is e ErrDeviceNotFound \<or> errors_Is e ErrInvalidSignature
    \<Longrightarrow> errors_Is e ErrInvalidToken"
  by (induction e ErrInvalidToken rule: errors_Is.induct) (auto simp: list_ex_iff)

section \<open>Partial maps that may lose entries\<close>

text \<open>
  A cache may drop an entry at any moment (expiry, eviction), so the promises of a cache
  are stated with \<open>\<subseteq>\<^sub>m\<close>: what is left of the map.
\<close>

lemma map_le_lookup: "m \<subseteq>\<^sub>m n \<Longrightarrow> m k = Some v \<Longrightarrow> n k = Some v"
  by (metis domI map_le_def)

lemma map_leI: "(\<And>k v. m k = Some v \<Longrightarrow> n k = Some v) \<Longrightarrow> m \<subseteq>\<^sub>m n"
  by (auto simp: map_le_def dom_def)

lemma map_le_updD: "m \<subseteq>\<^sub>m n(k \<mapsto> v) \<Longrightarrow> m j = Some x \<Longrightarrow> (j = k \<and> x = v) \<or> (j \<noteq> k \<and> n j = Some x)"
  by (auto dest: map_le_lookup split: if_splits)

lemma map_le_delD: "m \<subseteq>\<^sub>m n(k := None) \<Longrightarrow> m j = Some x \<Longrightarrow> j \<noteq> k \<and> n j = Some x"
  by (auto dest: map_le_lookup split: if_splits)

lemma map_le_emptied: "m \<subseteq>\<^sub>m n \<Longrightarrow> n k = None \<Longrightarrow> m k = None"
  by (metis domIff map_le_def)

section \<open>Searching and updating tables\<close>

lemma find_Some_in: "List.find P xs = Some x \<Longrightarrow> x \<in> set xs \<and> P x"
  by (auto simp: find_Some_iff)

lemma find_None_notin: "List.find P xs = None \<longleftrightarrow> (\<forall>x\<in>set xs. \<not> P x)"
  by (auto simp: find_None_iff)

text \<open>In a table with a primary key, the row found under a key is the only one.\<close>

lemma find_key_unique:
  "distinct (map key rows) \<Longrightarrow> r \<in> set rows \<Longrightarrow> List.find (\<lambda>x. key x = key r) rows = Some r"
  by (induction rows) (auto simp: image_iff)

lemma find_key_iff:
  assumes "distinct (map key rows)"
  shows "List.find (\<lambda>x. key x = k) rows = Some r \<longleftrightarrow> r \<in> set rows \<and> key r = k"
  using find_Some_in [of "\<lambda>x. key x = k" rows r] find_key_unique [OF assms, of r] by auto

lemma find_map_key:
  assumes "\<And>x. key (f x) = key x"
  shows "List.find (\<lambda>x. key x = k) (map f rows) = map_option f (List.find (\<lambda>x. key x = k) rows)"
  by (induction rows) (auto simp: assms)

lemma find_filter_key:
  assumes "distinct (map key rows)"
  shows "List.find (\<lambda>x. key x = k) (filter P rows)
    = (case List.find (\<lambda>x. key x = k) rows of None \<Rightarrow> None | Some r \<Rightarrow> if P r then Some r else None)"
  using assms
proof (induction rows)
  case (Cons r rows)
  show ?case
  proof (cases "key r = k \<and> \<not> P r")
    case True
    with Cons.prems have "\<forall>x\<in>set rows. key x \<noteq> k"
      by (metis distinct.simps(2) imageI list.map(2) list.set_map)
    with True show ?thesis
      by (auto simp: find_None_iff split: option.splits)
  next
    case False
    with Cons show ?thesis by auto
  qed
qed simp

lemma find_filter_implied:
  "(\<And>x. P x \<Longrightarrow> Q x) \<Longrightarrow> List.find P (filter Q xs) = List.find P xs"
  by (induction xs) auto

end
