(* ===== verification/Database.thy ===== *)
theory Database
  imports Prelude
begin

text \<open>
  Module \<^verbatim>\<open>database\<close>: the device sessions in PostgreSQL (\<^verbatim>\<open>database/device.go\<close>, the
  clean-up of \<^verbatim>\<open>database/database.go\<close>) over the tables of \<^verbatim>\<open>database/schema/schema.sql\<close>
  and \<^verbatim>\<open>server/internal/usersdb/schema.sql\<close>.

  Each SQL statement of the source is a function on the tables (\<open>insert_device\<close>,
  \<open>update_device\<close>, \<dots>), with the constraints the schema declares: the primary key, the
  foreign key on the e-mail with its cascades, the 32-bit range of \<^verbatim>\<open>generation\<close>. What
  the statements leave to the server is a field of the state, so every theorem holds for all
  of its values: the instants of \<^verbatim>\<open>CURRENT_TIMESTAMP\<close>, the values of
  \<^verbatim>\<open>gen_random_uuid()\<close>, how a text is read as a UUID (\<open>uuid_in\<close>, the canonical spelling or
  nothing), the equality of the e-mail column's type (\<open>email_eq\<close>; \<^verbatim>\<open>citext\<close> ignores
  case), and the failures: each call may fail before the statement takes effect
  or after it (the reply is lost).
\<close>

record device_row =
  device_id :: string
  device_name :: string
  user_email :: string
  secret :: string
  generation :: int
  updated_at :: time

record user_row =
  user_id :: string
  username :: "string option"
  email :: string

datatype pg_outcome = NoFault | FailBefore go_error | FailAfter go_error

record pg =
  auth_user_devices :: "device_row list"
  users :: "user_row list"
  pg_calls :: nat
  pg_fault :: "nat \<Rightarrow> pg_outcome"
  pg_clock :: "nat \<Rightarrow> time"
  gen_random_uuid :: "nat \<Rightarrow> string"
  uuid_in :: "string \<Rightarrow> string option"
  email_eq :: "string \<Rightarrow> string \<Rightarrow> bool"

section \<open>Running a statement\<close>

type_synonym 'a stmt = "pg \<Rightarrow> go_error + ('a \<times> pg)"

definition pg_exec :: "'a stmt \<Rightarrow> pg \<Rightarrow> (go_error + 'a) \<times> pg" where
  "pg_exec st p =
     (let next = (\<lambda>q. q\<lparr>pg_calls := Suc (pg_calls p)\<rparr>)
      in case pg_fault p (pg_calls p) of
        FailBefore e \<Rightarrow> (Inl e, next p)
      | FailAfter e \<Rightarrow> (case st p of Inl _ \<Rightarrow> (Inl e, next p) | Inr (_, q) \<Rightarrow> (Inl e, next q))
      | NoFault \<Rightarrow> (case st p of Inl e \<Rightarrow> (Inl e, next p) | Inr (x, q) \<Rightarrow> (Inr x, next q)))"

definition pg_now :: "pg \<Rightarrow> time" where
  "pg_now p = pg_clock p (pg_calls p)"

definition invalid_uuid :: go_error where
  "invalid_uuid = PgError ''22P02'' ''''"

definition MaxInt32 :: int where
  "MaxInt32 = 2147483647"

section \<open>The statements of \<^verbatim>\<open>device.go\<close>\<close>

definition pgForeignKeyViolation :: string where
  "pgForeignKeyViolation = ''23503''"

definition userDevicesFKConstraint :: string where
  "userDevicesFKConstraint = ''fk_auth_user_devices''"

text \<open>
  \<^verbatim>\<open>INSERT INTO auth_user_devices \<dots> RETURNING device_id\<close>: the generation starts at its
  default 1; a clash of the primary key is reported before the foreign key is checked, which
  is done at the end of the statement.
\<close>

definition insert_device :: "string \<Rightarrow> string \<Rightarrow> string \<Rightarrow> string stmt" where
  "insert_device deviceName userEmail sec p =
     (let new = gen_random_uuid p (pg_calls p);
          row = \<lparr>device_id = new, device_name = deviceName, user_email = userEmail,
                 secret = sec, generation = 1, updated_at = pg_now p\<rparr>
      in if list_ex (\<lambda>r. device_id r = new) (auth_user_devices p)
           then Inl (PgError ''23505'' ''auth_user_devices_pkey'')
         else if \<not> list_ex (\<lambda>u. email_eq p (email u) userEmail) (users p)
           then Inl (PgError pgForeignKeyViolation userDevicesFKConstraint)
         else Inr (new, p\<lparr>auth_user_devices := auth_user_devices p @ [row]\<rparr>))"

definition bump_row :: "string \<Rightarrow> time \<Rightarrow> device_row \<Rightarrow> device_row" where
  "bump_row k now r =
     (if device_id r = k then r\<lparr>generation := generation r + 1, updated_at := now\<rparr> else r)"

definition update_device :: "string \<Rightarrow> int stmt" where
  "update_device deviceID p =
     (case uuid_in p deviceID of
        None \<Rightarrow> Inl invalid_uuid
      | Some k \<Rightarrow>
          (case List.find (\<lambda>r. device_id r = k) (auth_user_devices p) of
             None \<Rightarrow> Inl ErrNoRows
           | Some r \<Rightarrow>
               if MaxInt32 \<le> generation r then Inl (PgError ''22003'' '''')
               else Inr (generation r + 1,
                 p\<lparr>auth_user_devices := map (bump_row k (pg_now p)) (auth_user_devices p)\<rparr>)))"

definition select_secret :: "string \<Rightarrow> (string \<times> int) stmt" where
  "select_secret deviceID p =
     (case uuid_in p deviceID of
        None \<Rightarrow> Inl invalid_uuid
      | Some k \<Rightarrow>
          (case List.find (\<lambda>r. device_id r = k) (auth_user_devices p) of
             None \<Rightarrow> Inl ErrNoRows
           | Some r \<Rightarrow> Inr ((secret r, generation r), p)))"

definition delete_device :: "string \<Rightarrow> string \<Rightarrow> unit stmt" where
  "delete_device userEmail deviceID p =
     (case uuid_in p deviceID of
        None \<Rightarrow> Inl invalid_uuid
      | Some k \<Rightarrow> Inr ((), p\<lparr>auth_user_devices :=
          filter (\<lambda>r. \<not> (email_eq p (user_email r) userEmail \<and> device_id r = k)) (auth_user_devices p)\<rparr>))"

definition delete_all_devices :: "string \<Rightarrow> string list stmt" where
  "delete_all_devices userEmail p =
     Inr (map device_id (filter (\<lambda>r. email_eq p (user_email r) userEmail) (auth_user_devices p)),
       p\<lparr>auth_user_devices := filter (\<lambda>r. \<not> email_eq p (user_email r) userEmail) (auth_user_devices p)\<rparr>)"

section \<open>The methods of \<^verbatim>\<open>Database\<close>\<close>

definition Database_SaveDeviceSecret ::
  "string \<Rightarrow> string \<Rightarrow> string \<Rightarrow> pg \<Rightarrow> (go_error + string) \<times> pg" where
  "Database_SaveDeviceSecret userEmail deviceName sec p =
     (case pg_exec (insert_device deviceName userEmail sec) p of
        (Inr deviceID, q) \<Rightarrow> (Inr deviceID, q)
      | (Inl err, q) \<Rightarrow>
          (case errors_As_PgError err of
             Some (code, constraint) \<Rightarrow>
               if code = pgForeignKeyViolation \<and> constraint = userDevicesFKConstraint
               then (Inl ErrUserNotFound, q) else (Inl err, q)
           | None \<Rightarrow> (Inl err, q)))"

definition Database_UpdateDeviceSecret :: "string \<Rightarrow> pg \<Rightarrow> (go_error + int) \<times> pg" where
  "Database_UpdateDeviceSecret deviceID p = pg_exec (update_device deviceID) p"

definition Database_GetDeviceSecret :: "string \<Rightarrow> pg \<Rightarrow> (go_error + (string \<times> int)) \<times> pg" where
  "Database_GetDeviceSecret deviceID p = pg_exec (select_secret deviceID) p"

definition Database_DeleteDevice :: "string \<Rightarrow> string \<Rightarrow> pg \<Rightarrow> go_error option \<times> pg" where
  "Database_DeleteDevice userEmail deviceID p =
     (case pg_exec (delete_device userEmail deviceID) p of
        (Inl err, q) \<Rightarrow> (Some err, q) | (Inr _, q) \<Rightarrow> (None, q))"

definition Database_DeleteAllDevices :: "string \<Rightarrow> pg \<Rightarrow> go_error option \<times> pg" where
  "Database_DeleteAllDevices userEmail p =
     (case pg_exec (delete_all_devices userEmail) p of
        (Inl err, q) \<Rightarrow> (Some err, q) | (Inr _, q) \<Rightarrow> (None, q))"

definition Database_DeleteAllDevicesReturningIDs ::
  "string \<Rightarrow> pg \<Rightarrow> (go_error + string list) \<times> pg" where
  "Database_DeleteAllDevicesReturningIDs userEmail p = pg_exec (delete_all_devices userEmail) p"

text \<open>\<^verbatim>\<open>WHERE updated_at < NOW() - INTERVAL '7 days'\<close>.\<close>

definition cleanup_statement :: "int stmt" where
  "cleanup_statement p =
     (let old = (\<lambda>r. updated_at r < pg_now p - 7 * 24 * Hour)
      in Inr (int (length (filter old (auth_user_devices p))),
           p\<lparr>auth_user_devices := filter (\<lambda>r. \<not> old r) (auth_user_devices p)\<rparr>))"

definition cleanupOldDevices :: "pg \<Rightarrow> (go_error + int) \<times> pg" where
  "cleanupOldDevices p = pg_exec cleanup_statement p"

section \<open>The table as a map, and the constraints\<close>

definition device_at :: "pg \<Rightarrow> string \<rightharpoonup> device_row" where
  "device_at p k = List.find (\<lambda>r. device_id r = k) (auth_user_devices p)"

text \<open>
  The schema's constraints: unique identifiers in canonical spelling, every device owned by
  an existing user, generations that fit the column and start at 1. The equality of the
  e-mail column is an equivalence, and generated identifiers are canonical.
\<close>

definition pg_server_ok :: "pg \<Rightarrow> bool" where
  "pg_server_ok p \<longleftrightarrow> equivp (email_eq p)
     \<and> (\<forall>n. uuid_in p (gen_random_uuid p n) = Some (gen_random_uuid p n))"

definition pg_wf :: "pg \<Rightarrow> bool" where
  "pg_wf p \<longleftrightarrow> pg_server_ok p
     \<and> distinct (map device_id (auth_user_devices p))
     \<and> (\<forall>r\<in>set (auth_user_devices p).
          uuid_in p (device_id r) = Some (device_id r)
          \<and> 1 \<le> generation r \<and> generation r \<le> MaxInt32
          \<and> (\<exists>u\<in>set (users p). email_eq p (email u) (user_email r)))"

text \<open>From now on no call fails for reasons outside the statement itself.\<close>

definition pg_up :: "pg \<Rightarrow> bool" where
  "pg_up p \<longleftrightarrow> (\<forall>n \<ge> pg_calls p. pg_fault p n = NoFault)"

definition pg_no_lost_reply :: "pg \<Rightarrow> bool" where
  "pg_no_lost_reply p \<longleftrightarrow> (\<forall>n e. pg_fault p n \<noteq> FailAfter e)"

lemma pg_up_no_fault [simp]: "pg_up p \<Longrightarrow> pg_fault p (pg_calls p) = NoFault"
  by (simp add: pg_up_def)

text \<open>The parts of the state no statement ever changes.\<close>

definition same_server :: "pg \<Rightarrow> pg \<Rightarrow> bool" where
  "same_server p q \<longleftrightarrow> pg_fault q = pg_fault p \<and> pg_clock q = pg_clock p
     \<and> gen_random_uuid q = gen_random_uuid p \<and> uuid_in q = uuid_in p \<and> email_eq q = email_eq p"

lemma same_server_refl [simp]: "same_server p p"
  by (simp add: same_server_def)

lemma same_server_trans: "same_server p q \<Longrightarrow> same_server q r \<Longrightarrow> same_server p r"
  by (auto simp: same_server_def)

lemma same_server_calls [simp]: "same_server p (q\<lparr>pg_calls := n\<rparr>) \<longleftrightarrow> same_server p q"
  by (simp add: same_server_def)

lemma same_server_no_lost_reply: "same_server p q \<Longrightarrow> pg_no_lost_reply q \<longleftrightarrow> pg_no_lost_reply p"
  by (simp add: same_server_def pg_no_lost_reply_def)

lemma device_at_calls [simp]: "device_at (p\<lparr>pg_calls := n\<rparr>) = device_at p"
  by (simp add: device_at_def fun_eq_iff)

lemma pg_wf_calls [simp]: "pg_wf (p\<lparr>pg_calls := n\<rparr>) = pg_wf p"
  by (simp add: pg_wf_def pg_server_ok_def)

text \<open>
  A relation between the state before and after that every successful run of the statement
  satisfies, that is reflexive and that ignores the call counter, holds for every outcome of
  the call.
\<close>

lemma pg_exec_rel:
  assumes "pg_exec st p = (res, q)"
    and "\<And>x q'. st p = Inr (x, q') \<Longrightarrow> R p q'" and "R p p"
    and "\<And>q' n. R p q' \<Longrightarrow> R p (q'\<lparr>pg_calls := n\<rparr>)"
  shows "R p q"
  using assms by (auto simp: pg_exec_def Let_def split: pg_outcome.splits sum.splits prod.splits)

lemma pg_exec_Inr:
  assumes "pg_exec st p = (Inr x, q)"
  shows "\<exists>q'. st p = Inr (x, q') \<and> q = q'\<lparr>pg_calls := Suc (pg_calls p)\<rparr>"
  using assms by (auto simp: pg_exec_def Let_def split: pg_outcome.splits sum.splits prod.splits)

lemma pg_exec_up:
  assumes "pg_up p"
  shows "pg_exec st p = (case st p of
      Inl e \<Rightarrow> (Inl e, p\<lparr>pg_calls := Suc (pg_calls p)\<rparr>)
    | Inr (x, q) \<Rightarrow> (Inr x, q\<lparr>pg_calls := Suc (pg_calls p)\<rparr>))"
  using assms by (simp add: pg_exec_def Let_def)

text \<open>Without lost replies, a failed call left the tables alone.\<close>

lemma pg_exec_Inl:
  assumes "pg_exec st p = (Inl e, q)" and "pg_no_lost_reply p"
  shows "q = p\<lparr>pg_calls := Suc (pg_calls p)\<rparr>"
  using assms
  by (auto simp: pg_exec_def Let_def pg_no_lost_reply_def
      split: pg_outcome.splits sum.splits prod.splits)

lemma pg_up_step:
  "pg_up p \<Longrightarrow> same_server p q \<Longrightarrow> pg_up (q\<lparr>pg_calls := Suc (pg_calls p)\<rparr>)"
  by (auto simp: pg_up_def same_server_def)

lemma pg_exec_keeps_up:
  assumes "pg_exec st p = (res, q)" and "pg_up p"
    and "\<And>x q'. st p = Inr (x, q') \<Longrightarrow> same_server p q'"
  shows "pg_up q"
  using assms pg_exec_up [OF assms(2), of st] pg_up_step [OF assms(2)]
  by (auto split: sum.splits)

section \<open>What the statements do to the map\<close>

lemma find_snoc:
  "List.find P (xs @ [x]) = (case List.find P xs of Some y \<Rightarrow> Some y | None \<Rightarrow> if P x then Some x else None)"
  by (induction xs) auto

lemma device_at_SomeD: "device_at p k = Some r \<Longrightarrow> r \<in> set (auth_user_devices p) \<and> device_id r = k"
  by (auto simp: device_at_def dest: find_Some_in)

lemma device_at_row: "pg_wf p \<Longrightarrow> r \<in> set (auth_user_devices p) \<Longrightarrow> device_at p (device_id r) = Some r"
  by (simp add: device_at_def pg_wf_def find_key_unique)

lemma device_at_canonical: "pg_wf p \<Longrightarrow> device_at p k = Some r \<Longrightarrow> uuid_in p k = Some k"
  by (auto simp: pg_wf_def dest!: device_at_SomeD)

lemma device_at_append:
  "device_at p (device_id row) = None \<Longrightarrow>
    device_at (p\<lparr>auth_user_devices := auth_user_devices p @ [row]\<rparr>) = (device_at p)(device_id row \<mapsto> row)"
  by (auto simp: device_at_def find_snoc fun_eq_iff split: option.splits)

lemma device_at_None: "device_at p k = None \<longleftrightarrow> \<not> list_ex (\<lambda>r. device_id r = k) (auth_user_devices p)"
  by (simp add: device_at_def find_None_notin list_ex_iff)

lemma insert_device_view:
  assumes "insert_device name em sec p = Inr (k, q)"
  shows "k = gen_random_uuid p (pg_calls p) \<and> device_at p k = None \<and> same_server p q
    \<and> users q = users p
    \<and> (\<exists>u\<in>set (users p). email_eq p (email u) em)
    \<and> device_at q = (device_at p)(k \<mapsto>
        \<lparr>device_id = k, device_name = name, user_email = em, secret = sec,
         generation = 1, updated_at = pg_now p\<rparr>)"
proof -
  let ?row = "\<lparr>device_id = k, device_name = name, user_email = em, secret = sec,
    generation = 1, updated_at = pg_now p\<rparr>"
  from assms have k: "k = gen_random_uuid p (pg_calls p)" "device_at p k = None"
    and u: "\<exists>u\<in>set (users p). email_eq p (email u) em"
    and q: "q = p\<lparr>auth_user_devices := auth_user_devices p @ [?row]\<rparr>"
    by (auto simp: insert_device_def Let_def device_at_None list_ex_iff split: if_splits)
  with device_at_append [of p ?row] show ?thesis by (simp add: same_server_def)
qed

lemma find_bump:
  "List.find (\<lambda>r. device_id r = j) (map (bump_row k now) rows)
    = map_option (bump_row k now) (List.find (\<lambda>r. device_id r = j) rows)"
  by (rule find_map_key) (simp add: bump_row_def)

lemma update_device_view:
  assumes "update_device d p = Inr (g, q)"
  shows "\<exists>k r. uuid_in p d = Some k \<and> device_at p k = Some r \<and> generation r < MaxInt32
    \<and> g = generation r + 1 \<and> same_server p q \<and> users q = users p
    \<and> device_at q = (device_at p)(k \<mapsto> r\<lparr>generation := g, updated_at := pg_now p\<rparr>)"
proof -
  from assms obtain k r where k: "uuid_in p d = Some k" and r: "device_at p k = Some r"
    and g: "generation r < MaxInt32" "g = generation r + 1"
    and q: "q = p\<lparr>auth_user_devices := map (bump_row k (pg_now p)) (auth_user_devices p)\<rparr>"
    by (auto simp: update_device_def device_at_def split: option.splits if_splits)
  have "device_at q j = ((device_at p)(k \<mapsto> r\<lparr>generation := g, updated_at := pg_now p\<rparr>)) j" for j
  proof -
    have "device_at q j = map_option (bump_row k (pg_now p)) (device_at p j)"
      by (simp add: q device_at_def find_bump)
    moreover have "device_id x = j" if "device_at p j = Some x" for x
      using device_at_SomeD [OF that] by simp
    ultimately show ?thesis
      using r g by (cases "device_at p j") (auto simp: bump_row_def)
  qed
  with k r g q show ?thesis by (auto simp: same_server_def fun_eq_iff)
qed

lemma filter_view:
  assumes "pg_wf p"
  shows "device_at (p\<lparr>auth_user_devices := filter P (auth_user_devices p)\<rparr>) j
    = (case device_at p j of None \<Rightarrow> None | Some r \<Rightarrow> if P r then Some r else None)"
  using assms by (simp add: device_at_def pg_wf_def find_filter_key)

lemma delete_device_view:
  assumes "pg_wf p" and "delete_device em d p = Inr (u, q)"
  shows "\<exists>k. uuid_in p d = Some k \<and> same_server p q \<and> users q = users p
    \<and> device_at q = (\<lambda>j. case device_at p j of None \<Rightarrow> None
        | Some r \<Rightarrow> if j = k \<and> email_eq p (user_email r) em then None else Some r)"
proof -
  let ?P = "\<lambda>k r. \<not> (email_eq p (user_email r) em \<and> device_id r = k)"
  from assms(2) obtain k where k: "uuid_in p d = Some k"
    and q: "q = p\<lparr>auth_user_devices := filter (?P k) (auth_user_devices p)\<rparr>"
    by (auto simp: delete_device_def split: option.splits)
  have "device_at q j = (case device_at p j of None \<Rightarrow> None
        | Some r \<Rightarrow> if j = k \<and> email_eq p (user_email r) em then None else Some r)" for j
    using device_at_SomeD [of p j] filter_view [OF assms(1), of "?P k" j]
    by (cases "device_at p j") (auto simp: q)
  with k q show ?thesis by (auto simp: same_server_def fun_eq_iff)
qed

lemma delete_all_devices_view:
  assumes "pg_wf p" and "delete_all_devices em p = Inr (ids, q)"
  shows "same_server p q \<and> users q = users p
    \<and> set ids = {j. \<exists>r. device_at p j = Some r \<and> email_eq p (user_email r) em}
    \<and> device_at q = (\<lambda>j. if j \<in> set ids then None else device_at p j)"
proof -
  from assms(2) have ids: "ids = map device_id (filter (\<lambda>r. email_eq p (user_email r) em) (auth_user_devices p))"
    and q: "q = p\<lparr>auth_user_devices := filter (\<lambda>r. \<not> email_eq p (user_email r) em) (auth_user_devices p)\<rparr>"
    by (auto simp: delete_all_devices_def)
  have set: "set ids = {j. \<exists>r. device_at p j = Some r \<and> email_eq p (user_email r) em}"
    using device_at_row [OF assms(1)] by (fastforce simp: ids dest: device_at_SomeD)
  have "device_at q j = (if j \<in> set ids then None else device_at p j)" for j
    by (cases "device_at p j") (auto simp: q set filter_view [OF assms(1)])
  with set show ?thesis by (auto simp: q same_server_def)
qed

section \<open>The constraints are kept by every statement\<close>

text \<open>The tables only shrank, or a row changed in columns the constraints do not mention.\<close>

lemma pg_wf_filter:
  "pg_wf p \<Longrightarrow> pg_wf (p\<lparr>auth_user_devices := filter P (auth_user_devices p)\<rparr>)"
  by (auto simp: pg_wf_def pg_server_ok_def distinct_map inj_on_def)

lemma pg_wf_insert:
  assumes "pg_wf p" and "insert_device name em sec p = Inr (k, q)"
  shows "pg_wf q"
proof -
  from assms(2) have fresh: "gen_random_uuid p (pg_calls p) \<notin> device_id ` set (auth_user_devices p)"
    and "\<exists>u\<in>set (users p). email_eq p (email u) em"
    by (auto simp: insert_device_def Let_def list_ex_iff split: if_splits)
  with assms show ?thesis
    by (auto simp: insert_device_def Let_def pg_wf_def pg_server_ok_def MaxInt32_def
        split: if_splits) blast
qed

lemma pg_wf_update:
  assumes wf: "pg_wf p" and st: "update_device d p = Inr (g, q)"
  shows "pg_wf q"
proof -
  from st obtain k r where r: "device_at p k = Some r" "generation r < MaxInt32"
    and q: "q = p\<lparr>auth_user_devices := map (bump_row k (pg_now p)) (auth_user_devices p)\<rparr>"
    by (auto simp: update_device_def device_at_def split: option.splits if_splits)
  have ids: "device_id \<circ> bump_row k (pg_now p) = device_id"
    by (simp add: bump_row_def fun_eq_iff)
  have "x = r" if "x \<in> set (auth_user_devices p)" "device_id x = k" for x
    using device_at_row [OF wf that(1)] that(2) r by simp
  with wf r ids show ?thesis
    by (auto simp: pg_wf_def pg_server_ok_def q) (auto simp: bump_row_def)
qed

lemma pg_wf_exec:
  assumes "pg_exec st p = (res, q)" and "pg_wf p"
    and "\<And>x q'. st p = Inr (x, q') \<Longrightarrow> pg_wf q'"
  shows "pg_wf q"
  using assms(1) by (rule pg_exec_rel [where R = "\<lambda>_ q'. pg_wf q'"]) (use assms in auto)

lemma exec_same_server:
  assumes "pg_exec st p = (res, q)" and "\<And>x q'. st p = Inr (x, q') \<Longrightarrow> same_server p q'"
  shows "same_server p q"
  using assms(1) by (rule pg_exec_rel) (use assms in auto)

lemma stmt_same_server:
  "insert_device name em sec p = Inr (k, q) \<Longrightarrow> same_server p q"
  "update_device d p = Inr (g, q) \<Longrightarrow> same_server p q"
  "select_secret d p = Inr (sg, q) \<Longrightarrow> same_server p q"
  "delete_device em d p = Inr (u, q) \<Longrightarrow> same_server p q"
  "delete_all_devices em p = Inr (ids, q) \<Longrightarrow> same_server p q"
  using insert_device_view [of name em sec p k q] update_device_view [of d p g q]
  by (auto simp: select_secret_def delete_device_def delete_all_devices_def same_server_def
      split: option.splits)

lemma pg_wf_methods:
  assumes "pg_wf p"
  shows "pg_wf (snd (pg_exec (insert_device name em sec) p))"
    and "pg_wf (snd (pg_exec (update_device d) p))"
    and "pg_wf (snd (pg_exec (select_secret d) p))"
    and "pg_wf (snd (pg_exec (delete_device em d) p))"
    and "pg_wf (snd (pg_exec (delete_all_devices em) p))"
    and "pg_wf (snd (pg_exec cleanup_statement p))"
proof -
  note step = pg_wf_exec [OF prod.collapse [symmetric] assms]
  show "pg_wf (snd (pg_exec (insert_device name em sec) p))"
    by (rule step) (rule pg_wf_insert [OF assms])
  show "pg_wf (snd (pg_exec (update_device d) p))"
    by (rule step) (rule pg_wf_update [OF assms])
  show "pg_wf (snd (pg_exec (select_secret d) p))"
    by (rule step) (use assms in \<open>auto simp: select_secret_def split: option.splits\<close>)
  show "pg_wf (snd (pg_exec (delete_device em d) p))"
    by (rule step) (use assms in \<open>auto simp: delete_device_def pg_wf_filter split: option.splits\<close>)
  show "pg_wf (snd (pg_exec (delete_all_devices em) p))"
    by (rule step) (use assms in \<open>auto simp: delete_all_devices_def pg_wf_filter\<close>)
  show "pg_wf (snd (pg_exec cleanup_statement p))"
    by (rule step) (use assms in \<open>auto simp: cleanup_statement_def Let_def pg_wf_filter\<close>)
qed

lemma method_state [frame_simps]:
  "snd (Database_SaveDeviceSecret em name sec p) = snd (pg_exec (insert_device name em sec) p)"
  "snd (Database_UpdateDeviceSecret d p) = snd (pg_exec (update_device d) p)"
  "snd (Database_GetDeviceSecret d p) = snd (pg_exec (select_secret d) p)"
  "snd (Database_DeleteDevice em d p) = snd (pg_exec (delete_device em d) p)"
  "snd (Database_DeleteAllDevices em p) = snd (pg_exec (delete_all_devices em) p)"
  "snd (Database_DeleteAllDevicesReturningIDs em p) = snd (pg_exec (delete_all_devices em) p)"
  "snd (cleanupOldDevices p) = snd (pg_exec cleanup_statement p)"
  by (auto simp: Database_SaveDeviceSecret_def Database_UpdateDeviceSecret_def
      Database_GetDeviceSecret_def Database_DeleteDevice_def Database_DeleteAllDevices_def
      Database_DeleteAllDevicesReturningIDs_def cleanupOldDevices_def
      split: prod.splits sum.splits option.splits)

section \<open>Properties\<close>

text \<open>A small server state used by the witnesses: one user, no device, nothing fails.\<close>

definition demo_pg :: pg where
  "demo_pg = \<lparr>auth_user_devices = [],
     users = [\<lparr>user_id = ''u1'', username = Some ''ann'', email = ''a@x''\<rparr>],
     pg_calls = 0, pg_fault = (\<lambda>_. NoFault), pg_clock = (\<lambda>n. int n * Hour),
     gen_random_uuid = (\<lambda>n. replicate (Suc n) CHR ''d''), uuid_in = Some, email_eq = (=)\<rparr>"

lemma demo_pg_ok: "pg_wf demo_pg" "pg_up demo_pg"
  by (simp_all add: demo_pg_def pg_wf_def pg_server_ok_def pg_up_def identity_equivp)

text \<open>
  A device that was saved can be read back: when \<^verbatim>\<open>SaveDeviceSecret\<close> returns an identifier,
  that identifier was unused before, belongs to a user of the users table, and
  \<^verbatim>\<open>GetDeviceSecret\<close> on it returns the saved secret with generation 1, the generation the
  first refresh token is issued with; every other device is as before.
\<close>

theorem SaveDeviceSecret_then_Get:
  assumes "pg_wf p" and "Database_SaveDeviceSecret em name sec p = (Inr k, q)" and "pg_up q"
  shows "fst (Database_GetDeviceSecret k q) = Inr (sec, 1)
    \<and> device_at p k = None \<and> (\<exists>u\<in>set (users p). email_eq p (email u) em)
    \<and> (\<forall>j. j \<noteq> k \<longrightarrow> device_at q j = device_at p j)"
proof -
  from assms(2) have "pg_exec (insert_device name em sec) p = (Inr k, q)"
    by (auto simp: Database_SaveDeviceSecret_def split: prod.splits sum.splits option.splits if_splits)
  then obtain q' where st: "insert_device name em sec p = Inr (k, q')"
    and q: "q = q'\<lparr>pg_calls := Suc (pg_calls p)\<rparr>"
    by (auto dest: pg_exec_Inr)
  note view = insert_device_view [OF st]
  have "pg_wf q" using pg_wf_insert [OF assms(1) st] by (simp add: q)
  from view have row: "device_at q k = Some \<lparr>device_id = k, device_name = name, user_email = em,
      secret = sec, generation = 1, updated_at = pg_now p\<rparr>" by (simp add: q)
  with \<open>pg_wf q\<close> have "uuid_in q k = Some k" by (rule device_at_canonical)
  with row have "select_secret k q = Inr ((sec, 1), q)"
    by (simp add: select_secret_def device_at_def)
  then have "fst (Database_GetDeviceSecret k q) = Inr (sec, 1)"
    by (simp add: Database_GetDeviceSecret_def pg_exec_up [OF assms(3)])
  moreover from view have "device_at p k = None" and "\<exists>u\<in>set (users p). email_eq p (email u) em"
    and "\<forall>j. j \<noteq> k \<longrightarrow> device_at q j = device_at p j" by (auto simp: q)
  ultimately show ?thesis by blast
qed

theorem SaveDeviceSecret_then_Get_witness:
  "fst (Database_GetDeviceSecret ''d'' (snd (Database_SaveDeviceSecret ''a@x'' ''phone'' ''s1'' demo_pg)))
    = Inr (''s1'', 1)"
proof -
  let ?q = "snd (Database_SaveDeviceSecret ''a@x'' ''phone'' ''s1'' demo_pg)"
  have "Database_SaveDeviceSecret ''a@x'' ''phone'' ''s1'' demo_pg = (Inr ''d'', ?q)"
    by (simp add: Database_SaveDeviceSecret_def pg_exec_def insert_device_def demo_pg_def Let_def)
  moreover have "pg_up ?q"
    by (simp add: Database_SaveDeviceSecret_def pg_exec_def insert_device_def demo_pg_def pg_up_def Let_def)
  ultimately show ?thesis
    using SaveDeviceSecret_then_Get [OF demo_pg_ok(1)] by blast
qed

text \<open>
  \<^verbatim>\<open>DeleteDevice(userEmail, deviceID)\<close> deletes exactly the device with that identifier, and
  only when it belongs to that user: a successful call with somebody else's device, or with
  an unknown one, leaves every session in place.
\<close>

theorem DeleteDevice_only_own_device:
  assumes "pg_wf p" and "Database_DeleteDevice em d p = (None, q)"
  shows "\<exists>k. uuid_in p d = Some k \<and> (\<forall>j. device_at q j =
    (if j = k \<and> (\<exists>r. device_at p j = Some r \<and> email_eq p (user_email r) em) then None else device_at p j))"
proof -
  from assms(2) obtain u where "pg_exec (delete_device em d) p = (Inr u, q)"
    by (auto simp: Database_DeleteDevice_def split: prod.splits sum.splits)
  then obtain q' where st: "delete_device em d p = Inr (u, q')" and q: "q = q'\<lparr>pg_calls := Suc (pg_calls p)\<rparr>"
    by (auto dest: pg_exec_Inr)
  show ?thesis
    using delete_device_view [OF assms(1) st] by (auto simp: q split: option.splits)
qed

theorem DeleteDevice_only_own_device_witness:
  "device_at (snd (Database_DeleteDevice ''b@x'' ''d''
     (snd (Database_SaveDeviceSecret ''a@x'' ''phone'' ''s1'' demo_pg)))) ''d'' \<noteq> None"
proof -
  let ?p = "snd (Database_SaveDeviceSecret ''a@x'' ''phone'' ''s1'' demo_pg)"
  let ?q = "snd (Database_DeleteDevice ''b@x'' ''d'' ?p)"
  note defs = Database_SaveDeviceSecret_def Database_DeleteDevice_def pg_exec_def insert_device_def
    delete_device_def demo_pg_def Let_def
  have "pg_wf ?p" by (simp add: method_state pg_wf_methods [OF demo_pg_ok(1)])
  moreover have "Database_DeleteDevice ''b@x'' ''d'' ?p = (None, ?q)" by (simp add: defs)
  ultimately have "\<exists>k. uuid_in ?p ''d'' = Some k \<and> (\<forall>j. device_at ?q j =
    (if j = k \<and> (\<exists>r. device_at ?p j = Some r \<and> email_eq ?p (user_email r) ''b@x'') then None
     else device_at ?p j))"
    by (rule DeleteDevice_only_own_device)
  moreover have "\<exists>r. device_at ?p ''d'' = Some r \<and> \<not> email_eq ?p (user_email r) ''b@x''"
    by (simp add: defs device_at_def)
  ultimately show ?thesis by auto
qed

lemma cleanup_view:
  assumes "pg_wf p" and "cleanupOldDevices p = (Inr n, q)"
  shows "device_at q j = (case device_at p j of None \<Rightarrow> None
    | Some r \<Rightarrow> if updated_at r < pg_now p - 7 * 24 * Hour then None else Some r)"
proof -
  from assms(2) obtain q' where "cleanup_statement p = Inr (n, q')"
    and q: "q = q'\<lparr>pg_calls := Suc (pg_calls p)\<rparr>"
    by (auto simp: cleanupOldDevices_def dest: pg_exec_Inr)
  then have "q' = p\<lparr>auth_user_devices :=
      filter (\<lambda>r. \<not> updated_at r < pg_now p - 7 * 24 * Hour) (auth_user_devices p)\<rparr>"
    by (auto simp: cleanup_statement_def Let_def)
  with filter_view [OF assms(1), of "\<lambda>r. \<not> updated_at r < pg_now p - 7 * 24 * Hour" j]
  show ?thesis by (auto simp: q split: option.splits)
qed

text \<open>A call whose error leaves no trace either ran its statement or changed nothing but the count of calls.\<close>

lemma quiet_call:
  assumes "pg_exec st p = (x, q)" and "pg_no_lost_reply p"
  shows "case x of Inl _ \<Rightarrow> q = p\<lparr>pg_calls := Suc (pg_calls p)\<rparr>
    | Inr v \<Rightarrow> \<exists>q'. st p = Inr (v, q') \<and> q = q'\<lparr>pg_calls := Suc (pg_calls p)\<rparr>"
  using assms pg_exec_Inr [of st p _ q] pg_exec_Inl [of st p _ q] by (cases x) auto

lemma save_effect:
  assumes "pg_no_lost_reply p" and "Database_SaveDeviceSecret em name sec p = (x, q)"
  shows "users q = users p \<and> (case x of Inl _ \<Rightarrow> device_at q = device_at p
    | Inr k \<Rightarrow> device_at p k = None \<and> (\<exists>u. u \<in> set (users p) \<and> email_eq p (email u) em)
        \<and> device_at q = (device_at p)(k \<mapsto> \<lparr>device_id = k, device_name = name, user_email = em, secret = sec,
            generation = 1, updated_at = pg_now p\<rparr>))"
proof -
  obtain y q0 where call: "pg_exec (insert_device name em sec) p = (y, q0)" by fastforce
  with assms(2) have "q = q0 \<and> (case y of Inl _ \<Rightarrow> \<exists>e. x = Inl e | Inr k \<Rightarrow> x = Inr k)"
    by (auto simp: Database_SaveDeviceSecret_def split: sum.splits option.splits if_splits)
  with quiet_call [OF call assms(1)] insert_device_view [of name em sec p] show ?thesis
    by (fastforce split: sum.splits)
qed

lemma delete_effect:
  assumes "pg_wf p" and "pg_no_lost_reply p" and "Database_DeleteDevice em d p = (x, q)"
  shows "users q = users p \<and> (if x = None then \<exists>k. uuid_in p d = Some k \<and> device_at q = (\<lambda>j. case device_at p j of None \<Rightarrow> None
        | Some r \<Rightarrow> if j = k \<and> email_eq p (user_email r) em then None else Some r)
    else device_at q = device_at p)"
proof -
  obtain y q0 where call: "pg_exec (delete_device em d) p = (y, q0)" by fastforce
  with assms(3) have "q = q0 \<and> (case y of Inl e \<Rightarrow> x = Some e | Inr _ \<Rightarrow> x = None)"
    by (auto simp: Database_DeleteDevice_def split: sum.splits)
  with quiet_call [OF call assms(2)] delete_device_view [OF assms(1), of em d] show ?thesis
    by (fastforce split: sum.splits)
qed

lemma delete_all_effect:
  assumes "pg_wf p" and "pg_no_lost_reply p" and "pg_exec (delete_all_devices em) p = (x, q)"
  shows "users q = users p \<and> (case x of Inl _ \<Rightarrow> device_at q = device_at p
    | Inr ids \<Rightarrow> set ids = {j. \<exists>r. device_at p j = Some r \<and> email_eq p (user_email r) em}
        \<and> device_at q = (\<lambda>j. if j \<in> set ids then None else device_at p j))"
  using quiet_call [OF assms(3,2)] delete_all_devices_view [OF assms(1), of em] by (fastforce split: sum.splits)

lemma cleanup_effect:
  assumes "pg_wf p" and "pg_no_lost_reply p" and "cleanupOldDevices p = (x, q)"
  shows "users q = users p \<and> device_at q = (case x of Inl _ \<Rightarrow> device_at p
    | Inr _ \<Rightarrow> (\<lambda>j. case device_at p j of None \<Rightarrow> None | Some r \<Rightarrow> if updated_at r < pg_now p - 7 * 24 * Hour then None else Some r))"
proof -
  have call: "pg_exec cleanup_statement p = (x, q)" using assms(3) by (simp add: cleanupOldDevices_def)
  note q = quiet_call [OF call assms(2)]
  have "users q = users p" using q by (auto simp: cleanup_statement_def Let_def split: sum.splits)
  moreover have "device_at q j = (case device_at p j of None \<Rightarrow> None | Some r \<Rightarrow> if updated_at r < pg_now p - 7 * 24 * Hour then None else Some r)"
    if "x = Inr n" for n j using assms(3) cleanup_view [OF assms(1)] that by blast
  ultimately show ?thesis using q by (auto simp: fun_eq_iff split: sum.splits)
qed

text \<open>
  C39. The methods of \<^verbatim>\<open>Database\<close> and the clean-up change the rows they name and no others, when a call that reports an
  error took no effect. \<^verbatim>\<open>SaveDeviceSecret\<close> adds one row of generation 1 under an unused identifier, for a known user;
  \<^verbatim>\<open>UpdateDeviceSecret\<close> moves the generation of the named device on by one, returns it, and sets \<^verbatim>\<open>updated_at\<close> to now;
  \<^verbatim>\<open>GetDeviceSecret\<close> returns secret and generation of the named device and changes nothing; \<^verbatim>\<open>DeleteDevice\<close> removes the
  named device when it is the user's; both forms of deleting all devices remove exactly the user's devices, and the second
  returns their identifiers; the clean-up removes exactly the devices not updated for more than seven days. A method that reports an
  error changes no row. The users table is never touched, and the constraints of the schema hold afterwards.
\<close>

theorem Database_methods_change_only_their_rows:
  assumes "pg_wf p" and "pg_no_lost_reply p"
    and "Database_SaveDeviceSecret em name sec p = (saved, p1)" and "Database_UpdateDeviceSecret d p = (updated, p2)"
    and "Database_GetDeviceSecret d p = (got, p3)" and "Database_DeleteDevice em d p = (deleted, p4)"
    and "Database_DeleteAllDevices em p = (all_deleted, p5)" and "Database_DeleteAllDevicesReturningIDs em p = (returned, p6)"
    and "cleanupOldDevices p = (cleaned, p7)"
  shows "(case saved of Inl _ \<Rightarrow> device_at p1 = device_at p
      | Inr k \<Rightarrow> device_at p k = None \<and> (\<exists>u. u \<in> set (users p) \<and> email_eq p (email u) em)
          \<and> device_at p1 = (device_at p)(k \<mapsto> \<lparr>device_id = k, device_name = name, user_email = em, secret = sec,
              generation = 1, updated_at = pg_now p\<rparr>))
    \<and> (case updated of Inl _ \<Rightarrow> device_at p2 = device_at p
      | Inr g \<Rightarrow> \<exists>k r. uuid_in p d = Some k \<and> device_at p k = Some r \<and> g = generation r + 1
          \<and> device_at p2 = (device_at p)(k \<mapsto> r\<lparr>generation := g, updated_at := pg_now p\<rparr>))
    \<and> device_at p3 = device_at p
    \<and> (case got of Inl _ \<Rightarrow> True
      | Inr v \<Rightarrow> \<exists>k r. uuid_in p d = Some k \<and> device_at p k = Some r \<and> v = (secret r, generation r))
    \<and> (if deleted = None then \<exists>k. uuid_in p d = Some k \<and> device_at p4 = (\<lambda>j. case device_at p j of None \<Rightarrow> None
          | Some r \<Rightarrow> if j = k \<and> email_eq p (user_email r) em then None else Some r)
      else device_at p4 = device_at p)
    \<and> device_at p5 = (\<lambda>j. case device_at p j of None \<Rightarrow> None
          | Some r \<Rightarrow> if all_deleted = None \<and> email_eq p (user_email r) em then None else Some r)
    \<and> (case returned of Inl _ \<Rightarrow> device_at p6 = device_at p
      | Inr ids \<Rightarrow> set ids = {j. \<exists>r. device_at p j = Some r \<and> email_eq p (user_email r) em}
          \<and> device_at p6 = (\<lambda>j. if j \<in> set ids then None else device_at p j))
    \<and> device_at p7 = (case cleaned of Inl _ \<Rightarrow> device_at p
      | Inr _ \<Rightarrow> (\<lambda>j. case device_at p j of None \<Rightarrow> None | Some r \<Rightarrow> if updated_at r < pg_now p - 7 * 24 * Hour then None else Some r))
    \<and> list_all (\<lambda>q. users q = users p \<and> pg_wf q) [p1, p2, p3, p4, p5, p6, p7]"
proof -
  have upd: "users p2 = users p \<and> (case updated of Inl _ \<Rightarrow> device_at p2 = device_at p
      | Inr g \<Rightarrow> \<exists>k r. uuid_in p d = Some k \<and> device_at p k = Some r \<and> g = generation r + 1
          \<and> device_at p2 = (device_at p)(k \<mapsto> r\<lparr>generation := g, updated_at := pg_now p\<rparr>))"
    using quiet_call [OF _ assms(2), of "update_device d" updated p2] assms(4) update_device_view [of d p]
    by (fastforce simp: Database_UpdateDeviceSecret_def split: sum.splits)
  have get: "users p3 = users p \<and> device_at p3 = device_at p \<and> (case got of Inl _ \<Rightarrow> True
      | Inr v \<Rightarrow> \<exists>k r. uuid_in p d = Some k \<and> device_at p k = Some r \<and> v = (secret r, generation r))"
    using quiet_call [OF _ assms(2), of "select_secret d" got p3] assms(5)
    by (fastforce simp: Database_GetDeviceSecret_def select_secret_def device_at_def split: sum.splits option.splits)
  obtain y where "pg_exec (delete_all_devices em) p = (y, p5)" and y: "case y of Inl e \<Rightarrow> all_deleted = Some e | Inr _ \<Rightarrow> all_deleted = None"
    using assms(7) by (auto simp: Database_DeleteAllDevices_def split: prod.splits sum.splits)
  note all = delete_all_effect [OF assms(1,2) this(1)]
  have returned: "pg_exec (delete_all_devices em) p = (returned, p6)"
    using assms(8) by (simp add: Database_DeleteAllDevicesReturningIDs_def)
  have p5: "device_at p5 = (\<lambda>j. case device_at p j of None \<Rightarrow> None
          | Some r \<Rightarrow> if all_deleted = None \<and> email_eq p (user_email r) em then None else Some r)"
    using all y by (auto simp: fun_eq_iff split: sum.splits option.splits)
  have "pg_wf p1" "pg_wf p2" "pg_wf p3" "pg_wf p4" "pg_wf p5" "pg_wf p6" "pg_wf p7"
    using pg_wf_methods [OF assms(1)] assms(3-9) method_state by (metis snd_conv)+
  with upd get p5 save_effect [OF assms(2,3)] delete_effect [OF assms(1,2,6)] all delete_all_effect [OF assms(1,2) returned]
    cleanup_effect [OF assms(1,2,9)] show ?thesis by simp
qed

theorem Database_methods_change_only_their_rows_witness:
  "device_at (snd (Database_DeleteDevice ''b@x'' ''d'' (snd (Database_SaveDeviceSecret ''a@x'' ''phone'' ''s1'' demo_pg)))) ''d''
    = Some \<lparr>device_id = ''d'', device_name = ''phone'', user_email = ''a@x'', secret = ''s1'', generation = 1, updated_at = 0\<rparr>"
proof -
  let ?p = "snd (Database_SaveDeviceSecret ''a@x'' ''phone'' ''s1'' demo_pg)"
  let ?q = "snd (Database_DeleteDevice ''b@x'' ''d'' ?p)"
  note defs = Database_SaveDeviceSecret_def Database_DeleteDevice_def pg_exec_def insert_device_def delete_device_def demo_pg_def Let_def
  have "pg_wf ?p" by (simp add: method_state pg_wf_methods [OF demo_pg_ok(1)])
  moreover have "pg_no_lost_reply ?p" by (simp add: defs pg_no_lost_reply_def)
  moreover have del: "Database_DeleteDevice ''b@x'' ''d'' ?p = (None, ?q)" by (simp add: defs)
  moreover have "device_at ?p ''d'' = Some \<lparr>device_id = ''d'', device_name = ''phone'', user_email = ''a@x'', secret = ''s1'',
      generation = 1, updated_at = 0\<rparr>" "\<not> email_eq ?p ''a@x'' ''b@x''"
    by (simp_all add: defs device_at_def pg_now_def)
  ultimately show ?thesis
    using Database_methods_change_only_their_rows [of ?p "''b@x''" "''pc''" "''s2''" _ _ "''d''", OF _ _ prod.collapse [symmetric] prod.collapse [symmetric]
      prod.collapse [symmetric] del prod.collapse [symmetric] prod.collapse [symmetric] prod.collapse [symmetric]]
    by (auto split: option.splits if_splits)
qed

text \<open>
  A session that was rotated is safe from the clean-up worker for seven days: after a
  successful \<^verbatim>\<open>UpdateDeviceSecret\<close>, a clean-up that runs at most seven days later leaves the
  device as the rotation left it, with the next generation.
\<close>

theorem rotated_device_survives_cleanup:
  assumes "pg_wf p" and "Database_UpdateDeviceSecret d p = (Inr g, q)"
    and "cleanupOldDevices q = (Inr n, q')" and "pg_now q \<le> pg_now p + 7 * 24 * Hour"
  shows "\<exists>k r. uuid_in p d = Some k \<and> device_at p k = Some r \<and> g = generation r + 1
    \<and> device_at q' k = Some (r\<lparr>generation := g, updated_at := pg_now p\<rparr>)"
proof -
  from assms(2) obtain q0 where st: "update_device d p = Inr (g, q0)"
    and q: "q = q0\<lparr>pg_calls := Suc (pg_calls p)\<rparr>"
    by (auto simp: Database_UpdateDeviceSecret_def dest: pg_exec_Inr)
  have "pg_wf q" using pg_wf_update [OF assms(1) st] by (simp add: q)
  note cleanup_view [OF this assms(3)]
  with update_device_view [OF st] assms(4) show ?thesis
    by (auto simp: q)
qed

theorem rotated_device_survives_cleanup_witness:
  "\<exists>p q' r. device_at q' ''d'' = Some r \<and> generation r = 2
     \<and> q' = snd (cleanupOldDevices (snd (Database_UpdateDeviceSecret ''d'' p)))"
proof -
  let ?p = "snd (Database_SaveDeviceSecret ''a@x'' ''phone'' ''s1'' demo_pg)"
  let ?q = "snd (Database_UpdateDeviceSecret ''d'' ?p)"
  let ?q' = "snd (cleanupOldDevices ?q)"
  note defs = Database_SaveDeviceSecret_def Database_UpdateDeviceSecret_def cleanupOldDevices_def
    pg_exec_def insert_device_def update_device_def cleanup_statement_def demo_pg_def Let_def
    MaxInt32_def bump_row_def pg_now_def time_units
  have "pg_wf ?p"
    by (simp add: method_state pg_wf_methods [OF demo_pg_ok(1)])
  moreover have "Database_UpdateDeviceSecret ''d'' ?p = (Inr 2, ?q)" by (simp add: defs)
  moreover have "cleanupOldDevices ?q = (Inr 0, ?q')" by (simp add: defs)
  moreover have "pg_now ?q \<le> pg_now ?p + 7 * 24 * Hour" by (simp add: defs)
  ultimately have "\<exists>k r. uuid_in ?p ''d'' = Some k \<and> device_at ?p k = Some r \<and> 2 = generation r + 1
      \<and> device_at ?q' k = Some (r\<lparr>generation := 2, updated_at := pg_now ?p\<rparr>)"
    by (rule rotated_device_survives_cleanup)
  moreover have "uuid_in ?p ''d'' = Some ''d''" by (simp add: defs)
  ultimately obtain r where "device_at ?q' ''d'' = Some (r\<lparr>generation := 2, updated_at := pg_now ?p\<rparr>)"
    by auto
  then show ?thesis by (intro exI [of _ ?p] exI [of _ ?q']) auto
qed

end
