(* ===== verification/Go_Strings.thy ===== *)
theory Go_Strings
  imports Prelude "HOL-Library.Sublist"
begin

text \<open>
  The functions of Go's packages \<^verbatim>\<open>strings\<close> and \<^verbatim>\<open>strconv\<close> the repository calls. A Go
  string is a sequence of bytes, here a list of \<open>char\<close>. On ASCII text the functions are
  written out; what \<^verbatim>\<open>strings.ToLower\<close>, \<^verbatim>\<open>strings.TrimSpace\<close> and
  \<^verbatim>\<open>strings.EqualFold\<close> do with bytes outside ASCII depends on the Unicode tables, which are
  a parameter (\<open>unicode\<close>). Go's \<^verbatim>\<open>int\<close> and \<^verbatim>\<open>int64\<close> are 64 bits wide: a parsed number
  outside that range is an error, as in \<^verbatim>\<open>strconv\<close>.
\<close>

record unicode =
  uni_ToLower :: "string \<Rightarrow> string"
  uni_TrimSpace :: "string \<Rightarrow> string"
  uni_EqualFold :: "string \<Rightarrow> string \<Rightarrow> bool"

definition byte_of :: "char \<Rightarrow> nat" where
  "byte_of c = of_char c"

definition is_ascii :: "char \<Rightarrow> bool" where
  "is_ascii c \<longleftrightarrow> byte_of c < 128"

definition ascii_lower :: "char \<Rightarrow> char" where
  "ascii_lower c = (if 65 \<le> byte_of c \<and> byte_of c \<le> 90 then char_of (byte_of c + 32) else c)"

definition strings_ToLower :: "unicode \<Rightarrow> string \<Rightarrow> string" where
  "strings_ToLower U s = (if list_all is_ascii s then map ascii_lower s else uni_ToLower U s)"

definition is_space :: "char \<Rightarrow> bool" where
  "is_space c \<longleftrightarrow> byte_of c \<in> {9, 10, 11, 12, 13, 32}"

definition strings_TrimSpace :: "unicode \<Rightarrow> string \<Rightarrow> string" where
  "strings_TrimSpace U s =
     (if list_all is_ascii s then rev (dropWhile is_space (rev (dropWhile is_space s)))
      else uni_TrimSpace U s)"

definition strings_EqualFold :: "unicode \<Rightarrow> string \<Rightarrow> string \<Rightarrow> bool" where
  "strings_EqualFold U s t =
     (if list_all is_ascii s \<and> list_all is_ascii t then map ascii_lower s = map ascii_lower t
      else uni_EqualFold U s t)"

definition strings_CutPrefix :: "string \<Rightarrow> string \<Rightarrow> string \<times> bool" where
  "strings_CutPrefix s p = (if prefix p s then (drop (length p) s, True) else (s, False))"

definition strings_TrimPrefix :: "string \<Rightarrow> string \<Rightarrow> string" where
  "strings_TrimPrefix s p = fst (strings_CutPrefix s p)"

text \<open>\<^verbatim>\<open>strings.Cut\<close>: text before and after the first separator, and whether there is one.\<close>

fun strings_Cut :: "string \<Rightarrow> string \<Rightarrow> string \<times> string \<times> bool" where
  "strings_Cut s sep =
     (if prefix sep s then ([], drop (length sep) s, True)
      else case s of
        [] \<Rightarrow> ([], [], False)
      | c # cs \<Rightarrow> (case strings_Cut cs sep of (b, a, found) \<Rightarrow> (c # b, a, found)))"

declare strings_Cut.simps [simp del]

lemma strings_Cut_Nil [simp]: "strings_Cut [] [c] = ([], [], False)"
  by (subst strings_Cut.simps) simp

lemma strings_Cut_hit [simp]: "strings_Cut (c # s) [c] = ([], s, True)"
  by (subst strings_Cut.simps) simp

lemma strings_Cut_miss [simp]:
  "d \<noteq> c \<Longrightarrow> strings_Cut (d # s) [c] = (case strings_Cut s [c] of (b, a, f) \<Rightarrow> (d # b, a, f))"
  by (subst strings_Cut.simps) simp

lemma strings_Cut_append:
  "c \<notin> set b \<Longrightarrow> strings_Cut (b @ c # a) [c] = (b, a, True)"
  by (induction b) auto

lemma strings_Cut_absent: "c \<notin> set s \<Longrightarrow> strings_Cut s [c] = (s, [], False)"
  by (induction s) auto

lemma strings_Cut_found:
  "strings_Cut s [c] = (b, a, True) \<Longrightarrow> s = b @ c # a \<and> c \<notin> set b"
proof (induction s arbitrary: b)
  case (Cons d s)
  then show ?case
    by (cases "d = c") (auto split: prod.splits)
qed simp

text \<open>Case mapping keeps ASCII text ASCII and is idempotent.\<close>

lemma byte_of_char_of [simp]: "n < 256 \<Longrightarrow> byte_of (char_of n) = n"
  by (simp add: byte_of_def)

lemma ascii_lower_idem [simp]: "ascii_lower (ascii_lower c) = ascii_lower c"
  by (auto simp: ascii_lower_def)

lemma ascii_lower_ascii [simp]: "is_ascii (ascii_lower c) \<longleftrightarrow> is_ascii c"
  by (auto simp: ascii_lower_def is_ascii_def)

lemma strings_ToLower_idem:
  "list_all is_ascii s \<Longrightarrow> strings_ToLower U (strings_ToLower U s) = strings_ToLower U s"
  by (auto simp: strings_ToLower_def list_all_iff)

section \<open>Decimal numbers\<close>

definition is_digit :: "char \<Rightarrow> bool" where
  "is_digit c \<longleftrightarrow> 48 \<le> byte_of c \<and> byte_of c \<le> 57"

definition digit_char :: "nat \<Rightarrow> char" where
  "digit_char d = char_of (48 + d)"

fun nat_digits :: "nat \<Rightarrow> string" where
  "nat_digits n = (if n < 10 then [digit_char n] else nat_digits (n div 10) @ [digit_char (n mod 10)])"

declare nat_digits.simps [simp del]

definition digits_val :: "string \<Rightarrow> nat" where
  "digits_val s = foldl (\<lambda>a c. 10 * a + (byte_of c - 48)) 0 s"

definition MinInt64 :: int where
  "MinInt64 = - (2 ^ 63)"

definition MaxInt64 :: int where
  "MaxInt64 = 2 ^ 63 - 1"

lemmas int64_bounds = MinInt64_def MaxInt64_def

definition strconv_Itoa :: "int \<Rightarrow> string" where
  "strconv_Itoa n = (if n < 0 then CHR ''-'' # nat_digits (nat (- n)) else nat_digits (nat n))"

text \<open>\<^verbatim>\<open>strconv.ParseInt(s, 10, 64)\<close>, which \<^verbatim>\<open>strconv.Atoi\<close> agrees with.\<close>

definition strconv_ParseInt :: "string \<Rightarrow> go_error + int" where
  "strconv_ParseInt s =
     (let neg = (s \<noteq> [] \<and> hd s = CHR ''-'');
          ds = (if s \<noteq> [] \<and> (hd s = CHR ''-'' \<or> hd s = CHR ''+'') then tl s else s);
          n = (if neg then - int (digits_val ds) else int (digits_val ds))
      in if ds = [] \<or> \<not> list_all is_digit ds then Inl (Opaque ''invalid syntax'')
         else if n < MinInt64 \<or> MaxInt64 < n then Inl (Opaque ''value out of range'')
         else Inr n)"

definition strconv_Atoi :: "string \<Rightarrow> go_error + int" where
  "strconv_Atoi = strconv_ParseInt"

lemma digit_char_byte [simp]: "d < 10 \<Longrightarrow> byte_of (digit_char d) = 48 + d"
  by (simp add: digit_char_def)

lemma digit_char_is_digit [simp]: "d < 10 \<Longrightarrow> is_digit (digit_char d)"
  by (simp add: is_digit_def)

lemma nat_digits_digits: "list_all is_digit (nat_digits n)"
proof (induction n rule: nat_digits.induct)
  case (1 n)
  then show ?case
    by (subst nat_digits.simps) auto
qed

lemma nat_digits_nonempty: "nat_digits n \<noteq> []"
  by (subst nat_digits.simps) simp

lemma digits_val_snoc: "digits_val (s @ [c]) = 10 * digits_val s + (byte_of c - 48)"
  by (simp add: digits_val_def)

lemma digits_val_nat_digits [simp]: "digits_val (nat_digits n) = n"
proof (induction n rule: nat_digits.induct)
  case (1 n)
  show ?case
  proof (cases "n < 10")
    case True
    then show ?thesis by (subst nat_digits.simps) (simp add: digits_val_def)
  next
    case False
    with 1 have "digits_val (nat_digits (n div 10)) = n div 10" by simp
    with False show ?thesis by (subst nat_digits.simps) (simp add: digits_val_snoc)
  qed
qed

lemma is_digit_not_sign: "is_digit c \<Longrightarrow> c \<noteq> CHR ''-'' \<and> c \<noteq> CHR ''+'' \<and> c \<noteq> CHR '':''"
  by (auto simp: is_digit_def byte_of_def)

lemma nat_digits_hd: "is_digit (hd (nat_digits n))"
  using nat_digits_digits [of n] nat_digits_nonempty [of n] by (cases "nat_digits n") auto

lemma nat_digits_no_colon: "CHR '':'' \<notin> set (nat_digits n)"
  using nat_digits_digits [of n] is_digit_not_sign by (auto simp: list_all_iff)

text \<open>Reading back what \<^verbatim>\<open>strconv.Itoa\<close> printed gives the number, for every 64-bit integer.\<close>

lemma Atoi_Itoa:
  assumes "MinInt64 \<le> n" and "n \<le> MaxInt64"
  shows "strconv_Atoi (strconv_Itoa n) = Inr n"
proof (cases "n < 0")
  case True
  then show ?thesis
    using assms nat_digits_nonempty [of "nat (- n)"] nat_digits_digits [of "nat (- n)"]
    by (simp add: strconv_Atoi_def strconv_ParseInt_def strconv_Itoa_def Let_def)
next
  case False
  then show ?thesis
    using assms nat_digits_nonempty [of "nat n"] nat_digits_digits [of "nat n"]
      nat_digits_hd [of "nat n"] is_digit_not_sign
    by (auto simp: strconv_Atoi_def strconv_ParseInt_def strconv_Itoa_def Let_def)
qed

lemma ParseInt_range: "strconv_ParseInt s = Inr n \<Longrightarrow> MinInt64 \<le> n \<and> n \<le> MaxInt64"
  by (auto simp: strconv_ParseInt_def Let_def split: if_splits)

text \<open>On an unsigned numeral the only possible failure is the range.\<close>

lemma ParseInt_digits:
  assumes "s \<noteq> []" and "list_all is_digit s"
  shows "strconv_ParseInt s =
    (if int (digits_val s) \<le> MaxInt64 then Inr (int (digits_val s)) else Inl (Opaque ''value out of range''))"
proof -
  from assms have "is_digit (hd s)" by (cases s) auto
  with is_digit_not_sign have "hd s \<noteq> CHR ''-''" "hd s \<noteq> CHR ''+''" by auto
  with assms show ?thesis by (auto simp: strconv_ParseInt_def Let_def MinInt64_def)
qed

end
