(* ===== verification/Memory_Cache.thy ===== *)
theory Memory_Cache
  imports Prelude
begin

text \<open>
  Package \<^verbatim>\<open>server/internal/cache\<close>, file \<^verbatim>\<open>memory.go\<close>: the bounded in-memory cache built on the
  library \<^verbatim>\<open>otter\<close>. The library is a parameter: a cache object carries the library's methods
  (\<open>otter\<close>) beside its opaque state, as a Go value does. What the repository relies on is
  \<open>otter_laws\<close>, stated over the entries the cache holds (\<open>contents\<close>): an entry may vanish at any
  moment (expiry, eviction), but a lookup never returns a value that was not stored, a write
  replaces what was there, and \<^verbatim>\<open>Compute\<close> applies its function atomically to the present value.
  \<open>otter_retains\<close> is the stronger promise that nothing vanishes in the meantime.
\<close>

datatype ComputeOp = CancelOp | WriteOp | InvalidateOp

text \<open>
  \<^verbatim>\<open>Compute\<close> also tells what its function was called with, for the callers whose closure
  records it. \<open>contents\<close> is not a method of the library: it names the entries in the laws.
\<close>

record ('m, 'v) otter =
  otter_GetIfPresent :: "'m \<Rightarrow> string \<Rightarrow> 'v option \<times> 'm"
  otter_Set :: "'m \<Rightarrow> string \<Rightarrow> 'v \<Rightarrow> 'm"
  otter_Compute :: "'m \<Rightarrow> string \<Rightarrow> ('v \<Rightarrow> bool \<Rightarrow> 'v \<times> ComputeOp) \<Rightarrow> ('v \<times> bool) \<times> 'm"
  otter_contents :: "'m \<Rightarrow> string \<rightharpoonup> 'v"

record ('m, 'v) otter_cache =
  otter_methods :: "('m, 'v) otter"
  otter_state :: "'m"

text \<open>The effect a \<^verbatim>\<open>Compute\<close> callback asks for.\<close>

definition compute_effect ::
  "(string \<rightharpoonup> 'v) \<Rightarrow> string \<Rightarrow> 'v \<times> ComputeOp \<Rightarrow> (string \<rightharpoonup> 'v)" where
  "compute_effect m k res = (case snd res of
     CancelOp \<Rightarrow> m | WriteOp \<Rightarrow> m(k \<mapsto> fst res) | InvalidateOp \<Rightarrow> m(k := None))"

definition otter_laws :: "'v \<Rightarrow> ('m, 'v) otter \<Rightarrow> bool" where
  "otter_laws zero L \<longleftrightarrow>
     (\<forall>m k r m'. otter_GetIfPresent L m k = (r, m') \<longrightarrow>
        (\<exists>base. base \<subseteq>\<^sub>m otter_contents L m \<and> r = base k \<and> otter_contents L m' \<subseteq>\<^sub>m base))
   \<and> (\<forall>m k v. otter_contents L (otter_Set L m k v) \<subseteq>\<^sub>m (otter_contents L m)(k \<mapsto> v))
   \<and> (\<forall>m k f old found m'. otter_Compute L m k f = ((old, found), m') \<longrightarrow>
        (\<exists>base. base \<subseteq>\<^sub>m otter_contents L m
           \<and> (if found then base k = Some old else base k = None \<and> old = zero)
           \<and> otter_contents L m' \<subseteq>\<^sub>m compute_effect base k (f old found)))"

definition otter_retains :: "'v \<Rightarrow> ('m, 'v) otter \<Rightarrow> bool" where
  "otter_retains zero L \<longleftrightarrow>
     (\<forall>m k. otter_GetIfPresent L m k = (otter_contents L m k, m))
   \<and> (\<forall>m k v. otter_contents L (otter_Set L m k v) = (otter_contents L m)(k \<mapsto> v))
   \<and> (\<forall>m k f. let (old, found) = (case otter_contents L m k of None \<Rightarrow> (zero, False) | Some v \<Rightarrow> (v, True))
        in \<exists>m'. otter_Compute L m k f = ((old, found), m')
             \<and> otter_contents L m' = compute_effect (otter_contents L m) k (f old found))"

section \<open>Methods on a cache object\<close>

definition cache_GetIfPresent :: "('m, 'v) otter_cache \<Rightarrow> string \<Rightarrow> 'v option \<times> ('m, 'v) otter_cache" where
  "cache_GetIfPresent c k =
     (case otter_GetIfPresent (otter_methods c) (otter_state c) k of (r, m) \<Rightarrow> (r, c\<lparr>otter_state := m\<rparr>))"

definition cache_Set :: "('m, 'v) otter_cache \<Rightarrow> string \<Rightarrow> 'v \<Rightarrow> ('m, 'v) otter_cache" where
  "cache_Set c k v = c\<lparr>otter_state := otter_Set (otter_methods c) (otter_state c) k v\<rparr>"

definition cache_Compute ::
  "('m, 'v) otter_cache \<Rightarrow> string \<Rightarrow> ('v \<Rightarrow> bool \<Rightarrow> 'v \<times> ComputeOp)
    \<Rightarrow> ('v \<times> bool) \<times> ('m, 'v) otter_cache" where
  "cache_Compute c k f =
     (case otter_Compute (otter_methods c) (otter_state c) k f of (r, m) \<Rightarrow> (r, c\<lparr>otter_state := m\<rparr>))"

definition cache_contents :: "('m, 'v) otter_cache \<Rightarrow> string \<rightharpoonup> 'v" where
  "cache_contents c = otter_contents (otter_methods c) (otter_state c)"

definition cache_ok :: "'v \<Rightarrow> ('m, 'v) otter_cache \<Rightarrow> bool" where
  "cache_ok zero c \<longleftrightarrow> otter_laws zero (otter_methods c)"

definition cache_retains :: "'v \<Rightarrow> ('m, 'v) otter_cache \<Rightarrow> bool" where
  "cache_retains zero c \<longleftrightarrow> otter_retains zero (otter_methods c)"

text \<open>
  \<^verbatim>\<open>NewMemoryCache\<close> checks its arguments before it asks the library for a cache; a missing
  function argument is Go's nil, here \<open>None\<close>.
\<close>

definition NewMemoryCache ::
  "(int \<Rightarrow> ('v \<Rightarrow> duration) \<Rightarrow> go_error + ('m, 'v) otter_cache)
    \<Rightarrow> int \<Rightarrow> ('v \<Rightarrow> duration) option \<Rightarrow> go_error + ('m, 'v) otter_cache" where
  "NewMemoryCache otter_New maximumSize ttl =
     (if maximumSize \<le> 0 then Inl ErrInvalidMaximumSize
      else case ttl of
        None \<Rightarrow> Inl ErrMissingTTLFunc
      | Some t \<Rightarrow> otter_New maximumSize t)"

section \<open>The laws on a cache object\<close>

lemma otter_lawsD:
  assumes "otter_laws zero L"
  shows otter_law_get: "otter_GetIfPresent L m k = (r, m') \<Longrightarrow>
      \<exists>base. base \<subseteq>\<^sub>m otter_contents L m \<and> r = base k \<and> otter_contents L m' \<subseteq>\<^sub>m base"
    and otter_law_set: "otter_contents L (otter_Set L m k v) \<subseteq>\<^sub>m (otter_contents L m)(k \<mapsto> v)"
    and otter_law_compute: "otter_Compute L m k f = ((old, found), m') \<Longrightarrow>
      \<exists>base. base \<subseteq>\<^sub>m otter_contents L m
        \<and> (if found then base k = Some old else base k = None \<and> old = zero)
        \<and> otter_contents L m' \<subseteq>\<^sub>m compute_effect base k (f old found)"
  using assms unfolding otter_laws_def by blast+

lemma cache_ok_state [simp]: "cache_ok zero (c\<lparr>otter_state := m\<rparr>) = cache_ok zero c"
  by (simp add: cache_ok_def)

lemma cache_GetIfPresent_law:
  assumes "cache_ok zero c" and "cache_GetIfPresent c k = (r, c')"
  shows "(r = None \<or> r = cache_contents c k) \<and> cache_contents c' \<subseteq>\<^sub>m cache_contents c \<and> cache_ok zero c'
    \<and> (\<forall>v. cache_contents c' k = Some v \<longrightarrow> r = Some v)"
proof -
  from assms obtain base where base: "base \<subseteq>\<^sub>m cache_contents c" "r = base k" "cache_contents c' \<subseteq>\<^sub>m base"
    and "cache_ok zero c'"
    using otter_law_get [of zero "otter_methods c" "otter_state c" k]
    by (auto simp: cache_GetIfPresent_def cache_contents_def cache_ok_def split: prod.splits)
  then show ?thesis
    using map_le_lookup [OF base(1), of k] map_le_lookup [OF base(3), of k] map_le_trans [OF base(3,1)]
    by (cases "base k"; cases "cache_contents c' k") auto
qed

lemma cache_Set_law:
  assumes "cache_ok zero c"
  shows "cache_contents (cache_Set c k v) \<subseteq>\<^sub>m (cache_contents c)(k \<mapsto> v) \<and> cache_ok zero (cache_Set c k v)"
  using assms otter_law_set [of zero "otter_methods c" "otter_state c" k v]
  by (simp add: cache_Set_def cache_contents_def cache_ok_def)

lemma cache_Compute_law:
  assumes "cache_ok zero c" and "cache_Compute c k f = ((old, found), c')"
  shows "cache_ok zero c' \<and> (\<exists>base. base \<subseteq>\<^sub>m cache_contents c
     \<and> (if found then base k = Some old else base k = None \<and> old = zero)
     \<and> cache_contents c' \<subseteq>\<^sub>m compute_effect base k (f old found))"
proof -
  from assms(2) obtain m where
    m: "otter_Compute (otter_methods c) (otter_state c) k f = ((old, found), m)"
    and c': "c' = c\<lparr>otter_state := m\<rparr>"
    by (auto simp: cache_Compute_def split: prod.splits)
  from assms(1) have "otter_laws zero (otter_methods c)" by (simp add: cache_ok_def)
  from otter_law_compute [OF this m] assms(1) show ?thesis
    by (simp add: cache_contents_def c')
qed

text \<open>The stronger promise implies the weaker one.\<close>

lemma otter_retainsD:
  assumes "otter_retains zero L"
  shows otter_retains_get: "otter_GetIfPresent L m k = (otter_contents L m k, m)"
    and otter_retains_set: "otter_contents L (otter_Set L m k v) = (otter_contents L m)(k \<mapsto> v)"
    and otter_retains_hit: "otter_contents L m k = Some v \<Longrightarrow>
      \<exists>m'. otter_Compute L m k f = ((v, True), m')
        \<and> otter_contents L m' = compute_effect (otter_contents L m) k (f v True)"
    and otter_retains_miss: "otter_contents L m k = None \<Longrightarrow>
      \<exists>m'. otter_Compute L m k f = ((zero, False), m')
        \<and> otter_contents L m' = compute_effect (otter_contents L m) k (f zero False)"
  using assms unfolding otter_retains_def Let_def
  by (blast, blast, fastforce split: prod.splits, fastforce split: prod.splits)

lemma otter_retains_laws:
  assumes "otter_retains zero L"
  shows "otter_laws zero L"
  unfolding otter_laws_def
proof (intro conjI allI impI)
  fix m k f old found m'
  assume comp: "otter_Compute L m k f = ((old, found), m')"
  show "\<exists>base. base \<subseteq>\<^sub>m otter_contents L m
      \<and> (if found then base k = Some old else base k = None \<and> old = zero)
      \<and> otter_contents L m' \<subseteq>\<^sub>m compute_effect base k (f old found)"
    using comp otter_retains_hit [OF assms, of m k _ f] otter_retains_miss [OF assms, of m k f]
    by (intro exI [of _ "otter_contents L m"]) (cases "otter_contents L m k"; auto)
next
  fix m k r m'
  assume "otter_GetIfPresent L m k = (r, m')"
  then show "\<exists>base. base \<subseteq>\<^sub>m otter_contents L m \<and> r = base k \<and> otter_contents L m' \<subseteq>\<^sub>m base"
    using otter_retains_get [OF assms] by (intro exI [of _ "otter_contents L m"]) auto
qed (use otter_retains_get [OF assms] otter_retains_set [OF assms] in auto)

lemma cache_retains_ok: "cache_retains zero c \<Longrightarrow> cache_ok zero c"
  by (simp add: cache_retains_def cache_ok_def otter_retains_laws)

section \<open>A concrete cache for the witnesses\<close>

text \<open>An unbounded map that never forgets satisfies the laws.\<close>

definition map_otter :: "'v \<Rightarrow> ((string \<times> 'v) list, 'v) otter" where
  "map_otter zero = \<lparr>
     otter_GetIfPresent = (\<lambda>m k. (map_of m k, m)),
     otter_Set = (\<lambda>m k v. (k, v) # m),
     otter_Compute = (\<lambda>m k f.
       let e = (case map_of m k of None \<Rightarrow> (zero, False) | Some v \<Rightarrow> (v, True)); r = f (fst e) (snd e)
       in (e, case snd r of CancelOp \<Rightarrow> m | WriteOp \<Rightarrow> (k, fst r) # m
              | InvalidateOp \<Rightarrow> filter (\<lambda>x. fst x \<noteq> k) m)),
     otter_contents = map_of\<rparr>"

lemma map_of_filter_key: "map_of (filter (\<lambda>x. fst x \<noteq> k) m) = (map_of m)(k := None)"
  by (induction m) (auto simp: fun_eq_iff)

lemma map_otter_retains: "otter_retains zero (map_otter zero)"
  by (auto simp: otter_retains_def map_otter_def compute_effect_def Let_def map_of_filter_key
      split: option.splits ComputeOp.splits)

end
