(* ===== verification/Redis_Client.thy ===== *)
theory Redis_Client
  imports Prelude
begin

text \<open>
  Package \<^verbatim>\<open>server/internal/cache\<close>, file \<^verbatim>\<open>redis.go\<close>: the commands the server sends to Redis.
  The Redis service and its client library \<^verbatim>\<open>rueidis\<close> are a parameter: a \<open>RedisClient\<close> carries
  the library's \<^verbatim>\<open>Do\<close> beside the opaque state of the service. The documented meaning of the
  commands used, over the keys the service holds, is \<open>redis_answer\<close> and \<open>redis_effect\<close>;
  \<open>redis_laws\<close> says that a reply other than an error comes from running the command on the keys
  that have not expired by then, and that a command answered by an error was either executed or
  not. \<open>redis_reliable\<close> says that every command is executed.

  A Lua script runs atomically on one key: its translation is a function of the key's present
  value and of the script's arguments.
\<close>

datatype lua_outcome =
    LuaReturn int
  | LuaSetPx string string int
  | LuaError string

type_synonym lua_script = "string option \<Rightarrow> string list \<Rightarrow> lua_outcome"

datatype redis_cmd =
    CmdPing
  | CmdGet string
  | CmdSetPx string string duration
  | CmdSetNxPx string string duration
  | CmdGetdel string
  | CmdDel string
  | CmdEval lua_script string "string list"

datatype redis_reply = ReplyNil | ReplyString string | ReplyInt int | ReplyOK | ReplyError go_error

record 'r RedisClient =
  rueidis_Do :: "'r \<Rightarrow> redis_cmd \<Rightarrow> redis_reply \<times> 'r"
  redis_keys :: "'r \<Rightarrow> string \<rightharpoonup> string"
  redis_state :: "'r"

fun redis_effect :: "redis_cmd \<Rightarrow> (string \<rightharpoonup> string) \<Rightarrow> (string \<rightharpoonup> string)" where
  "redis_effect CmdPing m = m"
| "redis_effect (CmdGet k) m = m"
| "redis_effect (CmdSetPx k v _) m = m(k \<mapsto> v)"
| "redis_effect (CmdSetNxPx k v _) m = (if m k = None then m(k \<mapsto> v) else m)"
| "redis_effect (CmdGetdel k) m = m(k := None)"
| "redis_effect (CmdDel k) m = m(k := None)"
| "redis_effect (CmdEval s k args) m =
     (case s (m k) args of LuaReturn _ \<Rightarrow> m | LuaSetPx v _ _ \<Rightarrow> m(k \<mapsto> v) | LuaError _ \<Rightarrow> m)"

definition answer_string :: "string option \<Rightarrow> redis_reply" where
  "answer_string v = (case v of None \<Rightarrow> ReplyNil | Some s \<Rightarrow> ReplyString s)"

fun redis_answer :: "redis_cmd \<Rightarrow> (string \<rightharpoonup> string) \<Rightarrow> redis_reply" where
  "redis_answer CmdPing m = ReplyOK"
| "redis_answer (CmdGet k) m = answer_string (m k)"
| "redis_answer (CmdSetPx k v _) m = ReplyOK"
| "redis_answer (CmdSetNxPx k v _) m = (if m k = None then ReplyOK else ReplyNil)"
| "redis_answer (CmdGetdel k) m = answer_string (m k)"
| "redis_answer (CmdDel k) m = ReplyInt (if m k = None then 0 else 1)"
| "redis_answer (CmdEval s k args) m =
     (case s (m k) args of
        LuaReturn n \<Rightarrow> ReplyInt n | LuaSetPx _ _ n \<Rightarrow> ReplyInt n | LuaError msg \<Rightarrow> ReplyError (Opaque msg))"

definition command_ran ::
  "redis_cmd \<Rightarrow> redis_reply \<Rightarrow> (string \<rightharpoonup> string) \<Rightarrow> (string \<rightharpoonup> string) \<Rightarrow> bool" where
  "command_ran cmd rep before after \<longleftrightarrow> (\<exists>base. base \<subseteq>\<^sub>m before \<and>
     (rep = redis_answer cmd base \<and> after \<subseteq>\<^sub>m redis_effect cmd base
      \<or> (\<exists>e. rep = ReplyError e \<and> e \<noteq> RedisNil) \<and> (after \<subseteq>\<^sub>m base \<or> after \<subseteq>\<^sub>m redis_effect cmd base)))"

definition redis_laws :: "'r RedisClient \<Rightarrow> bool" where
  "redis_laws c \<longleftrightarrow> (\<forall>r cmd rep r'. rueidis_Do c r cmd = (rep, r') \<longrightarrow>
     command_ran cmd rep (redis_keys c r) (redis_keys c r'))"

definition redis_reliable :: "'r RedisClient \<Rightarrow> bool" where
  "redis_reliable c \<longleftrightarrow> (\<forall>r cmd rep r'. rueidis_Do c r cmd = (rep, r') \<longrightarrow>
     (\<exists>base. base \<subseteq>\<^sub>m redis_keys c r \<and> rep = redis_answer cmd base
        \<and> redis_keys c r' \<subseteq>\<^sub>m redis_effect cmd base))"

text \<open>Every command is executed, and no key expires in the meantime.\<close>

definition redis_exact :: "'r RedisClient \<Rightarrow> bool" where
  "redis_exact c \<longleftrightarrow> (\<forall>r cmd. fst (rueidis_Do c r cmd) = redis_answer cmd (redis_keys c r)
     \<and> redis_keys c (snd (rueidis_Do c r cmd)) = redis_effect cmd (redis_keys c r))"

section \<open>The client's methods\<close>

definition client_Do :: "'r RedisClient \<Rightarrow> redis_cmd \<Rightarrow> redis_reply \<times> 'r RedisClient" where
  "client_Do c cmd = (case rueidis_Do c (redis_state c) cmd of (rep, r) \<Rightarrow> (rep, c\<lparr>redis_state := r\<rparr>))"

definition client_keys :: "'r RedisClient \<Rightarrow> string \<rightharpoonup> string" where
  "client_keys c = redis_keys c (redis_state c)"

text \<open>\<^verbatim>\<open>RedisResult.Error\<close>, \<^verbatim>\<open>ToString\<close> and \<^verbatim>\<open>AsBytes\<close>: the nil reply is an error of its own.\<close>

fun reply_Error :: "redis_reply \<Rightarrow> go_error option" where
  "reply_Error ReplyNil = Some RedisNil"
| "reply_Error (ReplyError e) = Some e"
| "reply_Error _ = None"

fun reply_ToString :: "redis_reply \<Rightarrow> go_error + string" where
  "reply_ToString (ReplyString s) = Inr s"
| "reply_ToString ReplyNil = Inl RedisNil"
| "reply_ToString (ReplyError e) = Inl e"
| "reply_ToString _ = Inl (Opaque ''redis message is not a string'')"

definition IsRedisNil :: "go_error \<Rightarrow> bool" where
  "IsRedisNil e \<longleftrightarrow> e = RedisNil"

definition RedisClient_Get :: "'r RedisClient \<Rightarrow> string \<Rightarrow> redis_reply \<times> 'r RedisClient" where
  "RedisClient_Get c key = client_Do c (CmdGet key)"

definition RedisClient_Set ::
  "'r RedisClient \<Rightarrow> string \<Rightarrow> string \<Rightarrow> duration \<Rightarrow> go_error option \<times> 'r RedisClient" where
  "RedisClient_Set c key value ttl =
     (case client_Do c (CmdSetPx key value ttl) of (rep, c') \<Rightarrow> (reply_Error rep, c'))"

definition RedisClient_SetNX ::
  "'r RedisClient \<Rightarrow> string \<Rightarrow> string \<Rightarrow> duration \<Rightarrow> go_error option \<times> 'r RedisClient" where
  "RedisClient_SetNX c key value ttl =
     (case client_Do c (CmdSetNxPx key value ttl) of (rep, c') \<Rightarrow> (reply_Error rep, c'))"

definition RedisClient_GetDel :: "'r RedisClient \<Rightarrow> string \<Rightarrow> redis_reply \<times> 'r RedisClient" where
  "RedisClient_GetDel c key = client_Do c (CmdGetdel key)"

definition RedisClient_Del :: "'r RedisClient \<Rightarrow> string \<Rightarrow> go_error option \<times> 'r RedisClient" where
  "RedisClient_Del c key = (case client_Do c (CmdDel key) of (rep, c') \<Rightarrow> (reply_Error rep, c'))"

text \<open>
  \<^verbatim>\<open>NewRedisClient\<close>: no URL means no client; otherwise the URL must parse, the connection must
  open with a dial timeout of five seconds, and a ping must succeed.
\<close>

record redis_options =
  dial_timeout :: duration
  redis_address :: string

definition NewRedisClient ::
  "(string \<Rightarrow> go_error + redis_options) \<Rightarrow> (redis_options \<Rightarrow> go_error + 'r RedisClient)
    \<Rightarrow> string \<Rightarrow> go_error + 'r RedisClient option" where
  "NewRedisClient ParseURL NewClient url =
     (if url = '''' then Inr None
      else case ParseURL url of
        Inl err \<Rightarrow> Inl (Wrapped ''invalid redis url'' err)
      | Inr opt \<Rightarrow>
          (case NewClient (opt\<lparr>dial_timeout := 5 * Second\<rparr>) of
             Inl err \<Rightarrow> Inl (Wrapped ''redis connection failed'' err)
           | Inr client \<Rightarrow>
               (case client_Do client CmdPing of
                  (rep, client') \<Rightarrow>
                    (case reply_Error rep of
                       Some err \<Rightarrow> Inl (Wrapped ''redis connection failed'' err)
                     | None \<Rightarrow> Inr (Some client')))))"

section \<open>The laws on a client\<close>

lemma client_state [simp]:
  "redis_laws (c\<lparr>redis_state := r\<rparr>) = redis_laws c"
  "redis_reliable (c\<lparr>redis_state := r\<rparr>) = redis_reliable c"
  by (simp_all add: redis_laws_def redis_reliable_def)

lemma client_Do_law:
  assumes "redis_laws c" and "client_Do c cmd = (rep, c')"
  shows "redis_laws c' \<and> command_ran cmd rep (client_keys c) (client_keys c')"
  using assms
  by (auto simp: client_Do_def client_keys_def redis_laws_def split: prod.splits)

text \<open>A client that never fails ran the command on what was left of its keys.\<close>

lemma redis_reliable_laws: "redis_reliable c \<Longrightarrow> redis_laws c"
  unfolding redis_reliable_def redis_laws_def command_ran_def by blast

lemma client_Do_reliable:
  assumes "redis_reliable c" and "client_Do c cmd = (rep, c')"
  shows "redis_reliable c' \<and> (\<exists>base. base \<subseteq>\<^sub>m client_keys c \<and> rep = redis_answer cmd base
    \<and> client_keys c' \<subseteq>\<^sub>m redis_effect cmd base)"
  using assms
  by (auto simp: client_Do_def client_keys_def redis_reliable_def split: prod.splits)

section \<open>A concrete service for the witnesses\<close>

definition map_redis :: "(string \<times> string) list \<Rightarrow> ((string \<rightharpoonup> string)) RedisClient" where
  "map_redis kvs = \<lparr>rueidis_Do = (\<lambda>m cmd. (redis_answer cmd m, redis_effect cmd m)),
     redis_keys = (\<lambda>m. m), redis_state = map_of kvs\<rparr>"

lemma map_redis_reliable: "redis_reliable (map_redis kvs)"
  by (auto simp: redis_reliable_def map_redis_def) (metis map_le_refl)

lemma map_redis_exact: "redis_exact (map_redis kvs)"
  by (simp add: redis_exact_def map_redis_def)

lemma client_Do_exact:
  assumes "redis_exact c"
  obtains c' where "client_Do c cmd = (redis_answer cmd (client_keys c), c')"
    and "client_keys c' = redis_effect cmd (client_keys c)" and "redis_exact c'"
proof -
  obtain rep r where do: "rueidis_Do c (redis_state c) cmd = (rep, r)" by fastforce
  then have "client_Do c cmd = (rep, c\<lparr>redis_state := r\<rparr>)" by (simp add: client_Do_def)
  moreover have "rep = redis_answer cmd (client_keys c)" "redis_keys c r = redis_effect cmd (client_keys c)"
    using assms do by (auto simp: redis_exact_def client_keys_def) (metis fst_conv, metis snd_conv)
  ultimately show thesis
    using assms that [of "c\<lparr>redis_state := r\<rparr>"] by (simp add: client_keys_def redis_exact_def)
qed

end
