(* ===== verification/Device_Cache.thy ===== *)
theory Device_Cache
  imports Go_Strings Memory_Cache Redis_Client
begin

text \<open>
  Package \<^verbatim>\<open>server/internal/cache/device\<close>: the cache of device secrets. A \<open>Secret\<close> with an empty
  value is a tombstone: the device was deleted. The interface \<^verbatim>\<open>SecretCache\<close> is a record of
  methods; \<open>memorySecretCache\<close> and \<open>redisSecretCache\<close> implement it. The locale
  \<open>secret_cache\<close> is what the rest of the server may expect of any implementation, and
  \<open>reliable_secret_cache\<close> what it gets when writes are not silently lost; both implementations
  are shown to satisfy them, and the Lua script of the Redis one is shown to decide exactly
  as the in-memory update function does.
\<close>

record Secret =
  Value :: string
  Generation :: int

definition zero_Secret :: Secret where
  "zero_Secret = \<lparr>Value = '''', Generation = 0\<rparr>"

definition Secret_deleted :: "Secret \<Rightarrow> bool" where
  "Secret_deleted s \<longleftrightarrow> Value s = ''''"

lemma zero_Secret_deleted [simp]: "Secret_deleted zero_Secret"
  by (simp add: Secret_deleted_def zero_Secret_def)

definition secretTTL :: duration where
  "secretTTL = 5 * Minute"

definition secretMemoryMaxSize :: int where
  "secretMemoryMaxSize = 100000"

definition deletedSecretExtraTTL :: duration where
  "deletedSecretExtraTTL = Minute"

text \<open>The method table of the interface \<^verbatim>\<open>SecretCache\<close>, over the implementation's own state.\<close>

record 'c SecretCache =
  GetSecret :: "'c \<Rightarrow> string \<Rightarrow> Secret option \<times> 'c"
  SetSecret :: "'c \<Rightarrow> string \<Rightarrow> Secret \<Rightarrow> 'c"
  DeleteSecret :: "'c \<Rightarrow> string \<Rightarrow> 'c"

section \<open>In memory\<close>

record 'm memorySecretCache =
  secrets :: "('m, Secret) otter_cache"

definition secret_ttl :: "duration \<Rightarrow> Secret \<Rightarrow> duration" where
  "secret_ttl ttl s = (if Secret_deleted s then ttl + deletedSecretExtraTTL else ttl)"

definition newMemorySecretCache ::
  "(int \<Rightarrow> (Secret \<Rightarrow> duration) \<Rightarrow> go_error + ('m, Secret) otter_cache)
    \<Rightarrow> int \<Rightarrow> duration \<Rightarrow> go_error + 'm memorySecretCache" where
  "newMemorySecretCache otter_New maximumSize ttl =
     (case NewMemoryCache otter_New maximumSize (Some (secret_ttl ttl)) of
        Inl err \<Rightarrow> Inl err
      | Inr c \<Rightarrow> Inr \<lparr>secrets = c\<rparr>)"

definition memorySecretCache_GetSecret ::
  "'m memorySecretCache \<Rightarrow> string \<Rightarrow> Secret option \<times> 'm memorySecretCache" where
  "memorySecretCache_GetSecret m deviceID =
     (case cache_GetIfPresent (secrets m) deviceID of
        (r, c) \<Rightarrow>
          ((case r of
              None \<Rightarrow> None
            | Some s \<Rightarrow> if Secret_deleted s then None else Some s), m\<lparr>secrets := c\<rparr>))"

text \<open>The callback of \<^verbatim>\<open>SetSecret\<close>: neither a tombstone nor a newer generation is overwritten.\<close>

definition set_newer :: "Secret \<Rightarrow> Secret \<Rightarrow> bool \<Rightarrow> Secret \<times> ComputeOp" where
  "set_newer s current found =
     (if found \<and> (Secret_deleted current \<or> Generation s \<le> Generation current)
      then (current, CancelOp) else (s, WriteOp))"

definition memorySecretCache_SetSecret ::
  "'m memorySecretCache \<Rightarrow> string \<Rightarrow> Secret \<Rightarrow> 'm memorySecretCache" where
  "memorySecretCache_SetSecret m deviceID s =
     m\<lparr>secrets := snd (cache_Compute (secrets m) deviceID (set_newer s))\<rparr>"

definition memorySecretCache_DeleteSecret ::
  "'m memorySecretCache \<Rightarrow> string \<Rightarrow> 'm memorySecretCache" where
  "memorySecretCache_DeleteSecret m deviceID =
     m\<lparr>secrets := cache_Set (secrets m) deviceID zero_Secret\<rparr>"

definition memory_SecretCache :: "('m memorySecretCache) SecretCache" where
  "memory_SecretCache = \<lparr>GetSecret = memorySecretCache_GetSecret,
     SetSecret = memorySecretCache_SetSecret, DeleteSecret = memorySecretCache_DeleteSecret\<rparr>"

section \<open>In Redis\<close>

definition secretKeyPrefix :: string where
  "secretKeyPrefix = ''oauth2:device:secret:''"

record 'r redisSecretCache =
  redis_client :: "'r RedisClient"
  redis_ttl :: duration

definition newRedisSecretCache :: "'r RedisClient \<Rightarrow> 'r redisSecretCache" where
  "newRedisSecretCache client = \<lparr>redis_client = client, redis_ttl = secretTTL\<rparr>"

definition encodeSecret :: "Secret \<Rightarrow> string" where
  "encodeSecret s = strconv_Itoa (Generation s) @ '':'' @ Value s"

definition decodeSecret :: "string \<Rightarrow> Secret option" where
  "decodeSecret raw =
     (case strings_Cut raw '':'' of
        (gen, val, found) \<Rightarrow>
          if \<not> found \<or> val = '''' then None
          else case strconv_Atoi gen of
            Inl _ \<Rightarrow> None
          | Inr n \<Rightarrow> Some \<lparr>Value = val, Generation = n\<rparr>)"

text \<open>
  The Lua script. \<open>lua_generation\<close> is \<^verbatim>\<open>tonumber(string.match(current, '^(%d+):'))\<close>: the leading
  digits when a colon follows them, nothing otherwise. Lua numbers are doubles, exact below
  \<open>2 ^ 53\<close>, and a generation is a 32-bit column, so the numbers are kept as integers.
\<close>

definition lua_generation :: "string \<Rightarrow> int option" where
  "lua_generation current =
     (let ds = takeWhile is_digit current; rest = dropWhile is_digit current
      in if ds \<noteq> [] \<and> rest \<noteq> [] \<and> hd rest = CHR '':'' then Some (int (digits_val ds)) else None)"

definition lua_tonumber :: "string \<Rightarrow> int option" where
  "lua_tonumber s = (case strconv_Atoi s of Inl _ \<Rightarrow> None | Inr n \<Rightarrow> Some n)"

definition setNewerSecretScript :: lua_script where
  "setNewerSecretScript current ARGV =
     (let write = LuaSetPx (ARGV ! 0) (ARGV ! 2) 1
      in case current of
        None \<Rightarrow> write
      | Some cur \<Rightarrow>
          if cur = '''' then LuaReturn 0
          else case lua_generation cur of
            None \<Rightarrow> write
          | Some g \<Rightarrow>
              (case lua_tonumber (ARGV ! 1) of
                 None \<Rightarrow> LuaError ''attempt to compare nil with number''
               | Some n \<Rightarrow> if n \<le> g then LuaReturn 0 else write))"

definition redisSecretCache_GetSecret ::
  "'r redisSecretCache \<Rightarrow> string \<Rightarrow> Secret option \<times> 'r redisSecretCache" where
  "redisSecretCache_GetSecret c deviceID =
     (case RedisClient_Get (redis_client c) (secretKeyPrefix @ deviceID) of
        (rep, cl) \<Rightarrow>
          ((case reply_ToString rep of
              Inl _ \<Rightarrow> None
            | Inr raw \<Rightarrow> decodeSecret raw), c\<lparr>redis_client := cl\<rparr>))"

definition Millisecond :: duration where
  "Millisecond = 1000000"

definition redisSecretCache_SetSecret ::
  "'r redisSecretCache \<Rightarrow> string \<Rightarrow> Secret \<Rightarrow> 'r redisSecretCache" where
  "redisSecretCache_SetSecret c deviceID s =
     c\<lparr>redis_client := snd (client_Do (redis_client c)
        (CmdEval setNewerSecretScript (secretKeyPrefix @ deviceID)
           [encodeSecret s, strconv_Itoa (Generation s), strconv_Itoa (redis_ttl c div Millisecond)]))\<rparr>"

definition redisSecretCache_DeleteSecret ::
  "'r redisSecretCache \<Rightarrow> string \<Rightarrow> 'r redisSecretCache" where
  "redisSecretCache_DeleteSecret c deviceID =
     c\<lparr>redis_client := snd (RedisClient_Set (redis_client c) (secretKeyPrefix @ deviceID) ''''
        (redis_ttl c + deletedSecretExtraTTL))\<rparr>"

definition redis_SecretCache :: "('r redisSecretCache) SecretCache" where
  "redis_SecretCache = \<lparr>GetSecret = redisSecretCache_GetSecret,
     SetSecret = redisSecretCache_SetSecret, DeleteSecret = redisSecretCache_DeleteSecret\<rparr>"

text \<open>\<^verbatim>\<open>NewSecretCache\<close>: without a Redis client the cache is in memory.\<close>

definition NewSecretCache ::
  "(int \<Rightarrow> (Secret \<Rightarrow> duration) \<Rightarrow> go_error + ('m, Secret) otter_cache)
    \<Rightarrow> 'r RedisClient option \<Rightarrow> go_error + ('m memorySecretCache + 'r redisSecretCache)" where
  "NewSecretCache otter_New client =
     (case client of
        None \<Rightarrow> (case newMemorySecretCache otter_New secretMemoryMaxSize secretTTL of
                   Inl err \<Rightarrow> Inl err | Inr m \<Rightarrow> Inr (Inl m))
      | Some cl \<Rightarrow> Inr (Inr (newRedisSecretCache cl)))"

section \<open>The contract\<close>

text \<open>The secrets the server stores: a value, and a generation that fits the column.\<close>

definition good_secret :: "Secret \<Rightarrow> bool" where
  "good_secret s \<longleftrightarrow> Value s \<noteq> '''' \<and> 0 \<le> Generation s \<and> Generation s \<le> 2147483647"

text \<open>
  \<open>live\<close> names the secrets the cache may answer with. Any implementation may forget, and a
  write may be lost, but a lookup returns only what was stored for that device.
\<close>

locale secret_cache =
  fixes SC :: "'c SecretCache"
    and live :: "'c \<Rightarrow> string \<rightharpoonup> Secret"
    and cache_invar :: "'c \<Rightarrow> bool"
  assumes get_sound: "cache_invar c \<Longrightarrow> GetSecret SC c k = (Some s, c') \<Longrightarrow> live c k = Some s"
    and get_live: "cache_invar c \<Longrightarrow> GetSecret SC c k = (r, c') \<Longrightarrow> live c' \<subseteq>\<^sub>m live c \<and> cache_invar c'"
    and set_invar: "cache_invar c \<Longrightarrow> good_secret s \<Longrightarrow> cache_invar (SetSecret SC c k s)"
    and set_other: "cache_invar c \<Longrightarrow> good_secret s \<Longrightarrow> live (SetSecret SC c k s) j = Some t \<Longrightarrow>
      j = k \<and> t = s \<or> live c j = Some t"
    and del_live: "cache_invar c \<Longrightarrow> live (DeleteSecret SC c k) \<subseteq>\<^sub>m live c \<and> cache_invar (DeleteSecret SC c k)"

text \<open>
  When commands take effect, an older generation does not survive a write, a deleted device
  has no secret, and a miss means there is none.
\<close>

locale reliable_secret_cache = secret_cache +
  assumes set_newest: "cache_invar c \<Longrightarrow> good_secret s \<Longrightarrow> live (SetSecret SC c k s) k = Some t \<Longrightarrow>
      Generation s \<le> Generation t"
    and del_gone: "cache_invar c \<Longrightarrow> live (DeleteSecret SC c k) k = None"
    and get_miss: "cache_invar c \<Longrightarrow> GetSecret SC c k = (None, c') \<Longrightarrow> live c' k = None"

section \<open>The in-memory cache keeps the contract\<close>

definition live_secret :: "Secret option \<Rightarrow> Secret option" where
  "live_secret r = (case r of None \<Rightarrow> None | Some s \<Rightarrow> if Secret_deleted s then None else Some s)"

definition memory_live :: "'m memorySecretCache \<Rightarrow> string \<rightharpoonup> Secret" where
  "memory_live m k = live_secret (cache_contents (secrets m) k)"

definition memory_invar :: "'m memorySecretCache \<Rightarrow> bool" where
  "memory_invar m \<longleftrightarrow> cache_ok zero_Secret (secrets m)"

lemma live_secret_Some [simp]: "live_secret r = Some s \<longleftrightarrow> r = Some s \<and> \<not> Secret_deleted s"
  by (auto simp: live_secret_def split: option.splits)

lemma memory_live_mono:
  "cache_contents (secrets c') \<subseteq>\<^sub>m cache_contents (secrets c) \<Longrightarrow> memory_live c' \<subseteq>\<^sub>m memory_live c"
  by (rule map_leI) (auto simp: memory_live_def dest: map_le_lookup)

lemma memory_set_law:
  assumes "memory_invar c" and "c' = memorySecretCache_SetSecret c k s"
  shows "memory_invar c' \<and> (\<exists>base old found. base \<subseteq>\<^sub>m cache_contents (secrets c)
    \<and> (if found then base k = Some old else base k = None \<and> old = zero_Secret)
    \<and> cache_contents (secrets c') \<subseteq>\<^sub>m compute_effect base k (set_newer s old found))"
proof -
  obtain old found x where x: "cache_Compute (secrets c) k (set_newer s) = ((old, found), x)"
    by (metis surj_pair)
  have c': "secrets c' = x" by (simp add: assms(2) memorySecretCache_SetSecret_def x)
  show ?thesis
    using cache_Compute_law [OF assms(1) [unfolded memory_invar_def] x]
    unfolding memory_invar_def c' by blast
qed

interpretation mem: reliable_secret_cache memory_SecretCache memory_live memory_invar
proof (unfold_locales, goal_cases)
  case (1 c k s c')
  then show ?case
    using cache_GetIfPresent_law [of zero_Secret "secrets c" k]
    by (auto simp: memory_SecretCache_def memorySecretCache_GetSecret_def memory_invar_def
        memory_live_def split: prod.splits option.splits if_splits) (metis option.inject)
next
  case (2 c k r c')
  then show ?case
    using cache_GetIfPresent_law [of zero_Secret "secrets c" k]
    by (auto simp: memory_SecretCache_def memorySecretCache_GetSecret_def memory_invar_def
        intro!: memory_live_mono split: prod.splits)
next
  case (3 c s k)
  then show ?case using memory_set_law by (auto simp: memory_SecretCache_def)
next
  case (4 c s k j t)
  then obtain base old found where base: "base \<subseteq>\<^sub>m cache_contents (secrets c)"
    and eff: "cache_contents (secrets (memorySecretCache_SetSecret c k s))
      \<subseteq>\<^sub>m compute_effect base k (set_newer s old found)"
    using memory_set_law by blast
  from 4 have "cache_contents (secrets (memorySecretCache_SetSecret c k s)) j = Some t"
    and t: "\<not> Secret_deleted t"
    by (auto simp: memory_SecretCache_def memory_live_def)
  with map_le_lookup [OF eff] have "compute_effect base k (set_newer s old found) j = Some t" by blast
  with t show ?case
    using map_le_lookup [OF base, of j t]
    by (auto simp: compute_effect_def set_newer_def memory_live_def split: if_splits)
next
  case (5 c k)
  then have law: "cache_contents (cache_Set (secrets c) k zero_Secret) \<subseteq>\<^sub>m (cache_contents (secrets c))(k \<mapsto> zero_Secret)"
    and ok: "cache_ok zero_Secret (cache_Set (secrets c) k zero_Secret)"
    using cache_Set_law [of zero_Secret "secrets c" k zero_Secret] by (auto simp: memory_invar_def)
  have "memory_live (memorySecretCache_DeleteSecret c k) \<subseteq>\<^sub>m memory_live c"
    by (rule map_leI) (auto simp: memory_live_def memorySecretCache_DeleteSecret_def
        dest!: map_le_updD [OF law])
  with ok show ?case
    by (simp add: memory_SecretCache_def memorySecretCache_DeleteSecret_def memory_invar_def)
next
  case (6 c s k t)
  then obtain base old found where base: "if found then base k = Some old else base k = None \<and> old = zero_Secret"
    and eff: "cache_contents (secrets (memorySecretCache_SetSecret c k s))
      \<subseteq>\<^sub>m compute_effect base k (set_newer s old found)"
    using memory_set_law by blast
  from 6 have "cache_contents (secrets (memorySecretCache_SetSecret c k s)) k = Some t"
    and t: "\<not> Secret_deleted t"
    by (auto simp: memory_SecretCache_def memory_live_def)
  with map_le_lookup [OF eff] have "compute_effect base k (set_newer s old found) k = Some t" by blast
  with t base show ?case
    by (auto simp: compute_effect_def set_newer_def split: if_splits)
next
  case (7 c k)
  then have "cache_contents (cache_Set (secrets c) k zero_Secret) \<subseteq>\<^sub>m (cache_contents (secrets c))(k \<mapsto> zero_Secret)"
    using cache_Set_law [of zero_Secret "secrets c" k zero_Secret] by (auto simp: memory_invar_def)
  then show ?case
    using map_le_updD [of _ _ k zero_Secret k]
    by (fastforce simp: memory_SecretCache_def memorySecretCache_DeleteSecret_def memory_live_def
        live_secret_def split: option.splits)
next
  case (8 c k c')
  then obtain r x where get: "cache_GetIfPresent (secrets c) k = (r, x)" and "c' = c\<lparr>secrets := x\<rparr>"
    and miss: "live_secret r = None"
    by (auto simp: memory_SecretCache_def memorySecretCache_GetSecret_def live_secret_def split: prod.splits)
  with cache_GetIfPresent_law [OF 8(1) [unfolded memory_invar_def] get] show ?case
    by (cases "cache_contents x k") (auto simp: memory_live_def live_secret_def)
qed

section \<open>The encoding in Redis\<close>

lemma decode_encode:
  assumes "Value s \<noteq> ''''" and "MinInt64 \<le> Generation s" and "Generation s \<le> MaxInt64"
  shows "decodeSecret (encodeSecret s) = Some s"
proof -
  have "CHR '':'' \<notin> set (strconv_Itoa (Generation s))"
    using nat_digits_no_colon by (auto simp: strconv_Itoa_def)
  from strings_Cut_append [OF this]
  have "strings_Cut (encodeSecret s) '':'' = (strconv_Itoa (Generation s), Value s, True)"
    by (simp add: encodeSecret_def)
  with assms show ?thesis by (simp add: decodeSecret_def Atoi_Itoa)
qed

lemma good_secret_range:
  "good_secret s \<Longrightarrow> Value s \<noteq> '''' \<and> MinInt64 \<le> Generation s \<and> Generation s \<le> MaxInt64"
  by (simp add: good_secret_def int64_bounds)

lemma decode_encode_good: "good_secret s \<Longrightarrow> decodeSecret (encodeSecret s) = Some s"
  using good_secret_range by (simp add: decode_encode)

lemma encode_nonempty [simp]: "encodeSecret s \<noteq> ''''"
  by (simp add: encodeSecret_def)

lemma decode_empty [simp]: "decodeSecret '''' = None"
  by (simp add: decodeSecret_def)

lemma lua_generation_encode:
  assumes "0 \<le> Generation s"
  shows "lua_generation (encodeSecret s) = Some (Generation s)"
proof -
  let ?ds = "nat_digits (nat (Generation s))"
  have enc: "encodeSecret s = ?ds @ CHR '':'' # Value s"
    using assms by (simp add: encodeSecret_def strconv_Itoa_def)
  have colon: "\<not> is_digit (CHR '':'')"
    using is_digit_not_sign by blast
  have "takeWhile is_digit (encodeSecret s) = ?ds" "dropWhile is_digit (encodeSecret s) = CHR '':'' # Value s"
    using nat_digits_digits [of "nat (Generation s)"] colon
    by (simp_all add: enc list_all_iff takeWhile_append2 dropWhile_append2)
  then show ?thesis
    using assms nat_digits_nonempty by (simp add: lua_generation_def)
qed

lemma lua_tonumber_Itoa: "good_secret s \<Longrightarrow> lua_tonumber (strconv_Itoa (Generation s)) = Some (Generation s)"
  using good_secret_range [of s] by (simp add: lua_tonumber_def Atoi_Itoa)

text \<open>How an entry of the in-memory cache is spelled in Redis.\<close>

definition redis_entry :: "Secret \<Rightarrow> string" where
  "redis_entry s = (if Secret_deleted s then '''' else encodeSecret s)"

definition stored_secret :: "Secret \<Rightarrow> bool" where
  "stored_secret s \<longleftrightarrow> Secret_deleted s \<or> good_secret s"

lemma script_on_entry:
  assumes "good_secret s"
  shows "setNewerSecretScript None [encodeSecret s, strconv_Itoa (Generation s), px] = LuaSetPx (encodeSecret s) px 1"
    and "stored_secret cur \<Longrightarrow>
      setNewerSecretScript (Some (redis_entry cur)) [encodeSecret s, strconv_Itoa (Generation s), px]
        = (if Secret_deleted cur \<or> Generation s \<le> Generation cur then LuaReturn 0
           else LuaSetPx (encodeSecret s) px 1)"
  using assms
  by (auto simp: setNewerSecretScript_def redis_entry_def stored_secret_def good_secret_def
      lua_generation_encode lua_tonumber_Itoa Let_def)

section \<open>The Redis cache keeps the contract\<close>

definition entry_live :: "(string \<rightharpoonup> string) \<Rightarrow> string \<rightharpoonup> Secret" where
  "entry_live m k = Option.bind (m (secretKeyPrefix @ k)) decodeSecret"

definition entries_ok :: "(string \<rightharpoonup> string) \<Rightarrow> bool" where
  "entries_ok m \<longleftrightarrow> (\<forall>k raw. m (secretKeyPrefix @ k) = Some raw \<longrightarrow> (\<exists>s. stored_secret s \<and> raw = redis_entry s))"

lemma entries_ok_mono: "entries_ok m \<Longrightarrow> m' \<subseteq>\<^sub>m m \<Longrightarrow> entries_ok m'"
  unfolding entries_ok_def by (blast dest: map_le_lookup)

lemma entry_live_mono: "m' \<subseteq>\<^sub>m m \<Longrightarrow> entry_live m' \<subseteq>\<^sub>m entry_live m"
  by (rule map_leI) (auto simp: entry_live_def bind_eq_Some_conv dest: map_le_lookup)

abbreviation set_command :: "string \<Rightarrow> Secret \<Rightarrow> string \<Rightarrow> redis_cmd" where
  "set_command k s px \<equiv> CmdEval setNewerSecretScript (secretKeyPrefix @ k)
     [encodeSecret s, strconv_Itoa (Generation s), px]"

text \<open>The script leaves the present entry, or replaces it by the new secret when that is newer.\<close>

lemma set_command_effect:
  assumes "entries_ok m" and "good_secret s"
  shows "(redis_effect (set_command k s px) m = m
       \<and> (\<exists>cur. m (secretKeyPrefix @ k) = Some (redis_entry cur) \<and> stored_secret cur
            \<and> (Secret_deleted cur \<or> Generation s \<le> Generation cur)))
     \<or> redis_effect (set_command k s px) m = m(secretKeyPrefix @ k \<mapsto> encodeSecret s)"
proof (cases "m (secretKeyPrefix @ k)")
  case None
  then show ?thesis by (simp add: script_on_entry(1) [OF assms(2)])
next
  case (Some raw)
  with assms(1) obtain cur where "stored_secret cur" "raw = redis_entry cur"
    by (auto simp: entries_ok_def)
  with Some show ?thesis by (auto simp: script_on_entry(2) [OF assms(2)])
qed

lemma decode_entry:
  "stored_secret s \<Longrightarrow> decodeSecret (redis_entry s) = (if Secret_deleted s then None else Some s)"
  by (auto simp: redis_entry_def stored_secret_def decode_encode_good)

lemma good_entry: "good_secret s \<Longrightarrow> stored_secret s \<and> encodeSecret s = redis_entry s"
  by (auto simp: stored_secret_def redis_entry_def good_secret_def Secret_deleted_def)

lemma set_command_entries:
  assumes "entries_ok m" and "good_secret s" and "m' \<subseteq>\<^sub>m redis_effect (set_command k s px) m"
  shows "entries_ok m'"
    and "entry_live m' j = Some t \<Longrightarrow> j = k \<and> t = s \<or> entry_live m j = Some t"
    and "entry_live m' k = Some t \<Longrightarrow> Generation s \<le> Generation t"
proof -
  note eff = set_command_effect [OF assms(1,2), of k px]
  have entry: "entries_ok (redis_effect (set_command k s px) m)"
    using eff
  proof
    assume "redis_effect (set_command k s px) m = m(secretKeyPrefix @ k \<mapsto> encodeSecret s)"
    then show ?thesis
      using assms(1) good_entry [OF assms(2)] unfolding entries_ok_def
      by (metis (no_types, lifting) fun_upd_apply option.inject)
  qed (use assms(1) in simp)
  then show "entries_ok m'" using assms(3) by (rule entries_ok_mono)
  have live: "entry_live m' j = Some t \<Longrightarrow> entry_live (redis_effect (set_command k s px) m) j = Some t" for j t
    using entry_live_mono [OF assms(3)] by (rule map_le_lookup)
  show "j = k \<and> t = s \<or> entry_live m j = Some t" if "entry_live m' j = Some t"
    using eff live [OF that] decode_encode_good [OF assms(2)]
    by (auto simp: entry_live_def split: if_splits)
  show "Generation s \<le> Generation t" if "entry_live m' k = Some t"
    using eff live [OF that] decode_encode_good [OF assms(2)]
    by (auto simp: entry_live_def decode_entry split: if_splits)
qed

lemma delete_command_entries:
  assumes "entries_ok m" and "m' \<subseteq>\<^sub>m m(secretKeyPrefix @ k \<mapsto> '''')"
  shows "entries_ok m'" and "entry_live m' \<subseteq>\<^sub>m entry_live m" and "entry_live m' k = None"
proof -
  have tomb: "stored_secret zero_Secret" "redis_entry zero_Secret = ''''"
    by (simp_all add: stored_secret_def redis_entry_def)
  have "entries_ok (m(secretKeyPrefix @ k \<mapsto> ''''))"
    using assms(1) tomb unfolding entries_ok_def by (metis fun_upd_apply option.inject)
  then show "entries_ok m'" using assms(2) by (rule entries_ok_mono)
  have live: "entry_live m' \<subseteq>\<^sub>m entry_live (m(secretKeyPrefix @ k \<mapsto> ''''))"
    by (rule entry_live_mono [OF assms(2)])
  then show "entry_live m' k = None"
    by (rule map_le_emptied) (simp add: entry_live_def)
  have "entry_live (m(secretKeyPrefix @ k \<mapsto> '''')) \<subseteq>\<^sub>m entry_live m"
    by (rule map_leI) (auto simp: entry_live_def split: if_splits)
  with live show "entry_live m' \<subseteq>\<^sub>m entry_live m" by (rule map_le_trans)
qed

definition redis_live :: "'r redisSecretCache \<Rightarrow> string \<rightharpoonup> Secret" where
  "redis_live c = entry_live (client_keys (redis_client c))"

definition redis_invar :: "'r redisSecretCache \<Rightarrow> bool" where
  "redis_invar c \<longleftrightarrow> redis_laws (redis_client c) \<and> entries_ok (client_keys (redis_client c))"

definition redis_invar_up :: "'r redisSecretCache \<Rightarrow> bool" where
  "redis_invar_up c \<longleftrightarrow> redis_reliable (redis_client c) \<and> entries_ok (client_keys (redis_client c))"

text \<open>A command that failed either did nothing or did its work, so both cases keep the invariant.\<close>

lemma command_ran_cases:
  assumes "command_ran cmd rep m m'"
  obtains (not_run) "m' \<subseteq>\<^sub>m m" | (run) base where "base \<subseteq>\<^sub>m m" and "m' \<subseteq>\<^sub>m redis_effect cmd base"
  using assms unfolding command_ran_def by (blast intro: map_le_trans)

lemma redis_get_law:
  assumes "redis_laws (redis_client c)" and "redisSecretCache_GetSecret c k = (r, c')"
  shows "client_keys (redis_client c') \<subseteq>\<^sub>m client_keys (redis_client c)
    \<and> redis_laws (redis_client c') \<and> (r = None \<or> r = redis_live c k)"
proof -
  obtain rep cl where get: "client_Do (redis_client c) (CmdGet (secretKeyPrefix @ k)) = (rep, cl)"
    by fastforce
  from client_Do_law [OF assms(1) get]
  have laws: "redis_laws cl" and ran: "command_ran (CmdGet (secretKeyPrefix @ k)) rep (client_keys (redis_client c)) (client_keys cl)"
    by auto
  from ran have keys: "client_keys cl \<subseteq>\<^sub>m client_keys (redis_client c)"
    by (rule command_ran_cases) (auto intro: map_le_trans)
  from assms(2) get have r: "r = (case reply_ToString rep of Inl _ \<Rightarrow> None | Inr raw \<Rightarrow> decodeSecret raw)"
    and c': "c' = c\<lparr>redis_client := cl\<rparr>"
    by (auto simp: redisSecretCache_GetSecret_def RedisClient_Get_def)
  have "r = None \<or> r = redis_live c k"
  proof (cases rep)
    case (ReplyString raw)
    with ran obtain base where "base \<subseteq>\<^sub>m client_keys (redis_client c)" "base (secretKeyPrefix @ k) = Some raw"
      by (auto simp: command_ran_def answer_string_def split: option.splits)
    with map_le_lookup have "client_keys (redis_client c) (secretKeyPrefix @ k) = Some raw" by fast
    with ReplyString r show ?thesis by (simp add: redis_live_def entry_live_def)
  qed (simp_all add: r)
  with laws keys c' show ?thesis by simp
qed

text \<open>With a service that answers, a miss means that there is no secret.\<close>

lemma redis_miss:
  assumes "redis_reliable (redis_client c)" and "redisSecretCache_GetSecret c k = (None, c')"
  shows "redis_live c' k = None"
proof -
  obtain rep cl where get: "client_Do (redis_client c) (CmdGet (secretKeyPrefix @ k)) = (rep, cl)"
    by fastforce
  from client_Do_reliable [OF assms(1) get] obtain base
    where rep: "rep = answer_string (base (secretKeyPrefix @ k))" and keys: "client_keys cl \<subseteq>\<^sub>m base"
    by auto
  from assms(2) get rep have c': "c' = c\<lparr>redis_client := cl\<rparr>" and "entry_live base k = None"
    by (auto simp: redisSecretCache_GetSecret_def RedisClient_Get_def answer_string_def entry_live_def
        split: option.splits)
  with map_le_emptied [OF entry_live_mono [OF keys]] show ?thesis by (simp add: redis_live_def)
qed

lemma redis_set_law:
  assumes "redis_laws (redis_client c)" and "entries_ok (client_keys (redis_client c))" and "good_secret s"
    and "c' = redisSecretCache_SetSecret c k s"
  shows "redis_laws (redis_client c')" and "entries_ok (client_keys (redis_client c'))"
    and "redis_live c' j = Some t \<Longrightarrow> j = k \<and> t = s \<or> redis_live c j = Some t"
    and "redis_reliable (redis_client c) \<Longrightarrow> redis_reliable (redis_client c')
      \<and> (redis_live c' k = Some t \<longrightarrow> Generation s \<le> Generation t)"
proof -
  let ?px = "strconv_Itoa (redis_ttl c div Millisecond)" and ?m = "client_keys (redis_client c)"
  obtain rep cl where run: "client_Do (redis_client c) (set_command k s ?px) = (rep, cl)"
    by fastforce
  then have cl: "redis_client c' = cl" by (simp add: assms(4) redisSecretCache_SetSecret_def)
  from client_Do_law [OF assms(1) run] cl show "redis_laws (redis_client c')" by simp
  from client_Do_law [OF assms(1) run]
  have ran: "command_ran (set_command k s ?px) rep ?m (client_keys cl)" by simp
  show "entries_ok (client_keys (redis_client c'))"
    using ran
    by (rule command_ran_cases)
      (auto simp: cl simp del: redis_effect.simps intro: entries_ok_mono [OF assms(2)]
        set_command_entries(1) [OF entries_ok_mono [OF assms(2)] assms(3)])
  show "j = k \<and> t = s \<or> redis_live c j = Some t" if "redis_live c' j = Some t"
    using ran
  proof (rule command_ran_cases)
    assume "client_keys cl \<subseteq>\<^sub>m ?m"
    from map_le_lookup [OF entry_live_mono [OF this]] that show ?thesis by (simp add: redis_live_def cl)
  next
    fix base assume base: "base \<subseteq>\<^sub>m ?m" "client_keys cl \<subseteq>\<^sub>m redis_effect (set_command k s ?px) base"
    from set_command_entries(2) [OF entries_ok_mono [OF assms(2) base(1)] assms(3) base(2)] that
    have "j = k \<and> t = s \<or> entry_live base j = Some t" by (simp add: redis_live_def cl)
    with map_le_lookup [OF entry_live_mono [OF base(1)]] show ?thesis by (auto simp: redis_live_def)
  qed
  show "redis_reliable (redis_client c') \<and> (redis_live c' k = Some t \<longrightarrow> Generation s \<le> Generation t)"
    if "redis_reliable (redis_client c)"
  proof -
    from client_Do_reliable [OF that run] obtain base where "redis_reliable cl" "base \<subseteq>\<^sub>m ?m"
      and "client_keys cl \<subseteq>\<^sub>m redis_effect (set_command k s ?px) base"
      by blast
    with set_command_entries(3) [OF entries_ok_mono [OF assms(2)] assms(3)] show ?thesis
      by (auto simp: redis_live_def cl simp del: redis_effect.simps)
  qed
qed

lemma redis_delete_law:
  assumes "redis_laws (redis_client c)" and "entries_ok (client_keys (redis_client c))"
    and "c' = redisSecretCache_DeleteSecret c k"
  shows "redis_laws (redis_client c')" and "entries_ok (client_keys (redis_client c'))"
    and "redis_live c' \<subseteq>\<^sub>m redis_live c"
    and "redis_reliable (redis_client c) \<Longrightarrow> redis_reliable (redis_client c') \<and> redis_live c' k = None"
proof -
  let ?cmd = "CmdSetPx (secretKeyPrefix @ k) '''' (redis_ttl c + deletedSecretExtraTTL)"
    and ?m = "client_keys (redis_client c)"
  obtain rep cl where run: "client_Do (redis_client c) ?cmd = (rep, cl)"
    by fastforce
  then have cl: "redis_client c' = cl"
    by (simp add: assms(3) redisSecretCache_DeleteSecret_def RedisClient_Set_def)
  from client_Do_law [OF assms(1) run] cl show "redis_laws (redis_client c')" by simp
  from client_Do_law [OF assms(1) run] have ran: "command_ran ?cmd rep ?m (client_keys cl)" by simp
  have tomb: "entries_ok (client_keys cl) \<and> entry_live (client_keys cl) \<subseteq>\<^sub>m entry_live ?m \<and> entry_live (client_keys cl) k = None"
    if "base \<subseteq>\<^sub>m ?m" "client_keys cl \<subseteq>\<^sub>m redis_effect ?cmd base" for base
    using delete_command_entries [OF entries_ok_mono [OF assms(2) that(1)], of "client_keys cl" k] that
      map_le_trans [OF _ entry_live_mono [OF that(1)]] by simp
  show "entries_ok (client_keys (redis_client c'))"
    using ran by (rule command_ran_cases) (use tomb entries_ok_mono [OF assms(2)] cl in auto)
  show "redis_live c' \<subseteq>\<^sub>m redis_live c"
    using ran by (rule command_ran_cases) (use tomb entry_live_mono in \<open>auto simp: redis_live_def cl\<close>)
  show "redis_reliable (redis_client c') \<and> redis_live c' k = None" if "redis_reliable (redis_client c)"
    using client_Do_reliable [OF that run] tomb by (auto simp: redis_live_def cl)
qed

interpretation red: secret_cache redis_SecretCache redis_live redis_invar
proof (unfold_locales, goal_cases)
  case (1 c k s c')
  then show ?case using redis_get_law [of c k "Some s" c'] by (auto simp: redis_SecretCache_def redis_invar_def)
next
  case (2 c k r c')
  then show ?case
    using redis_get_law [of c k r c']
    by (auto simp: redis_SecretCache_def redis_invar_def redis_live_def intro: entry_live_mono entries_ok_mono)
next
  case (3 c s k)
  then show ?case using redis_set_law(1,2) [OF _ _ _ refl] by (auto simp: redis_SecretCache_def redis_invar_def)
next
  case (4 c s k j t)
  then show ?case using redis_set_law(3) [OF _ _ _ refl, of c s k j t] by (auto simp: redis_SecretCache_def redis_invar_def)
next
  case (5 c k)
  then show ?case using redis_delete_law(1-3) [OF _ _ refl] by (auto simp: redis_SecretCache_def redis_invar_def)
qed

interpretation red_up: reliable_secret_cache redis_SecretCache redis_live redis_invar_up
proof (unfold_locales, goal_cases)
  case (1 c k s c')
  then show ?case
    using red.get_sound [of c k s c'] redis_reliable_laws [of "redis_client c"]
    by (auto simp: redis_invar_def redis_invar_up_def)
next
  case (2 c k r c')
  moreover from 2 have "redis_reliable (redis_client c')"
    by (auto simp: redis_SecretCache_def redis_invar_up_def redisSecretCache_GetSecret_def
        RedisClient_Get_def dest: client_Do_reliable split: prod.splits)
  ultimately show ?case
    using red.get_live [of c k r c'] redis_reliable_laws [of "redis_client c"]
    by (auto simp: redis_invar_def redis_invar_up_def)
next
  case (3 c s k)
  then show ?case
    using redis_set_law(2,4) [of c s _ k] redis_reliable_laws [of "redis_client c"]
    by (auto simp: redis_SecretCache_def redis_invar_up_def)
next
  case (4 c s k j t)
  then show ?case
    using red.set_other [of c s k j t] redis_reliable_laws [of "redis_client c"]
    by (auto simp: redis_invar_def redis_invar_up_def)
next
  case (5 c k)
  then show ?case
    using redis_delete_law(2-4) [of c _ k] redis_reliable_laws [of "redis_client c"]
    by (auto simp: redis_SecretCache_def redis_invar_up_def)
next
  case (6 c s k t)
  then show ?case
    using redis_set_law(4) [of c s _ k t] redis_reliable_laws [of "redis_client c"]
    by (auto simp: redis_SecretCache_def redis_invar_up_def)
next
  case (7 c k)
  then show ?case
    using redis_delete_law(4) [of c _ k] redis_reliable_laws [of "redis_client c"]
    by (auto simp: redis_SecretCache_def redis_invar_up_def)
next
  case (8 c k c')
  then show ?case using redis_miss [of c k c'] by (simp add: redis_SecretCache_def redis_invar_up_def)
qed

section \<open>The interface of the two kinds of cache\<close>

text \<open>A value of an interface type calls the methods of the implementation it holds.\<close>

definition any_SecretCache :: "('m memorySecretCache + 'r redisSecretCache) SecretCache" where
  "any_SecretCache =
     \<lparr>GetSecret = (\<lambda>c k. case c of
        Inl m \<Rightarrow> (case memorySecretCache_GetSecret m k of (x, m') \<Rightarrow> (x, Inl m'))
      | Inr r \<Rightarrow> (case redisSecretCache_GetSecret r k of (x, r') \<Rightarrow> (x, Inr r'))),
      SetSecret = (\<lambda>c k s. case c of Inl m \<Rightarrow> Inl (memorySecretCache_SetSecret m k s) | Inr r \<Rightarrow> Inr (redisSecretCache_SetSecret r k s)),
      DeleteSecret = (\<lambda>c k. case c of Inl m \<Rightarrow> Inl (memorySecretCache_DeleteSecret m k) | Inr r \<Rightarrow> Inr (redisSecretCache_DeleteSecret r k))\<rparr>"

text \<open>
  The cache behind the interface keeps the contract of the implementation it holds, so what is proved of the sessions over any reliable
  cache holds of the server, whichever of the two caches it was started with.
\<close>

interpretation any: reliable_secret_cache any_SecretCache "case_sum memory_live redis_live" "case_sum memory_invar redis_invar_up"
proof (unfold_locales, goal_cases)
  case (1 c k s c')
  then show ?case
    using mem.get_sound [of _ k s] red_up.get_sound [of _ k s]
    by (cases c) (auto simp: any_SecretCache_def memory_SecretCache_def redis_SecretCache_def split: prod.splits)
next
  case (2 c k r c')
  then show ?case
    using mem.get_live [of _ k r] red_up.get_live [of _ k r]
    by (cases c) (fastforce simp: any_SecretCache_def memory_SecretCache_def redis_SecretCache_def split: prod.splits)+
next
  case (3 c s k)
  then show ?case
    using mem.set_invar [of _ s k] red_up.set_invar [of _ s k]
    by (cases c) (auto simp: any_SecretCache_def memory_SecretCache_def redis_SecretCache_def)
next
  case (4 c s k j t)
  then show ?case
    using mem.set_other [of _ s k j t] red_up.set_other [of _ s k j t]
    by (cases c) (auto simp: any_SecretCache_def memory_SecretCache_def redis_SecretCache_def)
next
  case (5 c k)
  then show ?case
    using mem.del_live [of _ k] red_up.del_live [of _ k]
    by (cases c) (auto simp: any_SecretCache_def memory_SecretCache_def redis_SecretCache_def)
next
  case (6 c s k t)
  then show ?case
    using mem.set_newest [of _ s k t] red_up.set_newest [of _ s k t]
    by (cases c) (auto simp: any_SecretCache_def memory_SecretCache_def redis_SecretCache_def)
next
  case (7 c k)
  then show ?case
    using mem.del_gone [of _ k] red_up.del_gone [of _ k]
    by (cases c) (auto simp: any_SecretCache_def memory_SecretCache_def redis_SecretCache_def)
next
  case (8 c k c')
  then show ?case
    using mem.get_miss [of _ k] red_up.get_miss [of _ k]
    by (cases c) (auto simp: any_SecretCache_def memory_SecretCache_def redis_SecretCache_def split: prod.splits)
qed

section \<open>Properties\<close>

text \<open>
  Reading back a secret stored in Redis gives the secret that was stored: for every non-empty
  value, including values that contain the separator, and every 64-bit generation,
  \<^verbatim>\<open>decodeSecret\<close> inverts \<^verbatim>\<open>encodeSecret\<close>; and the tombstone, the empty text, decodes to
  nothing.
\<close>

theorem Secret_encoding_roundtrip:
  assumes "Value s \<noteq> ''''" and "MinInt64 \<le> Generation s" and "Generation s \<le> MaxInt64"
  shows "decodeSecret (encodeSecret s) = Some s \<and> decodeSecret '''' = None"
  using decode_encode [OF assms] by simp

theorem Secret_encoding_roundtrip_witness:
  "decodeSecret (encodeSecret \<lparr>Value = ''a:b'', Generation = -12\<rparr>) = Some \<lparr>Value = ''a:b'', Generation = -12\<rparr>"
  using Secret_encoding_roundtrip [of "\<lparr>Value = ''a:b'', Generation = -12\<rparr>"]
  by (simp add: int64_bounds)

text \<open>
  C40. The two implementations of \<^verbatim>\<open>SetSecret\<close> decide alike: running the Lua script on the Redis
  spelling of the cached entries has the same effect as running the callback of the in-memory
  cache on the entries themselves. Both leave a tombstone and a generation at least as new in
  place, and otherwise store the new secret.
\<close>

theorem setNewerSecretScript_agrees_with_memory:
  assumes "good_secret s" and "\<And>cur. m k = Some cur \<Longrightarrow> stored_secret cur"
  shows "redis_effect (CmdEval setNewerSecretScript k
           [encodeSecret s, strconv_Itoa (Generation s), px]) (\<lambda>j. map_option redis_entry (m j))
     = (\<lambda>j. map_option redis_entry
         (compute_effect m k
            (case m k of None \<Rightarrow> set_newer s zero_Secret False | Some cur \<Rightarrow> set_newer s cur True) j))"
proof (cases "m k")
  note entry = good_entry [OF assms(1), THEN conjunct2, symmetric]
  case None
  then show ?thesis
    by (auto simp: script_on_entry(1) [OF assms(1)] set_newer_def compute_effect_def fun_eq_iff entry)
next
  note entry = good_entry [OF assms(1), THEN conjunct2, symmetric]
  case (Some cur)
  from script_on_entry(2) [OF assms(1) assms(2) [OF Some]] show ?thesis
    by (auto simp: Some set_newer_def compute_effect_def fun_eq_iff entry)
qed

theorem setNewerSecretScript_agrees_with_memory_witness:
  "redis_effect (CmdEval setNewerSecretScript ''k'' [encodeSecret \<lparr>Value = ''s'', Generation = 3\<rparr>, ''3'', ''5''])
     (\<lambda>j. map_option redis_entry ([''k'' \<mapsto> \<lparr>Value = ''s'', Generation = 2\<rparr>] j)) ''k'' = Some ''3:s''"
proof -
  let ?s = "\<lparr>Value = ''s'', Generation = 3\<rparr>" and ?m = "[''k'' \<mapsto> \<lparr>Value = ''s'', Generation = 2\<rparr>]"
  have itoa: "strconv_Itoa 3 = ''3''" by code_simp
  have "good_secret ?s" by (simp add: good_secret_def)
  moreover have "stored_secret cur" if "?m ''k'' = Some cur" for cur
    using that by (auto simp: stored_secret_def good_secret_def)
  ultimately show ?thesis
    using setNewerSecretScript_agrees_with_memory [of ?s ?m "''k''" "''5''"]
    by (simp add: itoa set_newer_def compute_effect_def redis_entry_def encodeSecret_def Secret_deleted_def)
qed

end
