(* ===== verification/Jwt.thy ===== *)
theory Jwt
  imports Go_Strings
begin

text \<open>
  Module \<^verbatim>\<open>jwt\<close> (\<^verbatim>\<open>jwt/jwt.go\<close>, \<^verbatim>\<open>jwt/options.go\<close>): access and refresh tokens signed with one
  secret per device. The library \<^verbatim>\<open>golang-jwt\<close> is the parameter \<open>jwt_lib\<close>, and the interface
  \<^verbatim>\<open>Database\<close> the module is written against is the record \<open>jwt_Database\<close>.

  \<open>jwt_laws\<close> states the documented behaviour of the library that the module relies on: what a
  signed token parses to, that a successful parse means the signature verifies under
  the key the callback gave and the registered claims are valid, and the reverse. Nothing is
  assumed about who can produce a signature: theorems speak of tokens whose signature
  verifies under a key (\<open>lib_signature_ok\<close>).

  The locale \<open>device_store\<close> is the contract of the interface \<^verbatim>\<open>Database\<close>. The lemmas about
  verification, rotation and revocation are proved in it once.
\<close>

section \<open>Tokens and claims\<close>

datatype signing_method = SigningMethodHMAC string | OtherMethod string

datatype any_value = AnyString string | AnyOther

record registered_claims =
  Issuer :: string
  Subject :: string
  Audience :: "string list"
  ExpiresAt :: "time option"
  NotBefore :: "time option"
  IssuedAt :: "time option"
  ClaimsID :: string

record AccessClaims =
  ac_Username :: string
  ac_UserEmail :: string
  ac_DeviceID :: string
  ac_Generation :: int
  ac_Registered :: registered_claims

record RefreshClaims =
  rf_DeviceID :: string
  rf_Generation :: int
  rf_Registered :: registered_claims

record IdentityClaims =
  id_Username :: string
  id_DeviceID :: string
  id_Registered :: registered_claims

text \<open>The values of the library's interface \<^verbatim>\<open>Claims\<close> the server uses.\<close>

datatype claims =
    AccessClaimsOf AccessClaims
  | RefreshClaimsOf RefreshClaims
  | IdentityClaimsOf IdentityClaims
  | RegisteredClaimsOf registered_claims

definition zero_registered :: registered_claims where
  "zero_registered = \<lparr>Issuer = '''', Subject = '''', Audience = [], ExpiresAt = None,
     NotBefore = None, IssuedAt = None, ClaimsID = ''''\<rparr>"

definition zero_access :: AccessClaims where
  "zero_access = \<lparr>ac_Username = '''', ac_UserEmail = '''', ac_DeviceID = '''', ac_Generation = 0,
     ac_Registered = zero_registered\<rparr>"

definition zero_refresh :: RefreshClaims where
  "zero_refresh = \<lparr>rf_DeviceID = '''', rf_Generation = 0, rf_Registered = zero_registered\<rparr>"

definition zero_identity :: IdentityClaims where
  "zero_identity = \<lparr>id_Username = '''', id_DeviceID = '''', id_Registered = zero_registered\<rparr>"

fun zero_like :: "claims \<Rightarrow> claims" where
  "zero_like (AccessClaimsOf _) = AccessClaimsOf zero_access"
| "zero_like (RefreshClaimsOf _) = RefreshClaimsOf zero_refresh"
| "zero_like (IdentityClaimsOf _) = IdentityClaimsOf zero_identity"
| "zero_like (RegisteredClaimsOf _) = RegisteredClaimsOf zero_registered"

fun claims_registered :: "claims \<Rightarrow> registered_claims" where
  "claims_registered (AccessClaimsOf c) = ac_Registered c"
| "claims_registered (RefreshClaimsOf c) = rf_Registered c"
| "claims_registered (IdentityClaimsOf c) = id_Registered c"
| "claims_registered (RegisteredClaimsOf c) = c"

fun the_access :: "claims \<Rightarrow> AccessClaims" where
  "the_access (AccessClaimsOf c) = c"
| "the_access _ = zero_access"

fun the_refresh :: "claims \<Rightarrow> RefreshClaims" where
  "the_refresh (RefreshClaimsOf c) = c"
| "the_refresh _ = zero_refresh"

record token =
  Method :: signing_method
  Header :: "(string \<times> any_value) list"
  Claims :: claims
  Valid :: bool

datatype parser_option = WithIssuerOption string | WithAudienceOption string

section \<open>The library\<close>

record jwt_lib =
  lib_ParseUnverified :: "string \<Rightarrow> claims \<Rightarrow> claims \<times> (go_error + token)"
  lib_ParseWithClaims :: "string \<Rightarrow> claims \<Rightarrow> (token \<Rightarrow> go_error + string) \<Rightarrow> parser_option list \<Rightarrow> time
    \<Rightarrow> claims \<times> (go_error + token)"
  lib_SignedString :: "token \<Rightarrow> string \<Rightarrow> go_error + string"
  lib_NewNumericDate :: "time \<Rightarrow> time"
  lib_signature_ok :: "string \<Rightarrow> string \<Rightarrow> bool"
  lib_text :: "string \<Rightarrow> bool"
  lib_unicode :: unicode

definition NewWithClaims :: "signing_method \<Rightarrow> string \<Rightarrow> claims \<Rightarrow> token" where
  "NewWithClaims method alg c =
     \<lparr>Method = method, Header = [(''typ'', AnyString ''JWT''), (''alg'', AnyString alg)], Claims = c, Valid = False\<rparr>"

text \<open>Validation of the registered claims against the parser's options, with no leeway.\<close>

fun option_holds :: "registered_claims \<Rightarrow> parser_option \<Rightarrow> bool" where
  "option_holds c (WithIssuerOption iss) = (Issuer c = iss)"
| "option_holds c (WithAudienceOption aud) = (aud \<in> set (Audience c))"

definition claims_valid :: "parser_option list \<Rightarrow> time \<Rightarrow> registered_claims \<Rightarrow> bool" where
  "claims_valid opts now c \<longleftrightarrow>
     (case ExpiresAt c of None \<Rightarrow> True | Some t \<Rightarrow> now < t)
   \<and> (case NotBefore c of None \<Rightarrow> True | Some t \<Rightarrow> t \<le> now)
   \<and> list_all (option_holds c) opts"

text \<open>
  Claims that survive the JSON encoding unchanged: texts in the encoding's character set
  (valid UTF-8, the predicate \<open>lib_text\<close>), dates of the library's precision.
\<close>

fun claims_texts :: "claims \<Rightarrow> string list" where
  "claims_texts (AccessClaimsOf c) = [ac_Username c, ac_UserEmail c, ac_DeviceID c]"
| "claims_texts (RefreshClaimsOf c) = [rf_DeviceID c]"
| "claims_texts (IdentityClaimsOf c) = [id_Username c, id_DeviceID c]"
| "claims_texts (RegisteredClaimsOf c) = []"

definition registered_texts :: "registered_claims \<Rightarrow> string list" where
  "registered_texts c = Issuer c # Subject c # ClaimsID c # Audience c"

definition registered_dates :: "registered_claims \<Rightarrow> time list" where
  "registered_dates c = List.map_filter id [ExpiresAt c, NotBefore c, IssuedAt c]"

definition encodable :: "jwt_lib \<Rightarrow> claims \<Rightarrow> bool" where
  "encodable L c \<longleftrightarrow> list_all (lib_text L) (claims_texts c @ registered_texts (claims_registered c))
     \<and> list_all (\<lambda>t. lib_NewNumericDate L t = t) (registered_dates (claims_registered c))"

text \<open>The parser reads the signing method from the \<^verbatim>\<open>alg\<close> header, so the laws speak of tokens whose header names their method.\<close>

definition names_method :: "token \<Rightarrow> bool" where
  "names_method t \<longleftrightarrow>
     (case Method t of SigningMethodHMAC h \<Rightarrow> map_of (Header t) ''alg'' = Some (AnyString h) | _ \<Rightarrow> False)"

definition law_signed :: "jwt_lib \<Rightarrow> bool" where
  "law_signed L \<longleftrightarrow> (\<forall>t key s. lib_SignedString L t key = Inr s \<longrightarrow> names_method t \<longrightarrow> encodable L (Claims t) \<longrightarrow>
     lib_ParseUnverified L s (zero_like (Claims t)) = (Claims t, Inr (t\<lparr>Valid := False\<rparr>))
     \<and> lib_signature_ok L s key)"

definition law_header :: "jwt_lib \<Rightarrow> bool" where
  "law_header L \<longleftrightarrow> (\<forall>s target target' c c' u u'. lib_ParseUnverified L s target = (c, Inr u) \<longrightarrow>
     lib_ParseUnverified L s target' = (c', Inr u') \<longrightarrow> Header u' = Header u)"

definition law_parsed :: "jwt_lib \<Rightarrow> bool" where
  "law_parsed L \<longleftrightarrow> (\<forall>s target c u. lib_ParseUnverified L s target = (c, Inr u) \<longrightarrow>
     encodable L c \<and> zero_like c = zero_like target)"

definition law_verified :: "jwt_lib \<Rightarrow> bool" where
  "law_verified L \<longleftrightarrow> (\<forall>s target c u kf opts now c' v. lib_ParseUnverified L s target = (c, Inr u) \<longrightarrow>
     lib_ParseWithClaims L s c kf opts now = (c', Inr v) \<longrightarrow>
     c' = c \<and> Valid v \<and> claims_valid opts now (claims_registered c)
     \<and> (\<exists>key. kf u = Inr key \<and> lib_signature_ok L s key))"

definition law_accepts :: "jwt_lib \<Rightarrow> bool" where
  "law_accepts L \<longleftrightarrow> (\<forall>s target c u kf opts now key. lib_ParseUnverified L s target = (c, Inr u) \<longrightarrow>
     kf u = Inr key \<longrightarrow> lib_signature_ok L s key \<longrightarrow>
     (if claims_valid opts now (claims_registered c)
      then lib_ParseWithClaims L s c kf opts now = (c, Inr (u\<lparr>Valid := True\<rparr>))
      else \<exists>e. lib_ParseWithClaims L s c kf opts now = (c, Inl e) \<and> \<not> errors_Is e ErrTokenSignatureInvalid))"

definition law_dates :: "jwt_lib \<Rightarrow> bool" where
  "law_dates L \<longleftrightarrow> (\<forall>x. lib_NewNumericDate L x \<le> x \<and> x < lib_NewNumericDate L x + Second
     \<and> lib_NewNumericDate L (lib_NewNumericDate L x) = lib_NewNumericDate L x)"

definition jwt_laws :: "jwt_lib \<Rightarrow> bool" where
  "jwt_laws L \<longleftrightarrow> law_signed L \<and> law_header L \<and> law_parsed L \<and> law_verified L \<and> law_accepts L
     \<and> law_dates L"

section \<open>The manager\<close>

definition AccessTokenType :: string where
  "AccessTokenType = ''access+jwt''"

definition RefreshTokenType :: string where
  "RefreshTokenType = ''refresh+jwt''"

record 'd jwt_Database =
  UpdateDeviceSecret :: "string \<Rightarrow> 'd \<Rightarrow> (go_error + int) \<times> 'd"
  GetDeviceSecret :: "string \<Rightarrow> 'd \<Rightarrow> (go_error + (string \<times> int)) \<times> 'd"

record jwt_options =
  AccessTokenDuration :: duration
  RefreshTokenDuration :: duration
  opt_Issuer :: string
  opt_Audience :: string

definition jwt_defaultOptions :: jwt_options where
  "jwt_defaultOptions = \<lparr>AccessTokenDuration = 15 * Minute, RefreshTokenDuration = 7 * 24 * Hour,
     opt_Issuer = '''', opt_Audience = ''''\<rparr>"

definition WithAccessTokenDuration :: "duration \<Rightarrow> jwt_options \<Rightarrow> jwt_options" where
  "WithAccessTokenDuration d opts = opts\<lparr>AccessTokenDuration := d\<rparr>"

definition WithRefreshTokenDuration :: "duration \<Rightarrow> jwt_options \<Rightarrow> jwt_options" where
  "WithRefreshTokenDuration d opts = opts\<lparr>RefreshTokenDuration := d\<rparr>"

definition WithIssuer :: "string \<Rightarrow> jwt_options \<Rightarrow> jwt_options" where
  "WithIssuer issuer opts = opts\<lparr>opt_Issuer := issuer\<rparr>"

definition WithAudience :: "string \<Rightarrow> jwt_options \<Rightarrow> jwt_options" where
  "WithAudience audience opts = opts\<lparr>opt_Audience := audience\<rparr>"

record 'd JWTManager =
  manager_db :: "'d jwt_Database"
  manager_config :: jwt_options

definition NewJWTManager :: "'d jwt_Database \<Rightarrow> (jwt_options \<Rightarrow> jwt_options) list \<Rightarrow> 'd JWTManager" where
  "NewJWTManager db opts = \<lparr>manager_db = db, manager_config = fold (\<lambda>opt cfg. opt cfg) opts jwt_defaultOptions\<rparr>"

definition set_header :: "string \<Rightarrow> any_value \<Rightarrow> (string \<times> any_value) list \<Rightarrow> (string \<times> any_value) list" where
  "set_header k v h = (k, v) # filter (\<lambda>x. fst x \<noteq> k) h"

definition signToken :: "jwt_lib \<Rightarrow> string \<Rightarrow> claims \<Rightarrow> string \<Rightarrow> go_error + string" where
  "signToken L tokenType c secret =
     (let t = NewWithClaims (SigningMethodHMAC ''HS256'') ''HS256'' c
      in lib_SignedString L (t\<lparr>Header := set_header ''typ'' (AnyString tokenType) (Header t)\<rparr>) secret)"

definition hasTokenType :: "jwt_lib \<Rightarrow> token \<Rightarrow> string \<Rightarrow> bool" where
  "hasTokenType L t expected =
     (let typ = (case map_of (Header t) ''typ'' of Some (AnyString s) \<Rightarrow> s | _ \<Rightarrow> '''')
      in strings_TrimPrefix (strings_ToLower (lib_unicode L) typ) ''application/'' = expected)"

definition newRefreshClaims ::
  "jwt_lib \<Rightarrow> 'd JWTManager \<Rightarrow> clock \<Rightarrow> string \<Rightarrow> string \<Rightarrow> int \<Rightarrow> RefreshClaims" where
  "newRefreshClaims L m clk userEmail deviceID gen =
     \<lparr>rf_DeviceID = deviceID, rf_Generation = gen,
      rf_Registered = \<lparr>
        Issuer = opt_Issuer (manager_config m), Subject = userEmail,
        Audience = [opt_Audience (manager_config m)],
        ExpiresAt = Some (lib_NewNumericDate L (clk 0 + RefreshTokenDuration (manager_config m))),
        NotBefore = None, IssuedAt = Some (lib_NewNumericDate L (clk 1)), ClaimsID = ''''\<rparr>\<rparr>"

definition GenerateRefresh ::
  "jwt_lib \<Rightarrow> 'd JWTManager \<Rightarrow> clock \<Rightarrow> string \<Rightarrow> string \<Rightarrow> string \<Rightarrow> int \<Rightarrow> go_error + string" where
  "GenerateRefresh L m clk userEmail deviceID secret gen =
     signToken L RefreshTokenType (RefreshClaimsOf (newRefreshClaims L m clk userEmail deviceID gen)) secret"

definition parserOptions :: "'d JWTManager \<Rightarrow> parser_option list" where
  "parserOptions m =
     (if opt_Issuer (manager_config m) \<noteq> '''' then [WithIssuerOption (opt_Issuer (manager_config m))] else [])
   @ (if opt_Audience (manager_config m) \<noteq> '''' then [WithAudienceOption (opt_Audience (manager_config m))] else [])"

text \<open>The type switch of \<^verbatim>\<open>verifyToken\<close>: token type, device and generation of the claims.\<close>

fun token_identity :: "claims \<Rightarrow> (string \<times> string \<times> int) option" where
  "token_identity (AccessClaimsOf c) = Some (AccessTokenType, ac_DeviceID c, ac_Generation c)"
| "token_identity (RefreshClaimsOf c) = Some (RefreshTokenType, rf_DeviceID c, rf_Generation c)"
| "token_identity _ = None"

definition device_key :: "string \<Rightarrow> token \<Rightarrow> go_error + string" where
  "device_key secret t =
     (case Method t of SigningMethodHMAC _ \<Rightarrow> Inr secret | OtherMethod _ \<Rightarrow> Inl ErrUnexpectedSigningMethod)"

definition verifyToken ::
  "jwt_lib \<Rightarrow> 'd JWTManager \<Rightarrow> time \<Rightarrow> string \<Rightarrow> claims \<Rightarrow> 'd \<Rightarrow> (claims \<times> (go_error + string)) \<times> 'd" where
  "verifyToken L m now tokenStr target d =
     (case lib_ParseUnverified L tokenStr target of
        (c, Inl _) \<Rightarrow> ((c, Inl ErrInvalidToken), d)
      | (c, Inr unverifiedToken) \<Rightarrow>
          (case token_identity c of
             None \<Rightarrow> ((c, Inl ErrInvalidToken), d)
           | Some (tokenType, deviceID, gen) \<Rightarrow>
               if \<not> hasTokenType L unverifiedToken tokenType then ((c, Inl ErrInvalidToken), d)
               else (case GetDeviceSecret (manager_db m) deviceID d of
                  (Inl err, d1) \<Rightarrow>
                    if errors_Is err ErrDeviceNotFound then ((c, Inl ErrDeviceNotFound), d1)
                    else ((c, Inl ErrInvalidToken), d1)
                | (Inr (secret, current), d1) \<Rightarrow>
                    (case lib_ParseWithClaims L tokenStr c (device_key secret) (parserOptions m) now of
                       (c', Inl err) \<Rightarrow>
                         if errors_Is err ErrTokenSignatureInvalid then ((c', Inl ErrInvalidSignature), d1)
                         else ((c', Inl ErrInvalidToken), d1)
                     | (c', Inr t) \<Rightarrow>
                         if \<not> Valid t then ((c', Inl ErrInvalidToken), d1)
                         else if gen \<noteq> current then ((c', Inl ErrTokenRevoked), d1)
                         else ((c', Inr secret), d1)))))"

definition GenerateAccess ::
  "jwt_lib \<Rightarrow> 'd JWTManager \<Rightarrow> clock \<Rightarrow> string \<Rightarrow> string \<Rightarrow> 'd \<Rightarrow> (go_error + string) \<times> 'd" where
  "GenerateAccess L m clk refreshToken username d =
     (case verifyToken L m (clk 0) refreshToken (RefreshClaimsOf zero_refresh) d of
        ((_, Inl err), d') \<Rightarrow> (Inl err, d')
      | ((c, Inr secret), d') \<Rightarrow>
          (let cl = the_refresh c;
               accessClaims = \<lparr>ac_Username = username, ac_UserEmail = Subject (rf_Registered cl),
                 ac_DeviceID = rf_DeviceID cl, ac_Generation = rf_Generation cl,
                 ac_Registered = \<lparr>
                   Issuer = opt_Issuer (manager_config m), Subject = Subject (rf_Registered cl),
                   Audience = [opt_Audience (manager_config m)],
                   ExpiresAt = Some (lib_NewNumericDate L (clk 1 + AccessTokenDuration (manager_config m))),
                   NotBefore = None, IssuedAt = Some (lib_NewNumericDate L (clk 2)), ClaimsID = ''''\<rparr>\<rparr>
           in (signToken L AccessTokenType (AccessClaimsOf accessClaims) secret, d')))"

text \<open>\<^verbatim>\<open>VerifyAccess\<close> and \<^verbatim>\<open>VerifyRefresh\<close> return the claims also beside an error.\<close>

definition VerifyAccess ::
  "jwt_lib \<Rightarrow> 'd JWTManager \<Rightarrow> time \<Rightarrow> string \<Rightarrow> 'd \<Rightarrow> (AccessClaims \<times> go_error option) \<times> 'd" where
  "VerifyAccess L m now accessToken d =
     (case verifyToken L m now accessToken (AccessClaimsOf zero_access) d of
        ((c, Inl err), d') \<Rightarrow> ((the_access c, Some err), d')
      | ((c, Inr _), d') \<Rightarrow> ((the_access c, None), d'))"

definition VerifyRefresh ::
  "jwt_lib \<Rightarrow> 'd JWTManager \<Rightarrow> time \<Rightarrow> string \<Rightarrow> 'd \<Rightarrow> (RefreshClaims \<times> go_error option) \<times> 'd" where
  "VerifyRefresh L m now refreshToken d =
     (case verifyToken L m now refreshToken (RefreshClaimsOf zero_refresh) d of
        ((c, Inl err), d') \<Rightarrow> ((the_refresh c, Some err), d')
      | ((c, Inr _), d') \<Rightarrow> ((the_refresh c, None), d'))"

definition RotateRefresh ::
  "jwt_lib \<Rightarrow> 'd JWTManager \<Rightarrow> clock \<Rightarrow> string \<Rightarrow> 'd \<Rightarrow> ((go_error + string) \<times> RefreshClaims) \<times> 'd" where
  "RotateRefresh L m clk refreshToken d =
     (case verifyToken L m (clk 0) refreshToken (RefreshClaimsOf zero_refresh) d of
        ((c, Inl err), d1) \<Rightarrow> ((Inl err, the_refresh c), d1)
      | ((c, Inr secret), d1) \<Rightarrow>
          (let cl = the_refresh c
           in case UpdateDeviceSecret (manager_db m) (rf_DeviceID cl) d1 of
                (Inl err, d2) \<Rightarrow> ((Inl err, cl), d2)
              | (Inr gen, d2) \<Rightarrow>
                  (let newClaims = newRefreshClaims L m (later 1 clk) (Subject (rf_Registered cl)) (rf_DeviceID cl) gen
                   in ((signToken L RefreshTokenType (RefreshClaimsOf newClaims) secret, newClaims), d2))))"

section \<open>What the library gives\<close>

lemma names_method_New [simp]:
  "names_method (NewWithClaims (SigningMethodHMAC h) h c)"
  "names_method (NewWithClaims (SigningMethodHMAC h) h c\<lparr>Header := set_header ''typ'' v (Header (NewWithClaims (SigningMethodHMAC h) h c))\<rparr>)"
  by (simp_all add: names_method_def NewWithClaims_def set_header_def)

lemma lib_signed:
  assumes "jwt_laws L" and "lib_SignedString L t key = Inr s" and "names_method t" and "encodable L (Claims t)"
  shows "lib_ParseUnverified L s (zero_like (Claims t)) = (Claims t, Inr (t\<lparr>Valid := False\<rparr>))"
    and "lib_signature_ok L s key"
  using assms by (auto simp: jwt_laws_def law_signed_def)

lemma lib_same_header:
  assumes "jwt_laws L" and "lib_ParseUnverified L s target = (c, Inr u)"
    and "lib_ParseUnverified L s target' = (c', Inr u')"
  shows "Header u' = Header u"
  using assms by (metis jwt_laws_def law_header_def)

lemma lib_parsed:
  assumes "jwt_laws L" and "lib_ParseUnverified L s target = (c, Inr u)"
  shows "encodable L c" and "zero_like c = zero_like target"
  using assms by (auto simp: jwt_laws_def law_parsed_def)

lemma lib_verified:
  assumes "jwt_laws L" and "lib_ParseUnverified L s target = (c, Inr u)"
    and "lib_ParseWithClaims L s c kf opts now = (c', Inr v)"
  shows "c' = c \<and> Valid v \<and> claims_valid opts now (claims_registered c)
    \<and> (\<exists>key. kf u = Inr key \<and> lib_signature_ok L s key)"
  using assms unfolding jwt_laws_def law_verified_def by blast

lemma lib_accepts:
  assumes "jwt_laws L" and "lib_ParseUnverified L s target = (c, Inr u)"
    and "kf u = Inr key" and "lib_signature_ok L s key"
  shows "claims_valid opts now (claims_registered c) \<Longrightarrow>
      lib_ParseWithClaims L s c kf opts now = (c, Inr (u\<lparr>Valid := True\<rparr>))"
    and "\<not> claims_valid opts now (claims_registered c) \<Longrightarrow>
      \<exists>e. lib_ParseWithClaims L s c kf opts now = (c, Inl e) \<and> \<not> errors_Is e ErrTokenSignatureInvalid"
proof -
  have *: "if claims_valid opts now (claims_registered c)
    then lib_ParseWithClaims L s c kf opts now = (c, Inr (u\<lparr>Valid := True\<rparr>))
    else \<exists>e. lib_ParseWithClaims L s c kf opts now = (c, Inl e) \<and> \<not> errors_Is e ErrTokenSignatureInvalid"
    using assms unfolding jwt_laws_def law_accepts_def by blast
  show "claims_valid opts now (claims_registered c) \<Longrightarrow>
      lib_ParseWithClaims L s c kf opts now = (c, Inr (u\<lparr>Valid := True\<rparr>))"
    and "\<not> claims_valid opts now (claims_registered c) \<Longrightarrow>
      \<exists>e. lib_ParseWithClaims L s c kf opts now = (c, Inl e) \<and> \<not> errors_Is e ErrTokenSignatureInvalid"
    using * by simp_all
qed

lemma lib_date:
  assumes "jwt_laws L"
  shows "lib_NewNumericDate L x \<le> x" and "x < lib_NewNumericDate L x + Second"
    and "lib_NewNumericDate L (lib_NewNumericDate L x) = lib_NewNumericDate L x"
  using assms by (auto simp: jwt_laws_def law_dates_def)

section \<open>Signed tokens\<close>

text \<open>
  The library's part of a token: \<open>carries L s c key\<close> says that the text \<open>s\<close> parses to the
  claims \<open>c\<close>, has the header type that belongs to them, and that its signature verifies
  under \<open>key\<close>. It does not mention the device store.
\<close>

definition carries :: "jwt_lib \<Rightarrow> string \<Rightarrow> claims \<Rightarrow> string \<Rightarrow> bool" where
  "carries L s c key \<longleftrightarrow> lib_signature_ok L s key
     \<and> (\<exists>u h typ k g. lib_ParseUnverified L s (zero_like c) = (c, Inr u) \<and> Method u = SigningMethodHMAC h
         \<and> token_identity c = Some (typ, k, g) \<and> hasTokenType L u typ)"

lemma map_of_set_header [simp]: "map_of (set_header k v h) k = Some v"
  by (simp add: set_header_def)

lemma TrimPrefix_typ [simp]:
  "strings_TrimPrefix ''access+jwt'' ''application/'' = ''access+jwt''"
  "strings_TrimPrefix ''refresh+jwt'' ''application/'' = ''refresh+jwt''"
  by (simp_all add: strings_TrimPrefix_def strings_CutPrefix_def)

lemma lower_typ [simp]:
  "strings_ToLower U ''access+jwt'' = ''access+jwt''"
  "strings_ToLower U ''refresh+jwt'' = ''refresh+jwt''"
  by (simp_all add: strings_ToLower_def is_ascii_def ascii_lower_def byte_of_def)

lemma typ_header:
  "typ \<in> {AccessTokenType, RefreshTokenType} \<Longrightarrow>
    map_of (Header t) ''typ'' = Some (AnyString typ) \<Longrightarrow> hasTokenType L t typ"
  by (auto simp: hasTokenType_def AccessTokenType_def RefreshTokenType_def)

lemma token_identity_typ: "token_identity c = Some (typ, k, g) \<Longrightarrow> typ \<in> {AccessTokenType, RefreshTokenType}"
  by (cases c) auto

lemma signToken_carries:
  assumes "jwt_laws L" and "signToken L typ c key = Inr s" and "encodable L c"
    and "token_identity c = Some (typ, k, g)"
  shows "carries L s c key"
  using lib_signed [OF assms(1) assms(2) [unfolded signToken_def Let_def] names_method_New(2)] assms(3,4)
    token_identity_typ [OF assms(4)]
  by (auto simp: carries_def NewWithClaims_def intro!: typ_header)

text \<open>Success of \<^verbatim>\<open>verifyToken\<close>, and its outcome on a token that carries its claims under the key.\<close>

lemma verifyToken_sound:
  assumes "jwt_laws L" and "verifyToken L m now s target d = ((c, Inr key), d')" and "zero_like target = target"
  shows "carries L s c key \<and> zero_like c = target \<and> claims_valid (parserOptions m) now (claims_registered c)
    \<and> (\<exists>typ k g. token_identity c = Some (typ, k, g) \<and> GetDeviceSecret (manager_db m) k d = (Inr (key, g), d'))"
proof -
  from assms(2) obtain c0 u ty k g v where parse: "lib_ParseUnverified L s target = (c0, Inr u)"
    and ident: "token_identity c0 = Some (ty, k, g)" and htype: "hasTokenType L u ty"
    and get: "GetDeviceSecret (manager_db m) k d = (Inr (key, g), d')"
    and ver: "lib_ParseWithClaims L s c0 (device_key key) (parserOptions m) now = (c, Inr v)"
    by (auto simp: verifyToken_def split: prod.splits sum.splits option.splits if_splits)
  from lib_verified [OF assms(1) parse ver] have "c = c0"
    and "claims_valid (parserOptions m) now (claims_registered c)"
    and "lib_signature_ok L s key" and "\<exists>h. Method u = SigningMethodHMAC h"
    by (auto simp: device_key_def split: signing_method.splits)
  moreover from lib_parsed [OF assms(1) parse] have "zero_like c0 = target" by (simp add: assms(3))
  ultimately show ?thesis using parse ident htype get by (auto simp: carries_def)
qed

lemma verifyToken_carried:
  assumes "jwt_laws L" and "carries L s c key" and "token_identity c = Some (typ, k, g)"
    and "GetDeviceSecret (manager_db m) k d = (r, d')" and "\<And>key' g'. r = Inr (key', g') \<Longrightarrow> key' = key"
    and "target = zero_like c"
  shows "verifyToken L m now s target d = ((c, case r of
      Inl e \<Rightarrow> Inl (if errors_Is e ErrDeviceNotFound then ErrDeviceNotFound else ErrInvalidToken)
    | Inr (_, current) \<Rightarrow>
        if \<not> claims_valid (parserOptions m) now (claims_registered c) then Inl ErrInvalidToken
        else if g \<noteq> current then Inl ErrTokenRevoked else Inr key), d')"
proof -
  from assms(2,3) obtain u h where parse: "lib_ParseUnverified L s (zero_like c) = (c, Inr u)"
    and m: "Method u = SigningMethodHMAC h" and "hasTokenType L u typ" and sig: "lib_signature_ok L s key"
    by (auto simp: carries_def)
  have "device_key key u = Inr key" by (simp add: device_key_def m)
  note lib_accepts [OF assms(1) parse, of "device_key key", OF this sig, of "parserOptions m" now]
  then show ?thesis
    using assms(3-6) parse \<open>hasTokenType L u typ\<close>
    by (cases "claims_valid (parserOptions m) now (claims_registered c)")
      (auto simp: verifyToken_def split: sum.splits prod.splits)
qed

text \<open>Verification reads the device at most once.\<close>

lemma verifyToken_reads:
  assumes "verifyToken L m now s target d = (x, d')"
  shows "d' = d \<or> (\<exists>k y. GetDeviceSecret (manager_db m) k d = (y, d'))"
proof -
  obtain c res where p: "lib_ParseUnverified L s target = (c, res)" by fastforce
  show ?thesis
  proof (cases "\<exists>u ty k g. res = Inr u \<and> token_identity c = Some (ty, k, g) \<and> hasTokenType L u ty")
    case False
    with p assms show ?thesis by (auto simp: verifyToken_def split: sum.splits option.splits if_splits)
  next
    case True
    then obtain u ty k g where t: "res = Inr u" "token_identity c = Some (ty, k, g)" "hasTokenType L u ty" by blast
    obtain y d1 where get: "GetDeviceSecret (manager_db m) k d = (y, d1)" by fastforce
    with p t assms have "d' = d1"
      by (auto simp: verifyToken_def split: sum.splits prod.splits if_splits)
    with get show ?thesis by blast
  qed
qed

text \<open>A text has one header, so it cannot be a token of both types.\<close>

lemma carries_one_type:
  assumes "jwt_laws L" and "carries L s (AccessClaimsOf a) key" and "carries L s (RefreshClaimsOf r) key'"
  shows False
proof -
  from assms(2,3) obtain u v
    where "lib_ParseUnverified L s (AccessClaimsOf zero_access) = (AccessClaimsOf a, Inr u)"
      and "lib_ParseUnverified L s (RefreshClaimsOf zero_refresh) = (RefreshClaimsOf r, Inr v)"
      and types: "hasTokenType L u AccessTokenType" "hasTokenType L v RefreshTokenType"
    by (auto simp: carries_def)
  with lib_same_header [OF assms(1)] have "Header v = Header u" by blast
  with types show False by (simp add: hasTokenType_def AccessTokenType_def RefreshTokenType_def)
qed

lemma zero_like_cases:
  "zero_like c = AccessClaimsOf zero_access \<Longrightarrow> \<exists>a. c = AccessClaimsOf a"
  "zero_like c = RefreshClaimsOf zero_refresh \<Longrightarrow> \<exists>r. c = RefreshClaimsOf r"
  by (cases c; simp)+

lemma VerifyAccess_sound:
  assumes "jwt_laws L" and "VerifyAccess L m now s d = ((a, None), d')"
  shows "\<exists>key. carries L s (AccessClaimsOf a) key
    \<and> GetDeviceSecret (manager_db m) (ac_DeviceID a) d = (Inr (key, ac_Generation a), d')
    \<and> claims_valid (parserOptions m) now (ac_Registered a)"
proof -
  from assms(2) obtain c key where v: "verifyToken L m now s (AccessClaimsOf zero_access) d = ((c, Inr key), d')"
    and a: "a = the_access c"
    by (auto simp: VerifyAccess_def split: prod.splits sum.splits)
  have z: "zero_like (AccessClaimsOf zero_access) = AccessClaimsOf zero_access" by simp
  from verifyToken_sound [OF assms(1) v z] zero_like_cases(1) [of c] show ?thesis by (auto simp: a)
qed

lemma verify_refresh_sound:
  assumes "jwt_laws L" and v: "verifyToken L m now s (RefreshClaimsOf zero_refresh) d = ((c, Inr key), d')"
  shows "\<exists>r. c = RefreshClaimsOf r \<and> carries L s (RefreshClaimsOf r) key
    \<and> GetDeviceSecret (manager_db m) (rf_DeviceID r) d = (Inr (key, rf_Generation r), d')
    \<and> claims_valid (parserOptions m) now (rf_Registered r)"
proof -
  have z: "zero_like (RefreshClaimsOf zero_refresh) = RefreshClaimsOf zero_refresh" by simp
  from verifyToken_sound [OF assms(1) v z] zero_like_cases(2) [of c] show ?thesis by auto
qed

lemma VerifyRefresh_sound:
  assumes "jwt_laws L" and "VerifyRefresh L m now s d = ((r, None), d')"
  shows "\<exists>key. carries L s (RefreshClaimsOf r) key
    \<and> GetDeviceSecret (manager_db m) (rf_DeviceID r) d = (Inr (key, rf_Generation r), d')
    \<and> claims_valid (parserOptions m) now (rf_Registered r)"
  using assms(2) verify_refresh_sound [OF assms(1), of m now s d]
  by (fastforce simp: VerifyRefresh_def split: prod.splits sum.splits)

section \<open>The contract of the device store\<close>

text \<open>
  What the module relies on from the interface \<^verbatim>\<open>Database\<close>. \<open>dev\<close> is the store's map from device
  to secret and generation, \<open>named\<close> holds of the spelling the store itself gives
  identifiers, \<open>up\<close> says that no call fails for outside reasons. A read changes no
  device; an update that reports success moved exactly that device to the next generation;
  one that reports failure changed nothing.
\<close>

locale device_store =
  fixes DB :: "'d jwt_Database"
    and dev :: "'d \<Rightarrow> string \<rightharpoonup> string \<times> int"
    and named :: "'d \<Rightarrow> string \<Rightarrow> bool"
    and store_invar :: "'d \<Rightarrow> bool"
    and up :: "'d \<Rightarrow> bool"
  assumes get_state: "store_invar d \<Longrightarrow> GetDeviceSecret DB k d = (x, d') \<Longrightarrow>
      store_invar d' \<and> dev d' = dev d \<and> named d' = named d \<and> (up d \<longrightarrow> up d')"
    and get_found: "store_invar d \<Longrightarrow> named d k \<Longrightarrow> GetDeviceSecret DB k d = (Inr sg, d') \<Longrightarrow> dev d k = Some sg"
    and get_known: "store_invar d \<Longrightarrow> up d \<Longrightarrow> dev d k = Some sg \<Longrightarrow> fst (GetDeviceSecret DB k d) = Inr sg"
    and get_unknown: "store_invar d \<Longrightarrow> up d \<Longrightarrow> named d k \<Longrightarrow> dev d k = None \<Longrightarrow>
      fst (GetDeviceSecret DB k d) = Inl ErrDeviceNotFound"
    and upd_state: "store_invar d \<Longrightarrow> named d k \<Longrightarrow> UpdateDeviceSecret DB k d = (y, d') \<Longrightarrow>
      store_invar d' \<and> named d' = named d \<and> (up d \<longrightarrow> up d')"
    and upd_done: "store_invar d \<Longrightarrow> named d k \<Longrightarrow> UpdateDeviceSecret DB k d = (Inr n, d') \<Longrightarrow>
      \<exists>s g. dev d k = Some (s, g) \<and> n = g + 1 \<and> dev d' = (dev d)(k \<mapsto> (s, g + 1))"
    and upd_failed: "store_invar d \<Longrightarrow> named d k \<Longrightarrow> UpdateDeviceSecret DB k d = (Inl e, d') \<Longrightarrow> dev d' = dev d"
begin

text \<open>What a token that carries its claims under the device's secret verifies to.\<close>

lemma verify_carried:
  assumes "jwt_laws L" and "manager_db m = DB" and "store_invar d" and "up d"
    and "carries L s c key" and "token_identity c = Some (ty, k, g)" and "dev d k = Some (key, g')"
    and "target = zero_like c"
  shows "\<exists>d'. verifyToken L m now s target d = ((c,
      if \<not> claims_valid (parserOptions m) now (claims_registered c) then Inl ErrInvalidToken
      else if g \<noteq> g' then Inl ErrTokenRevoked else Inr key), d')
    \<and> store_invar d' \<and> up d' \<and> dev d' = dev d \<and> named d' = named d"
proof -
  obtain d' where get: "GetDeviceSecret (manager_db m) k d = (Inr (key, g'), d')"
    using get_known [OF assms(3,4,7)] assms(2) by (metis prod.collapse)
  from verifyToken_carried [OF assms(1,5,6) get _ assms(8)] get_state [OF assms(3)] get assms(2,4)
  show ?thesis by auto
qed

lemma verify_current:
  assumes "jwt_laws L" and "manager_db m = DB" and "store_invar d" and "up d"
    and "carries L s c key" and "token_identity c = Some (ty, k, g)" and "dev d k = Some (key, g)"
    and "target = zero_like c" and "claims_valid (parserOptions m) now (claims_registered c)"
  obtains d' where "verifyToken L m now s target d = ((c, Inr key), d')"
    and "store_invar d'" and "up d'" and "dev d' = dev d" and "named d' = named d"
  using verify_carried [OF assms(1-8), of now] assms(9) by auto

text \<open>A verified token names a device of the store, at the generation the token carries.\<close>

lemma verified_device:
  assumes "jwt_laws L" and "manager_db m = DB" and "store_invar d"
    and "verifyToken L m now s (RefreshClaimsOf zero_refresh) d = ((RefreshClaimsOf r, Inr key), d')"
    and "named d (rf_DeviceID r)"
  shows "dev d (rf_DeviceID r) = Some (key, rf_Generation r) \<and> store_invar d' \<and> dev d' = dev d
    \<and> named d' = named d \<and> (up d \<longrightarrow> up d') \<and> carries L s (RefreshClaimsOf r) key
    \<and> claims_valid (parserOptions m) now (rf_Registered r)"
  using verify_refresh_sound [OF assms(1,4)] get_found [OF assms(3,5)] get_state [OF assms(3)] assms(2)
  by auto

text \<open>A device that is not in the store cannot be used, whatever the token.\<close>

lemma verify_unknown_device:
  assumes "jwt_laws L" and "manager_db m = DB" and "store_invar d" and "up d"
    and "carries L s c key" and "token_identity c = Some (ty, k, g)" and "named d k" and "dev d k = None"
    and "target = zero_like c"
  shows "\<exists>d'. verifyToken L m now s target d = ((c, Inl ErrDeviceNotFound), d')
    \<and> store_invar d' \<and> up d' \<and> dev d' = dev d \<and> named d' = named d"
proof -
  obtain d' where get: "GetDeviceSecret (manager_db m) k d = (Inl ErrDeviceNotFound, d')"
    using get_unknown [OF assms(3,4,7,8)] assms(2) by (metis prod.collapse)
  from verifyToken_carried [OF assms(1,5,6) get _ assms(9)] get_state [OF assms(3)] get assms(2,4)
  show ?thesis by auto
qed

end

text \<open>Issuer and audience can be encoded, so every token the manager signs parses back.\<close>

definition config_encodable :: "jwt_lib \<Rightarrow> 'd JWTManager \<Rightarrow> bool" where
  "config_encodable L m \<longleftrightarrow> list_all (lib_text L) ['''', opt_Issuer (manager_config m), opt_Audience (manager_config m)]"

lemma encodable_refresh:
  assumes "jwt_laws L" and "config_encodable L m" and "lib_text L em" and "lib_text L k"
  shows "encodable L (RefreshClaimsOf (newRefreshClaims L m clk em k g))"
  using assms(2-4) lib_date(3) [OF assms(1)]
  by (simp add: encodable_def newRefreshClaims_def config_encodable_def registered_texts_def registered_dates_def
      map_filter_def)

context device_store begin

lemma rotate_shape:
  assumes "RotateRefresh L m clk s d = ((Inr s', r'), d')"
  shows "\<exists>c key d1 n. verifyToken L m (clk 0) s (RefreshClaimsOf zero_refresh) d = ((c, Inr key), d1)
    \<and> UpdateDeviceSecret (manager_db m) (rf_DeviceID (the_refresh c)) d1 = (Inr n, d')
    \<and> r' = newRefreshClaims L m (later 1 clk) (Subject (rf_Registered (the_refresh c))) (rf_DeviceID (the_refresh c)) n
    \<and> signToken L RefreshTokenType (RefreshClaimsOf r') key = Inr s'"
  using assms by (auto simp: RotateRefresh_def Let_def split: prod.splits sum.splits)

lemma rotate_done:
  assumes L: "jwt_laws L" and m: "manager_db m = DB" "config_encodable L m" and d: "store_invar d"
    and rot: "RotateRefresh L m clk s d = ((Inr s', r'), d')" and nm: "named d (rf_DeviceID r')"
  shows "\<exists>r key. carries L s (RefreshClaimsOf r) key \<and> carries L s' (RefreshClaimsOf r') key
    \<and> rf_DeviceID r' = rf_DeviceID r \<and> Subject (rf_Registered r') = Subject (rf_Registered r)
    \<and> rf_Generation r' = rf_Generation r + 1
    \<and> dev d (rf_DeviceID r) = Some (key, rf_Generation r)
    \<and> dev d' = (dev d)(rf_DeviceID r \<mapsto> (key, rf_Generation r + 1))
    \<and> store_invar d' \<and> named d' = named d \<and> (up d \<longrightarrow> up d')
    \<and> claims_valid (parserOptions m) (clk 0) (rf_Registered r)"
proof -
  obtain c key d1 n where ver: "verifyToken L m (clk 0) s (RefreshClaimsOf zero_refresh) d = ((c, Inr key), d1)"
    and upd: "UpdateDeviceSecret (manager_db m) (rf_DeviceID (the_refresh c)) d1 = (Inr n, d')"
    and r': "r' = newRefreshClaims L m (later 1 clk) (Subject (rf_Registered (the_refresh c))) (rf_DeviceID (the_refresh c)) n"
    and sign: "signToken L RefreshTokenType (RefreshClaimsOf r') key = Inr s'"
    using rotate_shape [OF rot] by blast
  obtain r where c: "c = RefreshClaimsOf r" using verify_refresh_sound [OF L ver] by blast
  with r' nm have nr: "named d (rf_DeviceID r)" and ids: "rf_DeviceID r' = rf_DeviceID r"
    "Subject (rf_Registered r') = Subject (rf_Registered r)" "rf_Generation r' = n"
    by (simp_all add: newRefreshClaims_def)
  note st = verified_device [OF L m(1) d ver [unfolded c] nr]
  from st have d1: "store_invar d1" "named d1 (rf_DeviceID r)" using nr by simp_all
  from upd have upd': "UpdateDeviceSecret DB (rf_DeviceID r) d1 = (Inr n, d')" by (simp add: c m(1))
  from st have "encodable L (RefreshClaimsOf r)"
    unfolding carries_def using lib_parsed(1) [OF L] by blast
  then have "encodable L (RefreshClaimsOf r')"
    unfolding r' c by (intro encodable_refresh [OF L m(2)]) (simp_all add: encodable_def registered_texts_def)
  from signToken_carries [OF L sign this] have "carries L s' (RefreshClaimsOf r') key" by simp
  with st upd_done [OF d1 upd'] upd_state [OF d1 upd'] ids show ?thesis
    by (intro exI [of _ r] exI [of _ key]) auto
qed

text \<open>The rotated token is never accepted again, and its successor is.\<close>

lemma rotate_revokes:
  assumes L: "jwt_laws L" and m: "manager_db m = DB" "config_encodable L m" and d: "store_invar d" "up d"
    and rot: "RotateRefresh L m clk s d = ((Inr s', r'), d')" and nm: "named d (rf_DeviceID r')"
  shows "(\<exists>e. snd (fst (VerifyRefresh L m now s d')) = Some e
        \<and> (claims_valid (parserOptions m) now (rf_Registered (fst (fst (VerifyRefresh L m now s d')))) \<longrightarrow> e = ErrTokenRevoked))
    \<and> (claims_valid (parserOptions m) now (rf_Registered r') \<longrightarrow> fst (VerifyRefresh L m now s' d') = (r', None))"
proof -
  obtain r key where old: "carries L s (RefreshClaimsOf r) key" and new: "carries L s' (RefreshClaimsOf r') key"
    and k: "rf_DeviceID r' = rf_DeviceID r" and g: "rf_Generation r' = rf_Generation r + 1"
    and "dev d' = (dev d)(rf_DeviceID r \<mapsto> (key, rf_Generation r + 1))"
    and d': "store_invar d'" "up d'"
    using rotate_done [OF L m d(1) rot nm] d(2) by blast
  then have dev: "dev d' (rf_DeviceID r) = Some (key, rf_Generation r + 1)" by simp
  from verify_carried [OF L m(1) d' old _ dev, of RefreshTokenType "rf_Generation r" _ now]
    verify_carried [OF L m(1) d' new _ dev, of RefreshTokenType "rf_Generation r'" _ now]
  show ?thesis by (auto simp: VerifyRefresh_def k g)
qed

end

text \<open>The claims of the access token that belongs to a refresh token.\<close>

definition access_claims_for :: "jwt_lib \<Rightarrow> 'd JWTManager \<Rightarrow> clock \<Rightarrow> string \<Rightarrow> RefreshClaims \<Rightarrow> AccessClaims" where
  "access_claims_for L m clk u r = \<lparr>ac_Username = u, ac_UserEmail = Subject (rf_Registered r),
     ac_DeviceID = rf_DeviceID r, ac_Generation = rf_Generation r,
     ac_Registered = \<lparr>Issuer = opt_Issuer (manager_config m), Subject = Subject (rf_Registered r),
       Audience = [opt_Audience (manager_config m)],
       ExpiresAt = Some (lib_NewNumericDate L (clk 1 + AccessTokenDuration (manager_config m))),
       NotBefore = None, IssuedAt = Some (lib_NewNumericDate L (clk 2)), ClaimsID = ''''\<rparr>\<rparr>"

lemma access_claims_valid:
  "claims_valid (parserOptions m) now (ac_Registered (access_claims_for L m clk u r)) \<longleftrightarrow>
    now < lib_NewNumericDate L (clk 1 + AccessTokenDuration (manager_config m))"
  by (simp add: claims_valid_def access_claims_for_def parserOptions_def)

lemma refresh_claims_valid:
  "claims_valid (parserOptions m) now (rf_Registered (newRefreshClaims L m clk em k g)) \<longleftrightarrow>
    now < lib_NewNumericDate L (clk 0 + RefreshTokenDuration (manager_config m))"
  by (simp add: claims_valid_def newRefreshClaims_def parserOptions_def)

lemma GenerateAccess_shape:
  assumes "jwt_laws L" and "GenerateAccess L m clk s u d = (Inr a, d')"
  obtains r key where "verifyToken L m (clk 0) s (RefreshClaimsOf zero_refresh) d = ((RefreshClaimsOf r, Inr key), d')"
    and "signToken L AccessTokenType (AccessClaimsOf (access_claims_for L m clk u r)) key = Inr a"
proof -
  from assms(2) obtain c key where "verifyToken L m (clk 0) s (RefreshClaimsOf zero_refresh) d = ((c, Inr key), d')"
    and "signToken L AccessTokenType (AccessClaimsOf (access_claims_for L m clk u (the_refresh c))) key = Inr a"
    by (auto simp: GenerateAccess_def Let_def access_claims_for_def split: prod.splits sum.splits)
  with verify_refresh_sound [OF assms(1)] that show thesis by (metis the_refresh.simps(1))
qed

lemma GenerateAccess_verified:
  "verifyToken L m (clk 0) s (RefreshClaimsOf zero_refresh) d = ((RefreshClaimsOf r, Inr key), d') \<Longrightarrow>
    GenerateAccess L m clk s u d = (signToken L AccessTokenType (AccessClaimsOf (access_claims_for L m clk u r)) key, d')"
  by (simp add: GenerateAccess_def access_claims_for_def Let_def)

lemma access_carries:
  assumes L: "jwt_laws L" and m: "config_encodable L m" and u: "lib_text L u"
    and r: "carries L s (RefreshClaimsOf r) key"
    and sign: "signToken L AccessTokenType (AccessClaimsOf (access_claims_for L m clk u r)) key = Inr a"
  shows "carries L a (AccessClaimsOf (access_claims_for L m clk u r)) key"
proof -
  from r lib_parsed(1) [OF L] have "encodable L (RefreshClaimsOf r)" unfolding carries_def by blast
  with m u lib_date(3) [OF L] have "encodable L (AccessClaimsOf (access_claims_for L m clk u r))"
    by (simp add: encodable_def access_claims_for_def config_encodable_def registered_texts_def registered_dates_def
        map_filter_def)
  with L sign show ?thesis by (rule signToken_carries) simp
qed

context device_store begin

text \<open>A minted access token verifies to the user, device and generation of the refresh token.\<close>

lemma access_done:
  assumes L: "jwt_laws L" and m: "manager_db m = DB" "config_encodable L m" and d: "store_invar d"
    and u: "lib_text L u" and gen: "GenerateAccess L m clk s u d = (Inr a, d')"
    and r: "fst (lib_ParseUnverified L s (RefreshClaimsOf zero_refresh)) = RefreshClaimsOf r"
    and nm: "named d (rf_DeviceID r)"
  shows "\<exists>key. store_invar d' \<and> (up d \<longrightarrow> up d') \<and> dev d' = dev d \<and> named d' = named d
    \<and> dev d (rf_DeviceID r) = Some (key, rf_Generation r)
    \<and> carries L a (AccessClaimsOf (access_claims_for L m clk u r)) key"
proof -
  obtain r0 key where ver: "verifyToken L m (clk 0) s (RefreshClaimsOf zero_refresh) d = ((RefreshClaimsOf r0, Inr key), d')"
    and sign: "signToken L AccessTokenType (AccessClaimsOf (access_claims_for L m clk u r0)) key = Inr a"
    using gen by (rule GenerateAccess_shape [OF L])
  from verify_refresh_sound [OF L ver] have c: "carries L s (RefreshClaimsOf r0) key" by simp
  with r have "r0 = r" by (auto simp: carries_def)
  with verified_device [OF L m(1) d ver] nm access_carries [OF L m(2) u c sign] show ?thesis by blast
qed

text \<open>It is accepted until it expires, as long as the device stays at that generation.\<close>

lemma access_verifies:
  assumes L: "jwt_laws L" and m: "manager_db m = DB" "config_encodable L m" and d: "store_invar d" "up d"
    and u: "lib_text L u" and gen: "GenerateAccess L m clk s u d = (Inr a, d')"
    and r: "fst (lib_ParseUnverified L s (RefreshClaimsOf zero_refresh)) = RefreshClaimsOf r"
    and nm: "named d (rf_DeviceID r)"
    and now: "now < lib_NewNumericDate L (clk 1 + AccessTokenDuration (manager_config m))"
  shows "fst (VerifyAccess L m now a d') = (access_claims_for L m clk u r, None)"
proof -
  obtain key where st: "store_invar d'" "up d'" "dev d' (rf_DeviceID r) = Some (key, rf_Generation r)"
    and c: "carries L a (AccessClaimsOf (access_claims_for L m clk u r)) key"
    using access_done [OF L m d(1) u gen r nm] d(2) by auto
  have i: "token_identity (AccessClaimsOf (access_claims_for L m clk u r)) = Some (AccessTokenType, rf_DeviceID r, rf_Generation r)"
    and z: "AccessClaimsOf zero_access = zero_like (AccessClaimsOf (access_claims_for L m clk u r))"
    by (simp_all add: access_claims_for_def)
  have v: "claims_valid (parserOptions m) now (claims_registered (AccessClaimsOf (access_claims_for L m clk u r)))"
    using now by (simp add: access_claims_valid)
  show ?thesis
    by (rule verify_current [OF L m(1) st(1,2) c i st(3) z v]) (simp add: VerifyAccess_def)
qed

end

section \<open>A library that satisfies the laws\<close>

text \<open>
  A library over a finite table of texts, tokens and keys, used where a theorem's hypotheses
  are discharged on concrete inputs: it signs exactly the tokens of its table.
\<close>

type_synonym token_table = "(string \<times> token \<times> string) list"

definition whole_seconds :: "time \<Rightarrow> time" where
  "whole_seconds x = x div Second * Second"

definition table_parse :: "token_table \<Rightarrow> string \<Rightarrow> claims \<Rightarrow> claims \<times> (go_error + token)" where
  "table_parse tbl s target =
     (case map_of tbl s of
        None \<Rightarrow> (target, Inl (Opaque ''malformed''))
      | Some (t, _) \<Rightarrow>
          if zero_like (Claims t) = zero_like target then (Claims t, Inr (t\<lparr>Valid := False\<rparr>))
          else (target, Inl (Opaque ''malformed'')))"

definition table_verify :: "token_table \<Rightarrow> string \<Rightarrow> claims \<Rightarrow> (token \<Rightarrow> go_error + string) \<Rightarrow> parser_option list
    \<Rightarrow> time \<Rightarrow> claims \<times> (go_error + token)" where
  "table_verify tbl s target kf opts now =
     (case table_parse tbl s target of
        (c, Inl e) \<Rightarrow> (c, Inl e)
      | (c, Inr u) \<Rightarrow>
          (case kf u of
             Inl e \<Rightarrow> (c, Inl e)
           | Inr key \<Rightarrow>
               if map_option snd (map_of tbl s) \<noteq> Some key then (c, Inl ErrTokenSignatureInvalid)
               else if \<not> claims_valid opts now (claims_registered c) then (c, Inl (Opaque ''invalid claims''))
               else (c, Inr (u\<lparr>Valid := True\<rparr>))))"

definition table_jwt :: "token_table \<Rightarrow> jwt_lib" where
  "table_jwt tbl = \<lparr>
     lib_ParseUnverified = table_parse tbl,
     lib_ParseWithClaims = table_verify tbl,
     lib_SignedString = (\<lambda>t key. case List.find (\<lambda>e. snd e = (t, key)) tbl of
        None \<Rightarrow> Inl (Opaque ''not in the table'') | Some e \<Rightarrow> Inr (fst e)),
     lib_NewNumericDate = whole_seconds,
     lib_signature_ok = (\<lambda>s key. map_option snd (map_of tbl s) = Some key),
     lib_text = (\<lambda>_. True),
     lib_unicode = \<lparr>uni_ToLower = id, uni_TrimSpace = id, uni_EqualFold = (=)\<rparr>\<rparr>"

definition whole_claims :: "claims \<Rightarrow> bool" where
  "whole_claims c \<longleftrightarrow> list_all (\<lambda>t. whole_seconds t = t) (registered_dates (claims_registered c))"

lemma zero_like_idem [simp]: "zero_like (zero_like c) = zero_like c"
  by (cases c) simp_all

lemma table_parse_Inr:
  "table_parse tbl s target = (c, Inr u) \<longleftrightarrow>
    (\<exists>t key. map_of tbl s = Some (t, key) \<and> zero_like (Claims t) = zero_like target \<and> c = Claims t \<and> u = t\<lparr>Valid := False\<rparr>)"
  by (auto simp: table_parse_def split: option.splits if_splits)

lemma table_verify_again:
  assumes "table_parse tbl s target = (c, Inr u)"
  shows "table_parse tbl s c = (c, Inr u)"
  using assms by (auto simp: table_parse_Inr)

lemma whole_seconds_floor:
  "whole_seconds x \<le> x" "x < whole_seconds x + Second" "whole_seconds (whole_seconds x) = whole_seconds x"
  by (auto simp: whole_seconds_def Second_def)

lemma table_jwt_ops [simp]:
  "lib_ParseUnverified (table_jwt tbl) = table_parse tbl"
  "lib_ParseWithClaims (table_jwt tbl) = table_verify tbl"
  "lib_signature_ok (table_jwt tbl) s key \<longleftrightarrow> map_option snd (map_of tbl s) = Some key"
  "lib_NewNumericDate (table_jwt tbl) = whole_seconds"
  "lib_text (table_jwt tbl) s"
  by (simp_all add: table_jwt_def)

lemma table_signed:
  assumes "distinct (map fst tbl)"
  shows "law_signed (table_jwt tbl)"
  unfolding law_signed_def
proof (intro allI impI)
  fix t key s assume "lib_SignedString (table_jwt tbl) t key = Inr s"
  then obtain e where e: "List.find (\<lambda>e. snd e = (t, key)) tbl = Some e" "s = fst e"
    by (auto simp: table_jwt_def split: option.splits)
  from find_Some_in [OF e(1)] e(2) have "(s, t, key) \<in> set tbl" by (metis prod.collapse)
  with assms have "map_of tbl s = Some (t, key)" by (simp add: map_of_eq_Some_iff)
  then show "lib_ParseUnverified (table_jwt tbl) s (zero_like (Claims t)) = (Claims t, Inr (t\<lparr>Valid := False\<rparr>))
      \<and> lib_signature_ok (table_jwt tbl) s key"
    by (simp add: table_parse_def)
qed

lemma table_parsed:
  assumes "\<forall>e\<in>set tbl. whole_claims (Claims (fst (snd e)))"
  shows "law_parsed (table_jwt tbl)"
proof -
  have "encodable (table_jwt tbl) (Claims t)" if "map_of tbl s = Some (t, key)" for s t key
  proof -
    from map_of_SomeD [OF that] assms have "whole_claims (Claims t)" by fastforce
    then show ?thesis by (auto simp: encodable_def whole_claims_def list_all_iff)
  qed
  then show ?thesis by (auto simp: law_parsed_def table_parse_Inr)
qed

lemma table_verified: "law_verified (table_jwt tbl)"
  unfolding law_verified_def
proof (intro allI impI)
  fix s target c u kf opts now c' v
  assume p: "lib_ParseUnverified (table_jwt tbl) s target = (c, Inr u)"
    and v: "lib_ParseWithClaims (table_jwt tbl) s c kf opts now = (c', Inr v)"
  from p have "table_parse tbl s c = (c, Inr u)" by (intro table_verify_again) simp
  with v show "c' = c \<and> Valid v \<and> claims_valid opts now (claims_registered c)
      \<and> (\<exists>key. kf u = Inr key \<and> lib_signature_ok (table_jwt tbl) s key)"
    by (auto simp: table_verify_def split: sum.splits if_splits)
qed

lemma table_accepts: "law_accepts (table_jwt tbl)"
  unfolding law_accepts_def
proof (intro allI impI)
  fix s target c u opts now key and kf :: "token \<Rightarrow> go_error + string"
  assume p: "lib_ParseUnverified (table_jwt tbl) s target = (c, Inr u)"
    and k: "kf u = Inr key" "lib_signature_ok (table_jwt tbl) s key"
  from p have "table_parse tbl s c = (c, Inr u)" by (intro table_verify_again) simp
  with k show "if claims_valid opts now (claims_registered c)
      then lib_ParseWithClaims (table_jwt tbl) s c kf opts now = (c, Inr (u\<lparr>Valid := True\<rparr>))
      else \<exists>e. lib_ParseWithClaims (table_jwt tbl) s c kf opts now = (c, Inl e) \<and> \<not> errors_Is e ErrTokenSignatureInvalid"
    by (simp add: table_verify_def)
qed

lemma table_jwt_laws:
  assumes "distinct (map fst tbl)" and "\<forall>e\<in>set tbl. whole_claims (Claims (fst (snd e)))"
  shows "jwt_laws (table_jwt tbl)"
proof -
  have "law_header (table_jwt tbl)" by (auto simp: law_header_def table_parse_Inr)
  moreover have "law_dates (table_jwt tbl)" by (simp add: law_dates_def whole_seconds_floor)
  ultimately show ?thesis
    using table_signed [OF assms(1)] table_parsed [OF assms(2)] table_verified table_accepts
    by (simp add: jwt_laws_def)
qed

end
