(* ===== verification/Handler_Options.thy ===== *)
theory Handler_Options
  imports Jwt
begin

text \<open>
  \<^verbatim>\<open>server/internal/handlers/options/options.go\<close>: the interfaces \<^verbatim>\<open>DB\<close> and \<^verbatim>\<open>UsersDB\<close> the
  request handlers are written against, as records of methods over the state behind them, and the
  handlers' options. The locales \<open>session_store\<close>, \<open>session_users\<close> and \<open>account_users\<close> are the contracts of the two
  interfaces, on top of the device store the token manager uses.
\<close>

record User =
  User_ID :: string
  User_Username :: string
  User_Email :: string

record 'd options_DB =
  SaveDeviceSecret :: "string \<Rightarrow> string \<Rightarrow> string \<Rightarrow> 'd \<Rightarrow> (go_error + string) \<times> 'd"
  DeleteDevice :: "string \<Rightarrow> string \<Rightarrow> 'd \<Rightarrow> go_error option \<times> 'd"
  DeleteAllDevices :: "string \<Rightarrow> 'd \<Rightarrow> go_error option \<times> 'd"

record 'd options_UsersDB =
  CreateUser :: "string \<Rightarrow> string \<Rightarrow> 'd \<Rightarrow> (go_error + User) \<times> 'd"
  GetUsername :: "string \<Rightarrow> 'd \<Rightarrow> (go_error + string) \<times> 'd"
  DeleteUser :: "string \<Rightarrow> 'd \<Rightarrow> go_error option \<times> 'd"
  External :: bool

record Options =
  DevMode :: bool
  AllowRegistration :: bool
  PassOAuthToken :: bool
  ClientPKCE :: bool

definition options_New :: "(Options \<Rightarrow> Options) list \<Rightarrow> Options" where
  "options_New opts = fold (\<lambda>opt c. opt c) opts
     \<lparr>DevMode = False, AllowRegistration = False, PassOAuthToken = False, ClientPKCE = False\<rparr>"

definition WithDevMode :: "bool \<Rightarrow> Options \<Rightarrow> Options" where
  "WithDevMode enabled c = c\<lparr>DevMode := enabled\<rparr>"

definition WithAllowRegistration :: "bool \<Rightarrow> Options \<Rightarrow> Options" where
  "WithAllowRegistration enabled c = c\<lparr>AllowRegistration := enabled\<rparr>"

definition WithPassOAuthToken :: "bool \<Rightarrow> Options \<Rightarrow> Options" where
  "WithPassOAuthToken enabled c = c\<lparr>PassOAuthToken := enabled\<rparr>"

definition WithClientPKCE :: "bool \<Rightarrow> Options \<Rightarrow> Options" where
  "WithClientPKCE enabled c = c\<lparr>ClientPKCE := enabled\<rparr>"

section \<open>The contracts\<close>

text \<open>
  \<open>owner d em k\<close>: the device belongs to the user with that e-mail. A deletion removes exactly the
  devices it names and that belong to the user, or reports an error and removes none; a saved device
  gets an unused identifier and generation 1.
\<close>

locale session_store = device_store +
  fixes ODB :: "'a options_DB"
    and owner :: "'a \<Rightarrow> string \<Rightarrow> string \<Rightarrow> bool"
  assumes get_owner: "store_invar d \<Longrightarrow> GetDeviceSecret DB k d = (x, d') \<Longrightarrow> owner d' = owner d"
    and upd_owner: "store_invar d \<Longrightarrow> named d k \<Longrightarrow> UpdateDeviceSecret DB k d = (y, d') \<Longrightarrow> owner d' = owner d"
    and del_state: "store_invar d \<Longrightarrow> named d k \<Longrightarrow> DeleteDevice ODB em k d = (z, d') \<Longrightarrow>
      store_invar d' \<and> named d' = named d \<and> (up d \<longrightarrow> up d')"
    and del_done: "store_invar d \<Longrightarrow> named d k \<Longrightarrow> DeleteDevice ODB em k d = (None, d') \<Longrightarrow>
      dev d' = (if owner d em k then (dev d)(k := None) else dev d)"
    and del_failed: "store_invar d \<Longrightarrow> named d k \<Longrightarrow> DeleteDevice ODB em k d = (Some e, d') \<Longrightarrow> dev d' = dev d"
    and del_up: "store_invar d \<Longrightarrow> named d k \<Longrightarrow> up d \<Longrightarrow> fst (DeleteDevice ODB em k d) = None"
    and all_state: "store_invar d \<Longrightarrow> DeleteAllDevices ODB em d = (z, d') \<Longrightarrow>
      store_invar d' \<and> named d' = named d \<and> (up d \<longrightarrow> up d')"
    and all_done: "store_invar d \<Longrightarrow> DeleteAllDevices ODB em d = (None, d') \<Longrightarrow>
      dev d' = (\<lambda>k. if owner d em k then None else dev d k) \<and> (\<forall>k. \<not> owner d' em k)"
    and all_failed: "store_invar d \<Longrightarrow> DeleteAllDevices ODB em d = (Some e, d') \<Longrightarrow> dev d' = dev d"
    and save_state: "store_invar d \<Longrightarrow> sec \<noteq> '''' \<Longrightarrow> SaveDeviceSecret ODB em name sec d = (v, d') \<Longrightarrow>
      store_invar d' \<and> named d' = named d \<and> (up d \<longrightarrow> up d')"
    and save_done: "store_invar d \<Longrightarrow> sec \<noteq> '''' \<Longrightarrow> SaveDeviceSecret ODB em name sec d = (Inr k, d') \<Longrightarrow>
      named d k \<and> dev d k = None \<and> dev d' = (dev d)(k \<mapsto> (sec, 1)) \<and> owner d' em k"
    and save_failed: "store_invar d \<Longrightarrow> sec \<noteq> '''' \<Longrightarrow> SaveDeviceSecret ODB em name sec d = (Inl e, d') \<Longrightarrow>
      dev d' = dev d"

locale session_users = session_store +
  fixes UDB :: "'a options_UsersDB"
  assumes name_state: "store_invar d \<Longrightarrow> GetUsername UDB em d = (x, d') \<Longrightarrow>
      store_invar d' \<and> dev d' = dev d \<and> named d' = named d \<and> owner d' = owner d \<and> (up d \<longrightarrow> up d')"
    and create_state: "store_invar d \<Longrightarrow> CreateUser UDB name em d = (y, d') \<Longrightarrow>
      store_invar d' \<and> dev d' = dev d \<and> named d' = named d \<and> owner d' = owner d \<and> (up d \<longrightarrow> up d')"

text \<open>Deleting the account of a user without devices leaves every session alone.\<close>

locale account_users = session_users +
  assumes delete_account: "store_invar d \<Longrightarrow> (\<And>k. \<not> owner d em k) \<Longrightarrow> DeleteUser UDB em d = (z, d') \<Longrightarrow>
      store_invar d' \<and> dev d' = dev d \<and> named d' = named d \<and> owner d' = owner d \<and> (up d \<longrightarrow> up d')"

context session_store begin

lemma verify_keeps:
  assumes "manager_db m = DB" and "store_invar d" and "verifyToken L m now s target d = (x, d')"
  shows "store_invar d' \<and> dev d' = dev d \<and> named d' = named d \<and> owner d' = owner d \<and> (up d \<longrightarrow> up d')"
  using verifyToken_reads [OF assms(3)] get_state [OF assms(2)] get_owner [OF assms(2)] assms(1,2) by auto

text \<open>A deleted device is gone for every token that names it.\<close>

lemma deleted_rejected:
  assumes L: "jwt_laws L" and m: "manager_db m = DB" and d: "store_invar d" "up d" "named d k" "owner d em k"
    and del: "DeleteDevice ODB em k d = (z, d')"
    and c: "carries L s c key" "token_identity c = Some (ty, k, g)" "target = zero_like c"
  shows "\<exists>d''. verifyToken L m now s target d' = ((c, Inl ErrDeviceNotFound), d'')"
proof -
  have "z = None" using del_up [OF d(1,3,2), of em] del by simp
  then have "dev d' k = None" using del_done [OF d(1,3), of em d'] del d(4) by simp
  moreover have "store_invar d'" "up d'" "named d' k" using del_state [OF d(1,3) del] d(2,3) by simp_all
  ultimately show ?thesis using verify_unknown_device [OF L m _ _ c(1,2) _ _ c(3)] by blast
qed

end

end
