(* ===== verification/Cached_DB.thy ===== *)
theory Cached_DB
  imports Database Device_Cache Handler_Options
begin

text \<open>
  \<^verbatim>\<open>server/internal/cache/device/cached_db.go\<close>: the database behind a cache of device secrets.
  \<open>CachedDB\<close> embeds the database and overrides the methods that read or change a
  secret. \<open>secretLoads\<close> is the \<^verbatim>\<open>singleflight\<close> group of the type: for each key the result of the
  load another goroutine has in flight, which a caller that missed the cache shares instead of
  running its own; a call that finds none runs the load itself.

  The main fact: over any reliable cache, \<open>CachedDB\<close> is a \<open>device_store\<close>, so the cache is not
  observable. The invariant behind it is coherence: a cached secret of a canonical
  identifier is the row's secret at the row's generation.
\<close>

record 'c CachedDB =
  cdb_db :: pg
  cache :: 'c
  secretLoads :: "string \<Rightarrow> (go_error + Secret) option"

definition NewCachedDB :: "pg \<Rightarrow> 'c \<Rightarrow> 'c CachedDB" where
  "NewCachedDB db c = \<lparr>cdb_db = db, cache = c, secretLoads = (\<lambda>_. None)\<rparr>"

text \<open>The function handed to \<^verbatim>\<open>secretLoads.Do\<close>.\<close>

definition loadSecret :: "'c SecretCache \<Rightarrow> string \<Rightarrow> 'c CachedDB \<Rightarrow> (go_error + Secret) \<times> 'c CachedDB" where
  "loadSecret SC deviceID d =
     (case Database_GetDeviceSecret deviceID (cdb_db d) of
        (Inl err, p) \<Rightarrow>
          (if errors_Is err ErrNoRows then (Inl ErrDeviceNotFound, d\<lparr>cdb_db := p\<rparr>)
           else (Inl err, d\<lparr>cdb_db := p\<rparr>))
      | (Inr (val, gen), p) \<Rightarrow>
          (let s = \<lparr>Value = val, Generation = gen\<rparr>
           in (Inr s, d\<lparr>cdb_db := p, cache := SetSecret SC (cache d) deviceID s\<rparr>)))"

definition CachedDB_GetDeviceSecret ::
  "'c SecretCache \<Rightarrow> string \<Rightarrow> 'c CachedDB \<Rightarrow> (go_error + (string \<times> int)) \<times> 'c CachedDB" where
  "CachedDB_GetDeviceSecret SC deviceID d =
     (case GetSecret SC (cache d) deviceID of
        (Some s, c) \<Rightarrow> (Inr (Value s, Generation s), d\<lparr>cache := c\<rparr>)
      | (None, c) \<Rightarrow>
          (let d1 = d\<lparr>cache := c\<rparr>
           in case (case secretLoads d1 deviceID of Some r \<Rightarrow> (r, d1) | None \<Rightarrow> loadSecret SC deviceID d1) of
                (Inl err, d2) \<Rightarrow> (Inl err, d2)
              | (Inr s, d2) \<Rightarrow> (Inr (Value s, Generation s), d2)))"

definition CachedDB_UpdateDeviceSecret ::
  "'c SecretCache \<Rightarrow> string \<Rightarrow> 'c CachedDB \<Rightarrow> (go_error + int) \<times> 'c CachedDB" where
  "CachedDB_UpdateDeviceSecret SC deviceID d =
     (case Database_UpdateDeviceSecret deviceID (cdb_db d) of
        (Inl err, p) \<Rightarrow> (Inl err, d\<lparr>cdb_db := p\<rparr>)
      | (Inr gen, p) \<Rightarrow>
          (let put = (\<lambda>s p c. (Inr gen, d\<lparr>cdb_db := p,
                 cache := SetSecret SC c deviceID (s\<lparr>Generation := max (Generation s) gen\<rparr>)\<rparr>))
           in case GetSecret SC (cache d) deviceID of
                (Some s, c) \<Rightarrow> put s p c
              | (None, c) \<Rightarrow>
                  (case Database_GetDeviceSecret deviceID p of
                     (Inl _, p2) \<Rightarrow> (Inr gen, d\<lparr>cdb_db := p2, cache := c\<rparr>)
                   | (Inr (val, current), p2) \<Rightarrow> put \<lparr>Value = val, Generation = current\<rparr> p2 c)))"

definition CachedDB_DeleteDevice ::
  "'c SecretCache \<Rightarrow> string \<Rightarrow> string \<Rightarrow> 'c CachedDB \<Rightarrow> go_error option \<times> 'c CachedDB" where
  "CachedDB_DeleteDevice SC userEmail deviceID d =
     (case Database_DeleteDevice userEmail deviceID (cdb_db d) of
        (Some err, p) \<Rightarrow> (Some err, d\<lparr>cdb_db := p\<rparr>)
      | (None, p) \<Rightarrow> (None, d\<lparr>cdb_db := p, cache := DeleteSecret SC (cache d) deviceID\<rparr>))"

definition CachedDB_DeleteAllDevices ::
  "'c SecretCache \<Rightarrow> string \<Rightarrow> 'c CachedDB \<Rightarrow> go_error option \<times> 'c CachedDB" where
  "CachedDB_DeleteAllDevices SC userEmail d =
     (case Database_DeleteAllDevicesReturningIDs userEmail (cdb_db d) of
        (Inl err, p) \<Rightarrow> (Some err, d\<lparr>cdb_db := p\<rparr>)
      | (Inr ids, p) \<Rightarrow>
          (None, d\<lparr>cdb_db := p, cache := fold (\<lambda>deviceID c. DeleteSecret SC c deviceID) ids (cache d)\<rparr>))"

text \<open>\<^verbatim>\<open>SaveDeviceSecret\<close> is promoted from the embedded database.\<close>

definition CachedDB_SaveDeviceSecret ::
  "string \<Rightarrow> string \<Rightarrow> string \<Rightarrow> 'c CachedDB \<Rightarrow> (go_error + string) \<times> 'c CachedDB" where
  "CachedDB_SaveDeviceSecret userEmail deviceName sec d =
     (case Database_SaveDeviceSecret userEmail deviceName sec (cdb_db d) of (r, p) \<Rightarrow> (r, d\<lparr>cdb_db := p\<rparr>))"

definition CachedDB_methods :: "'c SecretCache \<Rightarrow> ('c CachedDB) jwt_Database" where
  "CachedDB_methods SC = \<lparr>UpdateDeviceSecret = CachedDB_UpdateDeviceSecret SC,
     GetDeviceSecret = CachedDB_GetDeviceSecret SC\<rparr>"

definition CachedDB_DB :: "'c SecretCache \<Rightarrow> ('c CachedDB) options_DB" where
  "CachedDB_DB SC = \<lparr>SaveDeviceSecret = CachedDB_SaveDeviceSecret, DeleteDevice = CachedDB_DeleteDevice SC,
     DeleteAllDevices = CachedDB_DeleteAllDevices SC\<rparr>"

section \<open>Coherence\<close>

definition cdb_dev :: "'c CachedDB \<Rightarrow> string \<rightharpoonup> string \<times> int" where
  "cdb_dev d k = map_option (\<lambda>r. (secret r, generation r)) (device_at (cdb_db d) k)"

definition cdb_named :: "'c CachedDB \<Rightarrow> string \<Rightarrow> bool" where
  "cdb_named d k \<longleftrightarrow> uuid_in (cdb_db d) k = Some k"

definition cdb_owner :: "'c CachedDB \<Rightarrow> string \<Rightarrow> string \<Rightarrow> bool" where
  "cdb_owner d em k \<longleftrightarrow> (\<exists>r. device_at (cdb_db d) k = Some r \<and> email_eq (cdb_db d) (user_email r) em)"

definition cdb_up :: "'c CachedDB \<Rightarrow> bool" where
  "cdb_up d \<longleftrightarrow> pg_up (cdb_db d)"

definition coherent :: "pg \<Rightarrow> (string \<rightharpoonup> Secret) \<Rightarrow> bool" where
  "coherent p l \<longleftrightarrow> (\<forall>k s. uuid_in p k = Some k \<longrightarrow> l k = Some s \<longrightarrow>
     (\<exists>r. device_at p k = Some r \<and> s = \<lparr>Value = secret r, Generation = generation r\<rparr>))"

text \<open>
  The database part of the invariant: the schema's constraints, secrets are not empty (the
  server generates them), and a call that reports an error had no effect.
\<close>

definition pg_invar :: "pg \<Rightarrow> bool" where
  "pg_invar p \<longleftrightarrow> pg_wf p \<and> pg_no_lost_reply p \<and> (\<forall>k r. device_at p k = Some r \<longrightarrow> secret r \<noteq> '''')"

definition cdb_invar :: "('c \<Rightarrow> string \<rightharpoonup> Secret) \<Rightarrow> ('c \<Rightarrow> bool) \<Rightarrow> 'c CachedDB \<Rightarrow> bool" where
  "cdb_invar live cache_invar d \<longleftrightarrow> pg_invar (cdb_db d) \<and> cache_invar (cache d)
     \<and> secretLoads d = (\<lambda>_. None) \<and> coherent (cdb_db d) (live (cache d))"

text \<open>
  The database of a server, whichever cache it was started with, and its invariant: the in-memory cache follows the laws of the library,
  or Redis is reachable.
\<close>

type_synonym ('m, 'r) server_db = "('m memorySecretCache + 'r redisSecretCache) CachedDB"

abbreviation any_invar :: "('m, 'r) server_db \<Rightarrow> bool" where
  "any_invar \<equiv> cdb_invar (case_sum memory_live redis_live) (case_sum memory_invar redis_invar_up)"

section \<open>The database calls under the invariant\<close>

lemma pg_invarI:
  assumes "pg_invar p" and "pg_wf q" and "same_server p q"
    and "\<And>k r. device_at q k = Some r \<Longrightarrow> secret r \<noteq> ''''"
  shows "pg_invar q"
  using assms same_server_no_lost_reply [OF assms(3)] by (simp add: pg_invar_def)

text \<open>
  Every call of a statement that keeps the server and the constraints: either the statement ran
  and the call reports its result, or the tables are as before.
\<close>

lemma pg_call_cases:
  assumes "pg_invar p" and "pg_exec st p = (x, q)"
  obtains (failed) e where "x = Inl e" and "q = p\<lparr>pg_calls := Suc (pg_calls p)\<rparr>"
  | (ran) v q' where "x = Inr v" and "st p = Inr (v, q')" and "q = q'\<lparr>pg_calls := Suc (pg_calls p)\<rparr>"
proof (cases x)
  case (Inl e)
  with assms have "q = p\<lparr>pg_calls := Suc (pg_calls p)\<rparr>" by (auto simp: pg_invar_def intro: pg_exec_Inl)
  with Inl show ?thesis by (rule failed)
next
  case (Inr v)
  with assms(2) obtain q' where "st p = Inr (v, q')" "q = q'\<lparr>pg_calls := Suc (pg_calls p)\<rparr>"
    using pg_exec_Inr [of st p v q] by auto
  with Inr show ?thesis by (rule ran)
qed

lemma pg_call_frame:
  assumes "pg_exec st p = (x, q)" and "\<And>v q'. st p = Inr (v, q') \<Longrightarrow> same_server p q'"
  shows "same_server p q \<and> (pg_up p \<longrightarrow> pg_up q)"
proof -
  have "same_server p q" using assms by (rule exec_same_server)
  moreover have "pg_up q" if "pg_up p" using assms(1) that assms(2) by (rule pg_exec_keeps_up)
  ultimately show ?thesis by blast
qed

lemma db_get:
  assumes "pg_invar p" and "Database_GetDeviceSecret k p = (x, q)"
  shows "pg_invar q \<and> same_server p q \<and> (pg_up p \<longrightarrow> pg_up q) \<and> device_at q = device_at p
    \<and> (\<forall>sg. x = Inr sg \<longrightarrow> (\<exists>j r. uuid_in p k = Some j \<and> device_at p j = Some r \<and> sg = (secret r, generation r)))"
proof -
  from assms(2) have call: "pg_exec (select_secret k) p = (x, q)" by (simp add: Database_GetDeviceSecret_def)
  have frame: "same_server p q \<and> (pg_up p \<longrightarrow> pg_up q)"
    using call by (rule pg_call_frame) (rule stmt_same_server(3))
  have dev: "device_at q = device_at p \<and> (\<forall>sg. x = Inr sg \<longrightarrow>
      (\<exists>j r. uuid_in p k = Some j \<and> device_at p j = Some r \<and> sg = (secret r, generation r)))"
    using assms(1) call
    by (rule pg_call_cases) (auto simp: select_secret_def device_at_def split: option.splits)
  have "pg_wf q" using pg_wf_methods(3) [of p k] assms(1) call by (simp add: pg_invar_def)
  moreover have "\<And>i r. device_at q i = Some r \<Longrightarrow> secret r \<noteq> ''''"
    using dev assms(1) by (simp add: pg_invar_def)
  ultimately show ?thesis using pg_invarI [OF assms(1)] frame dev by blast
qed

lemma db_get_up:
  assumes "pg_up p" and "uuid_in p k = Some k"
  shows "fst (Database_GetDeviceSecret k p) =
    (case device_at p k of None \<Rightarrow> Inl ErrNoRows | Some r \<Rightarrow> Inr (secret r, generation r))"
  using assms by (auto simp: Database_GetDeviceSecret_def pg_exec_up select_secret_def device_at_def
      split: option.splits)

lemma db_update:
  assumes "pg_invar p" and "Database_UpdateDeviceSecret k p = (x, q)"
  shows "pg_invar q \<and> same_server p q \<and> (pg_up p \<longrightarrow> pg_up q)
    \<and> (\<forall>n. x = Inr n \<longrightarrow> (\<exists>j r now. uuid_in p k = Some j \<and> device_at p j = Some r \<and> n = generation r + 1
         \<and> device_at q = (device_at p)(j \<mapsto> r\<lparr>generation := n, updated_at := now\<rparr>)))
    \<and> (\<forall>e. x = Inl e \<longrightarrow> device_at q = device_at p)"
proof -
  from assms(2) have call: "pg_exec (update_device k) p = (x, q)" by (simp add: Database_UpdateDeviceSecret_def)
  have frame: "same_server p q \<and> (pg_up p \<longrightarrow> pg_up q)"
    using call by (rule pg_call_frame) (rule stmt_same_server(2))
  have dev: "(\<forall>n. x = Inr n \<longrightarrow> (\<exists>j r now. uuid_in p k = Some j \<and> device_at p j = Some r \<and> n = generation r + 1
         \<and> device_at q = (device_at p)(j \<mapsto> r\<lparr>generation := n, updated_at := now\<rparr>)))
    \<and> (\<forall>e. x = Inl e \<longrightarrow> device_at q = device_at p)"
    using assms(1) call by (rule pg_call_cases) (auto dest!: update_device_view)
  have "pg_wf q" using pg_wf_methods(2) [of p k] assms(1) call by (simp add: pg_invar_def)
  moreover have "secret r \<noteq> ''''" if "device_at q i = Some r" for i r
    using that dev assms(1) by (cases x) (fastforce simp: pg_invar_def split: if_splits)+
  ultimately show ?thesis using pg_invarI [OF assms(1)] frame dev by blast
qed

lemma db_delete:
  assumes "pg_invar p" and "Database_DeleteDevice em k p = (x, q)"
  shows "pg_invar q \<and> same_server p q \<and> (pg_up p \<longrightarrow> pg_up q)
    \<and> (x = None \<longrightarrow> (\<exists>j. uuid_in p k = Some j \<and> device_at q = (\<lambda>i. case device_at p i of None \<Rightarrow> None
         | Some r \<Rightarrow> if i = j \<and> email_eq p (user_email r) em then None else Some r)))
    \<and> (\<forall>e. x = Some e \<longrightarrow> device_at q = device_at p)"
proof -
  from assms(2) obtain y where call: "pg_exec (delete_device em k) p = (y, q)"
    and x: "x = (case y of Inl e \<Rightarrow> Some e | Inr _ \<Rightarrow> None)"
    by (auto simp: Database_DeleteDevice_def split: prod.splits sum.splits)
  from assms(1) have wf: "pg_wf p" by (simp add: pg_invar_def)
  have frame: "same_server p q \<and> (pg_up p \<longrightarrow> pg_up q)"
    using call by (rule pg_call_frame) (rule stmt_same_server(4))
  have dev: "(x = None \<longrightarrow> (\<exists>j. uuid_in p k = Some j \<and> device_at q = (\<lambda>i. case device_at p i of None \<Rightarrow> None
         | Some r \<Rightarrow> if i = j \<and> email_eq p (user_email r) em then None else Some r)))
    \<and> (\<forall>e. x = Some e \<longrightarrow> device_at q = device_at p)"
    using assms(1) call by (rule pg_call_cases) (auto simp: x dest!: delete_device_view [OF wf])
  have "pg_wf q" using pg_wf_methods(4) [OF wf, of em k] call by simp
  moreover have "secret r \<noteq> ''''" if "device_at q i = Some r" for i r
    using that dev assms(1) by (cases x) (auto simp: pg_invar_def split: option.splits if_splits)
  ultimately show ?thesis using pg_invarI [OF assms(1)] frame dev by blast
qed

lemma db_delete_all:
  assumes "pg_invar p" and "Database_DeleteAllDevicesReturningIDs em p = (x, q)"
  shows "pg_invar q \<and> same_server p q \<and> (pg_up p \<longrightarrow> pg_up q)
    \<and> (\<forall>ids. x = Inr ids \<longrightarrow> set ids = {j. \<exists>r. device_at p j = Some r \<and> email_eq p (user_email r) em}
        \<and> device_at q = (\<lambda>j. if j \<in> set ids then None else device_at p j))
    \<and> (\<forall>e. x = Inl e \<longrightarrow> device_at q = device_at p)"
proof -
  from assms(2) have call: "pg_exec (delete_all_devices em) p = (x, q)"
    by (simp add: Database_DeleteAllDevicesReturningIDs_def)
  from assms(1) have wf: "pg_wf p" by (simp add: pg_invar_def)
  have frame: "same_server p q \<and> (pg_up p \<longrightarrow> pg_up q)"
    using call by (rule pg_call_frame) (rule stmt_same_server(5))
  have dev: "(\<forall>ids. x = Inr ids \<longrightarrow> set ids = {j. \<exists>r. device_at p j = Some r \<and> email_eq p (user_email r) em}
        \<and> device_at q = (\<lambda>j. if j \<in> set ids then None else device_at p j))
    \<and> (\<forall>e. x = Inl e \<longrightarrow> device_at q = device_at p)"
    using assms(1) call
  proof (rule pg_call_cases)
    fix v q' assume "x = Inr v" "delete_all_devices em p = Inr (v, q')" "q = q'\<lparr>pg_calls := Suc (pg_calls p)\<rparr>"
    with delete_all_devices_view [OF wf, of em v q'] show ?thesis by auto
  qed simp
  have "pg_wf q" using pg_wf_methods(5) [OF wf, of em] call by simp
  moreover have "secret r \<noteq> ''''" if "device_at q i = Some r" for i r
    using that dev assms(1) by (cases x) (auto simp: pg_invar_def split: if_splits)
  ultimately show ?thesis using pg_invarI [OF assms(1)] frame dev by blast
qed

lemma db_save:
  assumes "pg_invar p" and "sec \<noteq> ''''" and "Database_SaveDeviceSecret em name sec p = (x, q)"
  shows "pg_invar q \<and> same_server p q \<and> (pg_up p \<longrightarrow> pg_up q)
    \<and> (\<forall>k. x = Inr k \<longrightarrow> uuid_in p k = Some k \<and> device_at p k = None
        \<and> (\<exists>now. device_at q = (device_at p)(k \<mapsto> \<lparr>device_id = k, device_name = name, user_email = em,
             secret = sec, generation = 1, updated_at = now\<rparr>)))
    \<and> (\<forall>e. x = Inl e \<longrightarrow> device_at q = device_at p)"
proof -
  obtain y q0 where call0: "pg_exec (insert_device name em sec) p = (y, q0)" by fastforce
  with assms(3) have "q = q0" by (auto simp: Database_SaveDeviceSecret_def split: sum.splits option.splits if_splits)
  with call0 have call: "pg_exec (insert_device name em sec) p = (y, q)" by simp
  have x: "x = Inr k \<longleftrightarrow> y = Inr k" for k
    using assms(3) call by (cases y) (auto simp: Database_SaveDeviceSecret_def split: option.splits if_splits)
  from assms(1) have wf: "pg_wf p" by (simp add: pg_invar_def)
  then have uuid: "uuid_in p (gen_random_uuid p n) = Some (gen_random_uuid p n)" for n
    by (simp add: pg_wf_def pg_server_ok_def)
  have frame: "same_server p q \<and> (pg_up p \<longrightarrow> pg_up q)"
    using call by (rule pg_call_frame) (rule stmt_same_server(1))
  have dev: "(\<forall>k. y = Inr k \<longrightarrow> uuid_in p k = Some k \<and> device_at p k = None
        \<and> (\<exists>now. device_at q = (device_at p)(k \<mapsto> \<lparr>device_id = k, device_name = name, user_email = em,
             secret = sec, generation = 1, updated_at = now\<rparr>)))
    \<and> (\<forall>e. y = Inl e \<longrightarrow> device_at q = device_at p)"
    using assms(1) call
  proof (rule pg_call_cases)
    fix v q' assume "y = Inr v" "insert_device name em sec p = Inr (v, q')" "q = q'\<lparr>pg_calls := Suc (pg_calls p)\<rparr>"
    with insert_device_view [of name em sec p v q'] uuid show ?thesis by auto
  qed simp
  have "pg_wf q" using pg_wf_methods(1) [OF wf, of name em sec] call by simp
  moreover have "secret r \<noteq> ''''" if "device_at q i = Some r" for i r
    using that dev assms(1,2) by (cases y) (auto simp: pg_invar_def split: if_splits)
  ultimately have "pg_invar q" using pg_invarI [OF assms(1)] frame by blast
  moreover have "\<exists>e'. y = Inl e'" if "x = Inl e" for e using x that by (cases y) auto
  ultimately show ?thesis using frame dev x by blast
qed

lemma row_good_secret:
  assumes "pg_invar p" and "device_at p k = Some r"
  shows "good_secret \<lparr>Value = secret r, Generation = generation r\<rparr>"
proof -
  from device_at_SomeD [OF assms(2)] have "r \<in> set (auth_user_devices p)" by simp
  with assms show ?thesis by (auto simp: good_secret_def pg_invar_def pg_wf_def MaxInt32_def)
qed

lemma coherent_mono: "coherent p l \<Longrightarrow> l' \<subseteq>\<^sub>m l \<Longrightarrow> coherent p l'"
  unfolding coherent_def by (blast dest: map_le_lookup)

lemma coherent_same:
  "same_server p q \<Longrightarrow> device_at q = device_at p \<Longrightarrow> coherent q l = coherent p l"
  by (simp add: coherent_def same_server_def)

section \<open>The cached database is a device store\<close>

context secret_cache begin

text \<open>A secret of the current row may be written to the cache.\<close>

lemma coherent_set:
  assumes "cache_invar c" and "coherent p (live c)" and "pg_invar p"
    and "uuid_in p k = Some j" and "device_at p j = Some r"
    and "s = \<lparr>Value = secret r, Generation = generation r\<rparr>"
  shows "coherent p (live (SetSecret SC c k s)) \<and> cache_invar (SetSecret SC c k s)"
proof -
  have good: "good_secret s" using row_good_secret [OF assms(3,5)] by (simp add: assms(6))
  show ?thesis
    using set_invar [OF assms(1) good] set_other [OF assms(1) good] assms(2,4-6)
    unfolding coherent_def by fastforce
qed

lemma load_done:
  assumes inv: "cdb_invar live cache_invar d" and load: "loadSecret SC k d = (x, d')"
  shows "cdb_invar live cache_invar d' \<and> cdb_dev d' = cdb_dev d \<and> cdb_named d' = cdb_named d
    \<and> (cdb_up d \<longrightarrow> cdb_up d') \<and> (\<forall>s. x = Inr s \<longrightarrow> cdb_named d k \<longrightarrow> cdb_dev d k = Some (Value s, Generation s))"
proof -
  obtain y p where call: "Database_GetDeviceSecret k (cdb_db d) = (y, p)" by fastforce
  from inv have p: "pg_invar (cdb_db d)" and c: "cache_invar (cache d)" and l: "secretLoads d = (\<lambda>_. None)"
    and coh: "coherent (cdb_db d) (live (cache d))" by (auto simp: cdb_invar_def)
  note get = db_get [OF p call]
  from get coherent_same have coh': "coherent p (live (cache d))" using coh by blast
  show ?thesis
  proof (cases y)
    case (Inl e)
    with load call have d': "d' = d\<lparr>cdb_db := p\<rparr>" and "\<exists>e'. x = Inl e'"
      by (auto simp: loadSecret_def split: if_splits)
    with get coh' c l show ?thesis
      by (auto simp: cdb_invar_def cdb_dev_def cdb_named_def cdb_up_def same_server_def fun_eq_iff)
  next
    case (Inr sg)
    with get obtain j r where r: "uuid_in (cdb_db d) k = Some j" "device_at (cdb_db d) j = Some r"
      and sg: "sg = (secret r, generation r)" by blast
    let ?s = "\<lparr>Value = secret r, Generation = generation r\<rparr>"
    from Inr load call sg have d': "d' = d\<lparr>cdb_db := p, cache := SetSecret SC (cache d) k ?s\<rparr>" and x: "x = Inr ?s"
      by (auto simp: loadSecret_def Let_def)
    from get r have "uuid_in p k = Some j" "device_at p j = Some r" by (auto simp: same_server_def)
    with coherent_set [OF c coh'] get have "coherent p (live (SetSecret SC (cache d) k ?s))"
      and "cache_invar (SetSecret SC (cache d) k ?s)" by blast+
    with get d' x r l show ?thesis
      by (auto simp: cdb_invar_def cdb_dev_def cdb_named_def cdb_up_def same_server_def fun_eq_iff)
  qed
qed

lemma cdb_get:
  assumes inv: "cdb_invar live cache_invar d" and get: "CachedDB_GetDeviceSecret SC k d = (x, d')"
  shows "cdb_invar live cache_invar d' \<and> cdb_dev d' = cdb_dev d \<and> cdb_named d' = cdb_named d
    \<and> (cdb_up d \<longrightarrow> cdb_up d') \<and> (\<forall>sg. x = Inr sg \<longrightarrow> cdb_named d k \<longrightarrow> cdb_dev d k = Some sg)"
proof -
  obtain h c where hit: "GetSecret SC (cache d) k = (h, c)" by fastforce
  let ?d = "d\<lparr>cache := c\<rparr>"
  from inv have "cache_invar (cache d)" by (simp add: cdb_invar_def)
  from get_live [OF this hit] inv coherent_mono have d1: "cdb_invar live cache_invar ?d"
    by (auto simp: cdb_invar_def)
  have eq: "cdb_dev ?d = cdb_dev d" "cdb_named ?d = cdb_named d" "cdb_up ?d = cdb_up d"
    by (simp_all add: cdb_dev_def cdb_named_def cdb_up_def fun_eq_iff)
  show ?thesis
  proof (cases h)
    case (Some s)
    with get_sound [OF \<open>cache_invar (cache d)\<close>] hit have "live (cache d) k = Some s" by blast
    with inv have "cdb_named d k \<Longrightarrow> cdb_dev d k = Some (Value s, Generation s)"
      by (fastforce simp: cdb_invar_def coherent_def cdb_named_def cdb_dev_def)
    moreover from get hit Some have "x = Inr (Value s, Generation s)" "d' = ?d"
      by (simp_all add: CachedDB_GetDeviceSecret_def)
    ultimately show ?thesis using d1 eq by auto
  next
    case None
    obtain y d2 where load: "loadSecret SC k ?d = (y, d2)" by fastforce
    with get hit None inv have "d' = d2" "x = (case y of Inl e \<Rightarrow> Inl e | Inr s \<Rightarrow> Inr (Value s, Generation s))"
      by (auto simp: CachedDB_GetDeviceSecret_def cdb_invar_def split: sum.splits)
    with load_done [OF d1 load] eq show ?thesis by (auto split: sum.splits)
  qed
qed

text \<open>With the database up, a lookup finds the device or reports that there is none.\<close>

lemma cdb_get_up:
  assumes inv: "cdb_invar live cache_invar d" and up: "cdb_up d" and k: "cdb_named d k"
  shows "fst (CachedDB_GetDeviceSecret SC k d) =
    (case cdb_dev d k of None \<Rightarrow> Inl ErrDeviceNotFound | Some sg \<Rightarrow> Inr sg)"
proof -
  obtain x d' where get: "CachedDB_GetDeviceSecret SC k d = (x, d')" by fastforce
  show ?thesis
  proof (cases x)
    case (Inr sg)
    with cdb_get [OF inv get] k get show ?thesis by simp
  next
    case (Inl e)
    obtain h c where hit: "GetSecret SC (cache d) k = (h, c)" by fastforce
    from db_get_up [of "cdb_db d" k] up k obtain p where
      call: "Database_GetDeviceSecret k (cdb_db d) =
        (case device_at (cdb_db d) k of None \<Rightarrow> Inl ErrNoRows | Some r \<Rightarrow> Inr (secret r, generation r), p)"
      by (metis cdb_up_def cdb_named_def prod.collapse)
    from inv Inl get hit have "h = None" "fst (loadSecret SC k (d\<lparr>cache := c\<rparr>)) = Inl e"
      by (auto simp: CachedDB_GetDeviceSecret_def cdb_invar_def split: option.splits sum.splits prod.splits)
    with call get Inl show ?thesis
      by (auto simp: loadSecret_def cdb_dev_def Let_def split: option.splits)
  qed
qed

end

context reliable_secret_cache begin

text \<open>After a row moved on, writing its new secret makes the cache coherent again.\<close>

lemma coherent_bump:
  assumes c: "cache_invar c" and rest: "coherent p ((live c)(k := None))" and p: "pg_invar p"
    and r: "device_at p k = Some r" and s: "s = \<lparr>Value = secret r, Generation = generation r\<rparr>"
    and old: "\<And>t. live c k = Some t \<Longrightarrow> Generation t < Generation s"
  shows "coherent p (live (SetSecret SC c k s)) \<and> cache_invar (SetSecret SC c k s)"
proof -
  have good: "good_secret s" using row_good_secret [OF p r] by (simp add: s)
  have new: "t = s" if t: "live (SetSecret SC c k s) k = Some t" for t
    using set_other [OF c good t] old [of t] set_newest [OF c good t] by auto
  have "\<exists>r. device_at p i = Some r \<and> t = \<lparr>Value = secret r, Generation = generation r\<rparr>"
    if i: "uuid_in p i = Some i" and t: "live (SetSecret SC c k s) i = Some t" for i t
  proof (cases "i = k")
    case True
    with new t r s show ?thesis by auto
  next
    case False
    with set_other [OF c good t] have "((live c)(k := None)) i = Some t" by simp
    with rest i show ?thesis unfolding coherent_def by blast
  qed
  with set_invar [OF c good] show ?thesis unfolding coherent_def by blast
qed

lemma cdb_update_done:
  assumes inv: "cdb_invar live cache_invar d" and k: "cdb_named d k"
    and call: "Database_UpdateDeviceSecret k (cdb_db d) = (Inr n, p)"
    and upd: "CachedDB_UpdateDeviceSecret SC k d = (x, d')"
  shows "x = Inr n \<and> cdb_invar live cache_invar d' \<and> same_server p (cdb_db d')
    \<and> device_at (cdb_db d') = device_at p \<and> (pg_up p \<longrightarrow> cdb_up d')"
proof -
  from inv have inv': "pg_invar (cdb_db d)" "cache_invar (cache d)" "secretLoads d = (\<lambda>_. None)"
    "coherent (cdb_db d) (live (cache d))" by (auto simp: cdb_invar_def)
  from db_update [OF inv'(1) call] k obtain r now where r: "device_at (cdb_db d) k = Some r"
    and n: "n = generation r + 1" and p: "pg_invar p" "same_server (cdb_db d) p"
    and dev: "device_at p = (device_at (cdb_db d))(k \<mapsto> r\<lparr>generation := n, updated_at := now\<rparr>)"
    by (auto simp: cdb_named_def)
  then have row: "device_at p k = Some (r\<lparr>generation := n, updated_at := now\<rparr>)" by simp
  obtain h c where hit: "GetSecret SC (cache d) k = (h, c)" by fastforce
  note c = get_live [OF inv'(2) hit]
  from coherent_mono [OF inv'(4)] c have coh: "coherent (cdb_db d) (live c)" by blast
  with p(2) dev have rest: "coherent p ((live c)(k := None))"
    by (auto simp: coherent_def same_server_def)
  have live_k: "t = \<lparr>Value = secret r, Generation = generation r\<rparr>" if "live c k = Some t" for t
    using coh that k r by (auto simp: coherent_def cdb_named_def)
  let ?s = "\<lparr>Value = secret r, Generation = n\<rparr>"
  have bump: "coherent p (live (SetSecret SC c k ?s)) \<and> cache_invar (SetSecret SC c k ?s)"
    using c rest p(1) row by (intro coherent_bump) (auto dest: live_k simp: n)
  show ?thesis
  proof (cases h)
    case (Some s)
    with get_sound [OF inv'(2)] hit inv'(4) k r have "s = \<lparr>Value = secret r, Generation = generation r\<rparr>"
      by (fastforce simp: coherent_def cdb_named_def)
    with upd call hit Some n have "x = Inr n" "d' = d\<lparr>cdb_db := p, cache := SetSecret SC c k ?s\<rparr>"
      by (auto simp: CachedDB_UpdateDeviceSecret_def Let_def)
    with bump p(1) inv'(3) show ?thesis by (simp add: cdb_invar_def cdb_up_def)
  next
    case None
    obtain y q where get: "Database_GetDeviceSecret k p = (y, q)" by fastforce
    note q = db_get [OF p(1) get]
    have same: "coherent q l = coherent p l" for l using q coherent_same by blast
    from rest get_miss [OF inv'(2)] hit None have "coherent p (live c)"
      by (metis fun_upd_triv)
    moreover have "y = Inr (Value ?s, n)" if "y = Inr sg" for sg
      using q row that p(2) k by (auto simp: cdb_named_def same_server_def)
    then have "x = Inr n \<and> (d' = d\<lparr>cdb_db := q, cache := c\<rparr> \<or> d' = d\<lparr>cdb_db := q, cache := SetSecret SC c k ?s\<rparr>)"
      using upd call hit None get
      by (cases y) (auto simp: CachedDB_UpdateDeviceSecret_def Let_def)
    ultimately show ?thesis using bump q c inv'(3) same by (auto simp: cdb_invar_def cdb_up_def)
  qed
qed

lemma cdb_update:
  assumes inv: "cdb_invar live cache_invar d" and k: "cdb_named d k"
    and upd: "CachedDB_UpdateDeviceSecret SC k d = (x, d')"
  shows "cdb_invar live cache_invar d' \<and> cdb_named d' = cdb_named d \<and> (cdb_up d \<longrightarrow> cdb_up d')
    \<and> (\<forall>n. x = Inr n \<longrightarrow> (\<exists>s g. cdb_dev d k = Some (s, g) \<and> n = g + 1 \<and> cdb_dev d' = (cdb_dev d)(k \<mapsto> (s, g + 1))))
    \<and> (\<forall>e. x = Inl e \<longrightarrow> cdb_dev d' = cdb_dev d)"
proof -
  obtain y p where call: "Database_UpdateDeviceSecret k (cdb_db d) = (y, p)" by fastforce
  from inv have "pg_invar (cdb_db d)" by (simp add: cdb_invar_def)
  note db = db_update [OF this call]
  show ?thesis
  proof (cases y)
    case (Inl e)
    with upd call have "x = Inl e" "d' = d\<lparr>cdb_db := p\<rparr>" by (simp_all add: CachedDB_UpdateDeviceSecret_def)
    with db Inl inv coherent_same [of "cdb_db d" p] show ?thesis
      by (auto simp: cdb_invar_def cdb_named_def cdb_up_def cdb_dev_def same_server_def fun_eq_iff)
  next
    case (Inr n)
    note fin = cdb_update_done [OF inv k call [unfolded Inr] upd]
    from db Inr k obtain r now where "device_at (cdb_db d) k = Some r" "n = generation r + 1"
      "device_at p = (device_at (cdb_db d))(k \<mapsto> r\<lparr>generation := n, updated_at := now\<rparr>)"
      by (auto simp: cdb_named_def)
    with fin db show ?thesis
      by (auto simp: cdb_named_def cdb_up_def cdb_dev_def same_server_def fun_eq_iff)
  qed
qed

lemma cdb_delete:
  assumes inv: "cdb_invar live cache_invar d" and k: "cdb_named d k"
    and del: "CachedDB_DeleteDevice SC em k d = (x, d')"
  shows "cdb_invar live cache_invar d' \<and> cdb_named d' = cdb_named d \<and> (cdb_up d \<longrightarrow> cdb_up d')
    \<and> (x = None \<longrightarrow> cdb_dev d' = (if cdb_owner d em k then (cdb_dev d)(k := None) else cdb_dev d))
    \<and> (\<forall>e. x = Some e \<longrightarrow> cdb_dev d' = cdb_dev d)"
proof -
  obtain y p where call: "Database_DeleteDevice em k (cdb_db d) = (y, p)" by fastforce
  from inv have i: "pg_invar (cdb_db d)" "cache_invar (cache d)" "secretLoads d = (\<lambda>_. None)"
    "coherent (cdb_db d) (live (cache d))" by (auto simp: cdb_invar_def)
  note db = db_delete [OF i(1) call]
  show ?thesis
  proof (cases y)
    case (Some e)
    with del call have "x = Some e" "d' = d\<lparr>cdb_db := p\<rparr>" by (simp_all add: CachedDB_DeleteDevice_def)
    with db Some i coherent_same [of "cdb_db d" p] show ?thesis
      by (auto simp: cdb_invar_def cdb_named_def cdb_up_def cdb_dev_def same_server_def fun_eq_iff)
  next
    case None
    with db k have dev: "device_at p = (\<lambda>i. case device_at (cdb_db d) i of None \<Rightarrow> None
        | Some r \<Rightarrow> if i = k \<and> email_eq (cdb_db d) (user_email r) em then None else Some r)"
      by (auto simp: cdb_named_def)
    from None del call have d': "x = None" "d' = d\<lparr>cdb_db := p, cache := DeleteSecret SC (cache d) k\<rparr>"
      by (simp_all add: CachedDB_DeleteDevice_def)
    note cl = del_live [OF i(2), of k] del_gone [OF i(2), of k]
    have "coherent (cdb_db d) (live (DeleteSecret SC (cache d) k))" using coherent_mono [OF i(4)] cl by blast
    with cl(2) db dev have "coherent p (live (DeleteSecret SC (cache d) k))"
      by (fastforce simp: coherent_def same_server_def split: option.splits)
    with d' db dev cl i show ?thesis
      by (auto simp: cdb_invar_def cdb_named_def cdb_up_def cdb_dev_def cdb_owner_def same_server_def
          fun_eq_iff split: option.splits)
  qed
qed

lemma delete_fold:
  assumes "cache_invar c"
  shows "live (fold (\<lambda>k c. DeleteSecret SC c k) ks c) \<subseteq>\<^sub>m live c
    \<and> cache_invar (fold (\<lambda>k c. DeleteSecret SC c k) ks c)
    \<and> (\<forall>k\<in>set ks. live (fold (\<lambda>k c. DeleteSecret SC c k) ks c) k = None)"
  using assms
proof (induction ks arbitrary: c)
  case (Cons k ks)
  note del = del_live [OF Cons.prems, of k] del_gone [OF Cons.prems, of k]
  then have "cache_invar (DeleteSecret SC c k)" by blast
  note ih = Cons.IH [OF this]
  with del show ?case
    by (auto intro: map_le_trans dest: map_le_emptied)
qed simp

lemma cdb_delete_all:
  assumes inv: "cdb_invar live cache_invar d" and del: "CachedDB_DeleteAllDevices SC em d = (x, d')"
  shows "cdb_invar live cache_invar d' \<and> cdb_named d' = cdb_named d \<and> (cdb_up d \<longrightarrow> cdb_up d')
    \<and> (x = None \<longrightarrow> cdb_dev d' = (\<lambda>k. if cdb_owner d em k then None else cdb_dev d k) \<and> (\<forall>k. \<not> cdb_owner d' em k))
    \<and> (\<forall>e. x = Some e \<longrightarrow> cdb_dev d' = cdb_dev d)"
proof -
  obtain y p where call: "Database_DeleteAllDevicesReturningIDs em (cdb_db d) = (y, p)" by fastforce
  from inv have i: "pg_invar (cdb_db d)" "cache_invar (cache d)" "secretLoads d = (\<lambda>_. None)"
    "coherent (cdb_db d) (live (cache d))" by (auto simp: cdb_invar_def)
  note db = db_delete_all [OF i(1) call]
  show ?thesis
  proof (cases y)
    case (Inl e)
    with del call have "x = Some e" "d' = d\<lparr>cdb_db := p\<rparr>" by (simp_all add: CachedDB_DeleteAllDevices_def)
    with db Inl i coherent_same [of "cdb_db d" p] show ?thesis
      by (auto simp: cdb_invar_def cdb_named_def cdb_up_def cdb_dev_def same_server_def fun_eq_iff)
  next
    case (Inr ids)
    let ?c = "fold (\<lambda>k c. DeleteSecret SC c k) ids (cache d)"
    from db Inr have ids: "set ids = {j. cdb_owner d em j}" and dev: "device_at p = (\<lambda>j. if j \<in> set ids then None else device_at (cdb_db d) j)"
      by (auto simp: cdb_owner_def)
    from Inr del call have d': "x = None" "d' = d\<lparr>cdb_db := p, cache := ?c\<rparr>"
      by (simp_all add: CachedDB_DeleteAllDevices_def)
    note cl = delete_fold [OF i(2), of ids]
    have "coherent (cdb_db d) (live ?c)" using coherent_mono [OF i(4)] cl by blast
    with cl db dev have "coherent p (live ?c)" by (fastforce simp: coherent_def same_server_def)
    moreover have "\<not> cdb_owner d' em j" for j
      using dev ids db by (auto simp: d' cdb_owner_def same_server_def)
    ultimately show ?thesis
      using d' db dev cl i ids
      by (auto simp: cdb_invar_def cdb_named_def cdb_up_def cdb_dev_def same_server_def fun_eq_iff)
  qed
qed

lemma cdb_save:
  assumes inv: "cdb_invar live cache_invar d" and sec: "sec \<noteq> ''''"
    and save: "CachedDB_SaveDeviceSecret em name sec d = (x, d')"
  shows "cdb_invar live cache_invar d' \<and> cdb_named d' = cdb_named d \<and> (cdb_up d \<longrightarrow> cdb_up d')
    \<and> (\<forall>k. x = Inr k \<longrightarrow> cdb_named d k \<and> cdb_dev d k = None \<and> cdb_dev d' = (cdb_dev d)(k \<mapsto> (sec, 1))
        \<and> cdb_owner d' em k)
    \<and> (\<forall>e. x = Inl e \<longrightarrow> cdb_dev d' = cdb_dev d)"
proof -
  from save obtain p where call: "Database_SaveDeviceSecret em name sec (cdb_db d) = (x, p)"
    and d': "d' = d\<lparr>cdb_db := p\<rparr>" by (auto simp: CachedDB_SaveDeviceSecret_def split: prod.splits)
  from inv have i: "pg_invar (cdb_db d)" "cache_invar (cache d)" "secretLoads d = (\<lambda>_. None)"
    "coherent (cdb_db d) (live (cache d))" by (auto simp: cdb_invar_def)
  note db = db_save [OF i(1) sec call]
  have refl: "email_eq p em em"
    using db by (auto simp: pg_invar_def pg_wf_def pg_server_ok_def dest: equivp_reflp)
  have "coherent p (live (cache d))"
  proof (cases x)
    case (Inl e)
    with db coherent_same i(4) show ?thesis by blast
  next
    case (Inr k)
    with db i(4) show ?thesis by (fastforce simp: coherent_def same_server_def)
  qed
  with d' db i have "cdb_invar live cache_invar d'" "cdb_named d' = cdb_named d" "cdb_up d \<longrightarrow> cdb_up d'"
    by (simp_all add: cdb_invar_def cdb_named_def cdb_up_def same_server_def fun_eq_iff)
  moreover have "cdb_named d k \<and> cdb_dev d k = None \<and> cdb_dev d' = (cdb_dev d)(k \<mapsto> (sec, 1)) \<and> cdb_owner d' em k"
    if "x = Inr k" for k
    using db that refl by (auto simp: d' cdb_named_def cdb_dev_def cdb_owner_def fun_eq_iff)
  moreover have "cdb_dev d' = cdb_dev d" if "x = Inl e" for e
    using db that by (simp add: d' cdb_dev_def fun_eq_iff)
  ultimately show ?thesis by blast
qed

end

sublocale reliable_secret_cache \<subseteq>
  cached: device_store "CachedDB_methods SC" cdb_dev cdb_named "cdb_invar live cache_invar" cdb_up
proof (unfold_locales, goal_cases)
  case (1 d k x d')
  then show ?case using cdb_get [of d k x d'] by (simp add: CachedDB_methods_def)
next
  case (2 d k sg d')
  then show ?case using cdb_get [of d k "Inr sg" d'] by (simp add: CachedDB_methods_def)
next
  case (3 d k sg)
  then have "cdb_named d k"
    using device_at_canonical [of "cdb_db d" k]
    by (auto simp: cdb_dev_def cdb_named_def cdb_invar_def pg_invar_def)
  with 3 show ?case using cdb_get_up [of d k] by (simp add: CachedDB_methods_def)
next
  case (4 d k)
  then show ?case using cdb_get_up [of d k] by (simp add: CachedDB_methods_def)
next
  case (5 d k y d')
  then show ?case using cdb_update [of d k y d'] by (simp add: CachedDB_methods_def)
next
  case (6 d k n d')
  then show ?case using cdb_update [of d k "Inr n" d'] by (simp add: CachedDB_methods_def)
next
  case (7 d k e d')
  then show ?case using cdb_update [of d k "Inl e" d'] by (simp add: CachedDB_methods_def)
qed

text \<open>Ownership is only in the database.\<close>

lemma owner_same:
  "same_server (cdb_db d) (cdb_db d') \<Longrightarrow> device_at (cdb_db d') = device_at (cdb_db d) \<Longrightarrow> cdb_owner d' = cdb_owner d"
  by (simp add: cdb_owner_def same_server_def fun_eq_iff)

lemma cdb_get_owner:
  assumes "pg_invar (cdb_db d)" and "CachedDB_GetDeviceSecret SC k d = (x, d')"
  shows "cdb_owner d' = cdb_owner d"
proof -
  obtain y p where call: "Database_GetDeviceSecret k (cdb_db d) = (y, p)" by fastforce
  with assms(2) have "cdb_db d' = cdb_db d \<or> cdb_db d' = p"
    by (auto simp: CachedDB_GetDeviceSecret_def loadSecret_def Let_def
        split: prod.splits option.splits sum.splits if_splits)
  with db_get [OF assms(1) call] owner_same show ?thesis by (metis same_server_refl)
qed

context reliable_secret_cache begin

lemma cdb_update_owner:
  assumes inv: "cdb_invar live cache_invar d" and k: "cdb_named d k"
    and upd: "CachedDB_UpdateDeviceSecret SC k d = (x, d')"
  shows "cdb_owner d' = cdb_owner d"
proof -
  obtain y p where call: "Database_UpdateDeviceSecret k (cdb_db d) = (y, p)" by fastforce
  from inv have p: "pg_invar (cdb_db d)" by (simp add: cdb_invar_def)
  note db = db_update [OF p call]
  show ?thesis
  proof (cases y)
    case (Inl e)
    with upd call have "d' = d\<lparr>cdb_db := p\<rparr>" by (simp add: CachedDB_UpdateDeviceSecret_def)
    with db Inl show ?thesis by (intro owner_same) auto
  next
    case (Inr n)
    from db Inr k obtain r now where "device_at (cdb_db d) k = Some r"
      "device_at p = (device_at (cdb_db d))(k \<mapsto> r\<lparr>generation := n, updated_at := now\<rparr>)"
      by (auto simp: cdb_named_def)
    with cdb_update_done [OF inv k call [unfolded Inr] upd] db show ?thesis
      by (auto simp: cdb_owner_def same_server_def fun_eq_iff)
  qed
qed

lemma cdb_delete_up:
  assumes "cdb_up d" and "cdb_named d k"
  shows "fst (CachedDB_DeleteDevice SC em k d) = None"
  using assms
  by (simp add: cdb_up_def cdb_named_def CachedDB_DeleteDevice_def Database_DeleteDevice_def pg_exec_up delete_device_def)

end

sublocale reliable_secret_cache \<subseteq>
  sessions: session_store "CachedDB_methods SC" cdb_dev cdb_named "cdb_invar live cache_invar" cdb_up
    "CachedDB_DB SC" cdb_owner
proof (unfold_locales, goal_cases)
  case (1 d k x d')
  then show ?case using cdb_get_owner [of d SC k x d'] by (simp add: CachedDB_methods_def cdb_invar_def)
next
  case (2 d k y d')
  then show ?case using cdb_update_owner [of d k y d'] by (simp add: CachedDB_methods_def)
next
  case (3 d k em z d')
  then show ?case using cdb_delete [of d k em z d'] by (simp add: CachedDB_DB_def)
next
  case (4 d k em d')
  then show ?case using cdb_delete [of d k em None d'] by (simp add: CachedDB_DB_def)
next
  case (5 d k em e d')
  then show ?case using cdb_delete [of d k em "Some e" d'] by (simp add: CachedDB_DB_def)
next
  case (6 d k em)
  then show ?case using cdb_delete_up [of d k em] by (simp add: CachedDB_DB_def)
next
  case (7 d em z d')
  then show ?case using cdb_delete_all [of d em z d'] by (simp add: CachedDB_DB_def)
next
  case (8 d em d')
  then show ?case using cdb_delete_all [of d em None d'] by (simp add: CachedDB_DB_def)
next
  case (9 d em e d')
  then show ?case using cdb_delete_all [of d em "Some e" d'] by (simp add: CachedDB_DB_def)
next
  case (10 d sec em name v d')
  then show ?case using cdb_save [of d sec em name v d'] by (simp add: CachedDB_DB_def)
next
  case (11 d sec em name k d')
  then show ?case using cdb_save [of d sec em name "Inr k" d'] by (simp add: CachedDB_DB_def)
next
  case (12 d sec em name e d')
  then show ?case using cdb_save [of d sec em name "Inl e" d'] by (simp add: CachedDB_DB_def)
qed

end
