(* ===== verification/Demo.thy ===== *)
theory Demo
  imports Cached_DB
begin

text \<open>
  Concrete instances for the witnesses: a database with one user behind an in-memory cache and
  behind a Redis cache, a device saved in it, and a token library whose table holds the tokens of that
  device's first two generations. Nothing here models code.
\<close>

definition demo_memory :: "((string \<times> Secret) list) memorySecretCache" where
  "demo_memory = \<lparr>secrets = \<lparr>otter_methods = map_otter zero_Secret, otter_state = []\<rparr>\<rparr>"

definition demo_redis :: "((string \<rightharpoonup> string)) redisSecretCache" where
  "demo_redis = newRedisSecretCache (map_redis [])"

lemma demo_pg_invar: "pg_invar demo_pg"
  using demo_pg_ok by (simp add: pg_invar_def demo_pg_def pg_no_lost_reply_def device_at_def)

lemma demo_memory_invar: "cdb_invar memory_live memory_invar (NewCachedDB demo_pg demo_memory)"
  using demo_pg_invar otter_retains_laws [OF map_otter_retains, of zero_Secret]
  by (auto simp: cdb_invar_def NewCachedDB_def demo_memory_def memory_invar_def cache_ok_def coherent_def
      memory_live_def live_secret_def cache_contents_def map_otter_def)

lemma demo_redis_invar: "cdb_invar redis_live redis_invar_up (NewCachedDB demo_pg demo_redis)"
  using demo_pg_invar map_redis_reliable [of "[]"]
  by (simp add: cdb_invar_def NewCachedDB_def demo_redis_def redis_invar_up_def newRedisSecretCache_def
      coherent_def redis_live_def entry_live_def entries_ok_def client_keys_def map_redis_def)

text \<open>The device \<^verbatim>\<open>d\<close> of the user \<^verbatim>\<open>a@x\<close>, with the secret \<^verbatim>\<open>s1\<close>.\<close>

definition demo_row :: device_row where
  "demo_row = \<lparr>device_id = ''d'', device_name = ''phone'', user_email = ''a@x'', secret = ''s1'',
     generation = 1, updated_at = 0\<rparr>"

definition demo_saved :: pg where
  "demo_saved = demo_pg\<lparr>auth_user_devices := [demo_row], pg_calls := 1\<rparr>"

lemma demo_save: "Database_SaveDeviceSecret ''a@x'' ''phone'' ''s1'' demo_pg = (Inr ''d'', demo_saved)"
  by (simp add: Database_SaveDeviceSecret_def pg_exec_def insert_device_def demo_pg_def demo_saved_def demo_row_def
      pg_now_def Let_def)

lemma demo_cached_save:
  "CachedDB_SaveDeviceSecret ''a@x'' ''phone'' ''s1'' (NewCachedDB demo_pg c) = (Inr ''d'', NewCachedDB demo_saved c)"
  by (simp add: CachedDB_SaveDeviceSecret_def NewCachedDB_def demo_save)

lemma demo_saved_invar:
  "cdb_invar memory_live memory_invar (NewCachedDB demo_saved demo_memory)"
  "cdb_invar redis_live redis_invar_up (NewCachedDB demo_saved demo_redis)"
  using mem.cdb_save [OF demo_memory_invar _ demo_cached_save] red_up.cdb_save [OF demo_redis_invar _ demo_cached_save]
  by simp_all

lemma demo_saved_facts:
  "cdb_up (NewCachedDB demo_saved c)" "cdb_named (NewCachedDB demo_saved c) ''d''"
  "cdb_dev (NewCachedDB demo_saved c) ''d'' = Some (''s1'', 1)" "cdb_owner (NewCachedDB demo_saved c) ''a@x'' ''d''"
  by (simp_all add: cdb_up_def cdb_named_def cdb_dev_def cdb_owner_def NewCachedDB_def demo_saved_def demo_pg_def
      pg_up_def device_at_def demo_row_def)

text \<open>The cache of the server with the in-memory implementation behind it, and the saved device behind that cache.\<close>

abbreviation demo_cache :: "((string \<times> Secret) list memorySecretCache + (string \<rightharpoonup> string) redisSecretCache) SecretCache" where
  "demo_cache \<equiv> any_SecretCache"

abbreviation demo_db :: "((string \<times> Secret) list, string \<rightharpoonup> string) server_db" where
  "demo_db \<equiv> NewCachedDB demo_saved (Inl demo_memory)"

abbreviation demo_start :: "((string \<times> Secret) list, string \<rightharpoonup> string) server_db" where
  "demo_start \<equiv> NewCachedDB demo_pg (Inl demo_memory)"

lemma demo_any_invar: "any_invar (NewCachedDB demo_pg (Inl demo_memory))" "any_invar (NewCachedDB demo_saved (Inl demo_memory))"
  using demo_memory_invar demo_saved_invar(1) by (simp_all add: cdb_invar_def NewCachedDB_def)

lemma demo_db_facts: "cdb_up demo_db" "cdb_named demo_db ''d''" "cdb_dev demo_db ''d'' = Some (''s1'', 1)" "cdb_owner demo_db ''a@x'' ''d''"
  by (rule demo_saved_facts)+

section \<open>Tokens\<close>

definition demo_registered :: "duration \<Rightarrow> registered_claims" where
  "demo_registered life = \<lparr>Issuer = '''', Subject = ''a@x'', Audience = [''''], ExpiresAt = Some life,
     NotBefore = None, IssuedAt = Some 0, ClaimsID = ''''\<rparr>"

definition demo_refresh :: "int \<Rightarrow> RefreshClaims" where
  "demo_refresh g = \<lparr>rf_DeviceID = ''d'', rf_Generation = g, rf_Registered = demo_registered (7 * 24 * Hour)\<rparr>"

definition demo_access :: "int \<Rightarrow> AccessClaims" where
  "demo_access g = \<lparr>ac_Username = ''ann'', ac_UserEmail = ''a@x'', ac_DeviceID = ''d'', ac_Generation = g,
     ac_Registered = demo_registered (15 * Minute)\<rparr>"

definition demo_token :: "string \<Rightarrow> claims \<Rightarrow> token" where
  "demo_token ty c = \<lparr>Method = SigningMethodHMAC ''HS256'',
     Header = [(''typ'', AnyString ty), (''alg'', AnyString ''HS256'')], Claims = c, Valid = False\<rparr>"

definition demo_table :: token_table where
  "demo_table =
     [(''r1'', demo_token RefreshTokenType (RefreshClaimsOf (demo_refresh 1)), ''s1''),
      (''r2'', demo_token RefreshTokenType (RefreshClaimsOf (demo_refresh 2)), ''s1''),
      (''a1'', demo_token AccessTokenType (AccessClaimsOf (demo_access 1)), ''s1''),
      (''a2'', demo_token AccessTokenType (AccessClaimsOf (demo_access 2)), ''s1'')]"

abbreviation demo_lib :: jwt_lib where
  "demo_lib \<equiv> table_jwt demo_table"

lemma demo_dates: "whole_seconds (168 * Hour) = 168 * Hour" "whole_seconds (15 * Minute) = 15 * Minute"
  "whole_seconds 0 = 0"
  by (simp_all add: whole_seconds_def time_units)

lemma demo_lib_laws: "jwt_laws demo_lib"
  by (rule table_jwt_laws)
    (simp_all add: demo_table_def demo_token_def whole_claims_def demo_refresh_def demo_access_def
      demo_registered_def registered_dates_def map_filter_def demo_dates)

lemma demo_sign:
  "signToken demo_lib RefreshTokenType (RefreshClaimsOf (demo_refresh 1)) ''s1'' = Inr ''r1''"
  "signToken demo_lib RefreshTokenType (RefreshClaimsOf (demo_refresh 2)) ''s1'' = Inr ''r2''"
  "signToken demo_lib AccessTokenType (AccessClaimsOf (demo_access 1)) ''s1'' = Inr ''a1''"
  "signToken demo_lib AccessTokenType (AccessClaimsOf (demo_access 2)) ''s1'' = Inr ''a2''"
  by (simp_all add: signToken_def table_jwt_def demo_table_def demo_token_def NewWithClaims_def set_header_def
      demo_refresh_def demo_access_def AccessTokenType_def RefreshTokenType_def Let_def)

lemma demo_carries:
  "carries demo_lib ''r1'' (RefreshClaimsOf (demo_refresh 1)) ''s1''"
  "carries demo_lib ''r2'' (RefreshClaimsOf (demo_refresh 2)) ''s1''"
  "carries demo_lib ''a1'' (AccessClaimsOf (demo_access 1)) ''s1''"
  "carries demo_lib ''a2'' (AccessClaimsOf (demo_access 2)) ''s1''"
proof -
  have enc: "encodable demo_lib (RefreshClaimsOf (demo_refresh g))" "encodable demo_lib (AccessClaimsOf (demo_access g))" for g
    by (simp_all add: encodable_def list_all_iff demo_refresh_def demo_access_def demo_registered_def registered_dates_def
        map_filter_def demo_dates)
  show "carries demo_lib ''r1'' (RefreshClaimsOf (demo_refresh 1)) ''s1''"
    "carries demo_lib ''r2'' (RefreshClaimsOf (demo_refresh 2)) ''s1''"
    "carries demo_lib ''a1'' (AccessClaimsOf (demo_access 1)) ''s1''"
    "carries demo_lib ''a2'' (AccessClaimsOf (demo_access 2)) ''s1''"
    by (rule signToken_carries [OF demo_lib_laws]; simp add: demo_sign enc)+
qed

definition demo_manager :: "'c SecretCache \<Rightarrow> ('c CachedDB) JWTManager" where
  "demo_manager SC = NewJWTManager (CachedDB_methods SC) []"

lemma demo_manager_facts:
  "manager_db (demo_manager SC) = CachedDB_methods SC" "config_encodable demo_lib (demo_manager SC)"
  "parserOptions (demo_manager SC) = []"
  by (simp_all add: demo_manager_def NewJWTManager_def config_encodable_def parserOptions_def jwt_defaultOptions_def)

lemma demo_new_claims: "newRefreshClaims demo_lib (demo_manager SC) (\<lambda>_. 0) ''a@x'' ''d'' g = demo_refresh g"
  by (simp add: newRefreshClaims_def demo_manager_def NewJWTManager_def jwt_defaultOptions_def demo_refresh_def
      demo_registered_def demo_dates)

lemma demo_valid: "now < 7 * 24 * Hour \<Longrightarrow> claims_valid (parserOptions (demo_manager SC)) now (rf_Registered (demo_refresh g))"
  "now < 15 * Minute \<Longrightarrow> claims_valid (parserOptions (demo_manager SC)) now (ac_Registered (demo_access g))"
  by (simp_all add: demo_manager_facts claims_valid_def demo_refresh_def demo_access_def demo_registered_def)

lemma demo_identity:
  "token_identity (AccessClaimsOf (demo_access g)) = Some (AccessTokenType, ''d'', g)"
  "token_identity (RefreshClaimsOf (demo_refresh g)) = Some (RefreshTokenType, ''d'', g)"
  "AccessClaimsOf zero_access = zero_like (AccessClaimsOf (demo_access g))"
  "RefreshClaimsOf zero_refresh = zero_like (RefreshClaimsOf (demo_refresh g))"
  by (simp_all add: demo_access_def demo_refresh_def)

lemma demo_valid_now:
  "claims_valid (parserOptions (demo_manager SC)) 0 (claims_registered (AccessClaimsOf (demo_access g)))"
  "claims_valid (parserOptions (demo_manager SC)) 0 (claims_registered (RefreshClaimsOf (demo_refresh g)))"
  using demo_valid [of 0] by (simp_all add: time_units)

text \<open>The first tokens of the demo device verify, and rotation gives the second ones.\<close>

lemma demo_rotate:
  assumes "\<exists>d1. verifyToken demo_lib (demo_manager SC) 0 ''r1'' (RefreshClaimsOf zero_refresh) d
      = ((RefreshClaimsOf (demo_refresh 1), Inr ''s1''), d1) \<and> fst (CachedDB_UpdateDeviceSecret SC ''d'' d1) = Inr 2"
  obtains d' where "RotateRefresh demo_lib (demo_manager SC) (\<lambda>_. 0) ''r1'' d = ((Inr ''r2'', demo_refresh 2), d')"
proof -
  from assms obtain d1 d' where "verifyToken demo_lib (demo_manager SC) 0 ''r1'' (RefreshClaimsOf zero_refresh) d
      = ((RefreshClaimsOf (demo_refresh 1), Inr ''s1''), d1)" and "CachedDB_UpdateDeviceSecret SC ''d'' d1 = (Inr 2, d')"
    by (metis prod.collapse)
  moreover have "later 1 (\<lambda>_. 0) = (\<lambda>_. 0)" by (simp add: later_def)
  moreover have "rf_DeviceID (demo_refresh 1) = ''d''" "Subject (rf_Registered (demo_refresh 1)) = ''a@x''"
    by (simp_all add: demo_refresh_def demo_registered_def)
  ultimately have "RotateRefresh demo_lib (demo_manager SC) (\<lambda>_. 0) ''r1'' d = ((Inr ''r2'', demo_refresh 2), d')"
    by (simp add: RotateRefresh_def demo_manager_facts CachedDB_methods_def demo_new_claims demo_sign Let_def)
  then show thesis by (rule that)
qed

text \<open>After the first lookup the database is one call further, and the update succeeds.\<close>

lemma demo_update:
  assumes "cdb_up d" and "uuid_in (cdb_db d) ''d'' = Some ''d''" and "cdb_dev d ''d'' = Some (''s1'', 1)"
  shows "fst (CachedDB_UpdateDeviceSecret SC ''d'' d) = Inr 2"
proof -
  from assms(3) obtain r where "List.find (\<lambda>r. device_id r = ''d'') (auth_user_devices (cdb_db d)) = Some r" "generation r = 1"
    by (auto simp: cdb_dev_def device_at_def)
  with assms(1,2) have "fst (Database_UpdateDeviceSecret ''d'' (cdb_db d)) = Inr 2"
    by (simp add: Database_UpdateDeviceSecret_def cdb_up_def pg_exec_up update_device_def MaxInt32_def)
  then show ?thesis
    by (auto simp: CachedDB_UpdateDeviceSecret_def Let_def split: prod.splits option.splits sum.splits)
qed

context reliable_secret_cache begin

lemma demo_verify_access:
  assumes "cdb_invar live cache_invar (NewCachedDB demo_saved c)"
  obtains d' where "VerifyAccess demo_lib (demo_manager SC) 0 ''a1'' (NewCachedDB demo_saved c) = ((demo_access 1, None), d')"
proof -
  obtain d' where "verifyToken demo_lib (demo_manager SC) 0 ''a1'' (AccessClaimsOf zero_access) (NewCachedDB demo_saved c)
      = ((AccessClaimsOf (demo_access 1), Inr ''s1''), d')"
    by (rule cached.verify_current [OF demo_lib_laws demo_manager_facts(1) assms demo_saved_facts(1)
        demo_carries(3) demo_identity(1) demo_saved_facts(3) demo_identity(3) demo_valid_now(1)])
  then show thesis by (intro that) (simp add: VerifyAccess_def)
qed

lemma demo_verify_token:
  assumes "cdb_invar live cache_invar (NewCachedDB demo_saved c)"
  obtains d' where "verifyToken demo_lib (demo_manager SC) 0 ''r1'' (RefreshClaimsOf zero_refresh) (NewCachedDB demo_saved c)
      = ((RefreshClaimsOf (demo_refresh 1), Inr ''s1''), d')"
    and "cdb_invar live cache_invar d'" and "cdb_up d'" and "cdb_dev d' = cdb_dev (NewCachedDB demo_saved c)"
    and "cdb_named d' = cdb_named (NewCachedDB demo_saved c)"
  by (rule cached.verify_current [OF demo_lib_laws demo_manager_facts(1) assms demo_saved_facts(1)
      demo_carries(1) demo_identity(2) demo_saved_facts(3) demo_identity(4) demo_valid_now(2)])

lemma demo_verify_refresh:
  assumes "cdb_invar live cache_invar (NewCachedDB demo_saved c)"
  obtains d' where "VerifyRefresh demo_lib (demo_manager SC) 0 ''r1'' (NewCachedDB demo_saved c) = ((demo_refresh 1, None), d')"
  by (rule demo_verify_token [OF assms]) (auto simp: VerifyRefresh_def intro: that)

lemma demo_rotates:
  assumes "cdb_invar live cache_invar (NewCachedDB demo_saved c)"
  obtains d' where "RotateRefresh demo_lib (demo_manager SC) (\<lambda>_. 0) ''r1'' (NewCachedDB demo_saved c) = ((Inr ''r2'', demo_refresh 2), d')"
proof (rule demo_rotate)
  obtain d1 where d1: "verifyToken demo_lib (demo_manager SC) 0 ''r1'' (RefreshClaimsOf zero_refresh) (NewCachedDB demo_saved c)
      = ((RefreshClaimsOf (demo_refresh 1), Inr ''s1''), d1)"
    and "cdb_up d1" "cdb_dev d1 = cdb_dev (NewCachedDB demo_saved c)" "cdb_named d1 = cdb_named (NewCachedDB demo_saved c)"
    by (rule demo_verify_token [OF assms])
  then have "fst (CachedDB_UpdateDeviceSecret SC ''d'' d1) = Inr 2"
    using demo_saved_facts(2,3) [of c] by (intro demo_update) (simp_all add: cdb_named_def fun_eq_iff)
  with d1 show "\<exists>d1. verifyToken demo_lib (demo_manager SC) 0 ''r1'' (RefreshClaimsOf zero_refresh) (NewCachedDB demo_saved c)
      = ((RefreshClaimsOf (demo_refresh 1), Inr ''s1''), d1) \<and> fst (CachedDB_UpdateDeviceSecret SC ''d'' d1) = Inr 2" by blast
qed (rule that)

end

end
