(* ===== verification/Token_Lifecycle.thy ===== *)
theory Token_Lifecycle
  imports Demo
begin

text \<open>
  What the token manager guarantees over the cached database, for the in-memory and the Redis
  cache: genuine tokens, disjoint token types, rotation, revocation and the end of a session. The
  lemmas behind these properties are those of the locale \<open>device_store\<close>, reached through the
  two caches' interpretations (\<open>mem\<close>, \<open>red_up\<close>).
\<close>

text \<open>
  C6. A token that \<^verbatim>\<open>VerifyAccess\<close> accepts is genuine: its text parses to the claims returned, its
  signature verifies under the secret the store holds for the device the claims name, its
  generation is the store's current one, it has not expired, and it has the configured issuer
  and audience. This holds for every implementation of the interface \<^verbatim>\<open>Database\<close>.
\<close>

theorem VerifyAccess_accepts_only_genuine:
  assumes "jwt_laws L" and "VerifyAccess L m now s d = ((a, None), d')"
  shows "\<exists>u key. lib_ParseUnverified L s (AccessClaimsOf zero_access) = (AccessClaimsOf a, Inr u)
    \<and> hasTokenType L u AccessTokenType
    \<and> GetDeviceSecret (manager_db m) (ac_DeviceID a) d = (Inr (key, ac_Generation a), d')
    \<and> lib_signature_ok L s key
    \<and> (\<forall>t. ExpiresAt (ac_Registered a) = Some t \<longrightarrow> now < t)
    \<and> (opt_Issuer (manager_config m) \<noteq> '''' \<longrightarrow> Issuer (ac_Registered a) = opt_Issuer (manager_config m))
    \<and> (opt_Audience (manager_config m) \<noteq> '''' \<longrightarrow> opt_Audience (manager_config m) \<in> set (Audience (ac_Registered a)))"
  using VerifyAccess_sound [OF assms]
  by (auto simp: carries_def claims_valid_def parserOptions_def split: if_splits option.splits)

theorem VerifyAccess_accepts_only_genuine_witness:
  "VerifyAccess demo_lib (demo_manager memory_SecretCache) 0 ''a1'' (NewCachedDB demo_saved demo_memory)
     = ((demo_access 1, None), snd (CachedDB_GetDeviceSecret memory_SecretCache ''d'' (NewCachedDB demo_saved demo_memory)))
   \<and> lib_signature_ok demo_lib ''a1'' ''s1''"
proof -
  let ?m = "demo_manager memory_SecretCache" and ?d = "NewCachedDB demo_saved demo_memory"
  obtain d' where v: "VerifyAccess demo_lib ?m 0 ''a1'' ?d = ((demo_access 1, None), d')"
    by (rule mem.demo_verify_access [OF demo_saved_invar(1)])
  from VerifyAccess_accepts_only_genuine [OF demo_lib_laws v]
  have "d' = snd (CachedDB_GetDeviceSecret memory_SecretCache ''d'' ?d)"
    by (auto simp: demo_manager_facts CachedDB_methods_def demo_access_def)
  with v demo_carries(3) show ?thesis by (simp add: carries_def)
qed

text \<open>
  C35. Access and refresh tokens cannot stand in for each other: no text is accepted by
  \<^verbatim>\<open>VerifyAccess\<close> and by \<^verbatim>\<open>VerifyRefresh\<close>, whatever the managers, the stores and the instants of the
  two calls.
\<close>

theorem token_types_disjoint:
  assumes "jwt_laws L" and "VerifyAccess L m now s d = ((a, e1), d1)" and "VerifyRefresh L m' now' s d' = ((r, e2), d2)"
  shows "e1 \<noteq> None \<or> e2 \<noteq> None"
  using VerifyAccess_sound [OF assms(1), of m now s d a d1] VerifyRefresh_sound [OF assms(1), of m' now' s d' r d2]
    carries_one_type [OF assms(1), of s a _ r] assms(2,3) by auto

theorem token_types_disjoint_witness:
  "snd (fst (VerifyAccess demo_lib (demo_manager memory_SecretCache) 0 ''r1'' (NewCachedDB demo_saved demo_memory))) \<noteq> None"
proof -
  let ?m = "demo_manager memory_SecretCache" and ?d = "NewCachedDB demo_saved demo_memory"
  obtain d' where "VerifyRefresh demo_lib ?m 0 ''r1'' ?d = ((demo_refresh 1, None), d')"
    by (rule mem.demo_verify_refresh [OF demo_saved_invar(1)])
  moreover obtain a e1 d1 where "VerifyAccess demo_lib ?m 0 ''r1'' ?d = ((a, e1), d1)"
    by (metis prod.collapse)
  ultimately show ?thesis using token_types_disjoint [OF demo_lib_laws] by fastforce
qed



text \<open>
  An access token minted by \<^verbatim>\<open>GenerateAccess\<close> for a refresh token is accepted until it expires: over
  the in-memory cache, \<^verbatim>\<open>VerifyAccess\<close> returns the user, the e-mail, the device and the
  generation of the refresh token, at every instant before the configured life time (rounded down
  to a second) is over.
\<close>

theorem minted_access_token_verifies:
  assumes "jwt_laws L" and "manager_db m = CachedDB_methods memory_SecretCache" and "config_encodable L m"
    and "cdb_invar memory_live memory_invar d" and "cdb_up d" and "lib_text L u"
    and "GenerateAccess L m clk s u d = (Inr a, d')"
    and "fst (lib_ParseUnverified L s (RefreshClaimsOf zero_refresh)) = RefreshClaimsOf r"
    and "cdb_named d (rf_DeviceID r)"
    and "now \<le> clk 1 + AccessTokenDuration (manager_config m) - Second"
  shows "\<exists>c. fst (VerifyAccess L m now a d') = (c, None) \<and> ac_Username c = u
    \<and> ac_UserEmail c = Subject (rf_Registered r) \<and> ac_DeviceID c = rf_DeviceID r \<and> ac_Generation c = rf_Generation r"
proof -
  have "now < lib_NewNumericDate L (clk 1 + AccessTokenDuration (manager_config m))"
    using lib_date(2) [OF assms(1), of "clk 1 + AccessTokenDuration (manager_config m)"] assms(10) by simp
  from mem.cached.access_verifies [OF assms(1-9) this] show ?thesis by (simp add: access_claims_for_def)
qed

theorem minted_access_token_verifies_witness:
  "\<exists>d' c. GenerateAccess demo_lib (demo_manager memory_SecretCache) (\<lambda>_. 0) ''r1'' ''ann'' (NewCachedDB demo_saved demo_memory)
      = (Inr ''a1'', d')
    \<and> fst (VerifyAccess demo_lib (demo_manager memory_SecretCache) (14 * Minute) ''a1'' d') = (c, None)"
proof -
  let ?m = "demo_manager memory_SecretCache" and ?d = "NewCachedDB demo_saved demo_memory"
  obtain d' where v: "verifyToken demo_lib ?m 0 ''r1'' (RefreshClaimsOf zero_refresh) ?d = ((RefreshClaimsOf (demo_refresh 1), Inr ''s1''), d')"
    by (rule mem.cached.verify_current [OF demo_lib_laws demo_manager_facts(1) demo_saved_invar(1) demo_saved_facts(1)
        demo_carries(1) demo_identity(2) demo_saved_facts(3) demo_identity(4) demo_valid_now(2)])
  have cl: "access_claims_for demo_lib ?m (\<lambda>_. 0) ''ann'' (demo_refresh 1) = demo_access 1"
    by (simp add: access_claims_for_def demo_refresh_def demo_access_def demo_registered_def demo_manager_def
        NewJWTManager_def jwt_defaultOptions_def demo_dates)
  have gen: "GenerateAccess demo_lib ?m (\<lambda>_. 0) ''r1'' ''ann'' ?d = (Inr ''a1'', d')"
    using GenerateAccess_verified [of demo_lib ?m "\<lambda>_. 0", OF v, of "''ann''"] by (simp add: cl demo_sign(3))
  have parse: "fst (lib_ParseUnverified demo_lib ''r1'' (RefreshClaimsOf zero_refresh)) = RefreshClaimsOf (demo_refresh 1)"
    using demo_carries(1) by (auto simp: carries_def)
  have nm: "cdb_named ?d (rf_DeviceID (demo_refresh 1))" using demo_saved_facts(2) by (simp add: demo_refresh_def)
  have now: "14 * Minute \<le> (\<lambda>_. 0) (1::nat) + AccessTokenDuration (manager_config ?m) - Second"
    by (simp add: demo_manager_def NewJWTManager_def jwt_defaultOptions_def time_units)
  from minted_access_token_verifies [OF demo_lib_laws demo_manager_facts(1,2) demo_saved_invar(1) demo_saved_facts(1) _ gen parse nm now]
    gen show ?thesis by auto
qed



end
