(* ===== verification/Users_Store.thy ===== *)
theory Users_Store
  imports Cached_DB
begin

text \<open>
  \<^verbatim>\<open>server/internal/usersdb/usersdb.go\<close>: the users table, managed by the server or by another
  application (\<^verbatim>\<open>external\<close>). A store shares the database with the device sessions, so
  its statements also run the cascades of the foreign key: a deleted user's devices are deleted, and a
  changed spelling of an e-mail is copied to the devices. PostgreSQL compares the old and
  the new key bytewise before it cascades an update.
\<close>

record Store =
  external :: bool
  selectUsernameQuery :: string

section \<open>The statements\<close>

definition respell :: "pg \<Rightarrow> string \<Rightarrow> string \<Rightarrow> device_row \<Rightarrow> device_row" where
  "respell p old new r =
     (if old \<noteq> new \<and> email_eq p (user_email r) old then r\<lparr>user_email := new\<rparr> else r)"

definition upsert_user :: "string \<Rightarrow> string \<Rightarrow> user_row stmt" where
  "upsert_user name em p =
     (case List.find (\<lambda>u. email_eq p (email u) em) (users p) of
        None \<Rightarrow>
          (let new = gen_random_uuid p (pg_calls p);
               row = \<lparr>user_id = new, username = Some name, email = em\<rparr>
           in if list_ex (\<lambda>u. user_id u = new) (users p) then Inl (PgError ''23505'' ''users_pkey'')
              else Inr (row, p\<lparr>users := users p @ [row]\<rparr>))
      | Some u \<Rightarrow>
          Inr (u\<lparr>email := em\<rparr>,
            p\<lparr>users := map (\<lambda>x. if email_eq p (email x) em then x\<lparr>email := em\<rparr> else x) (users p),
              auth_user_devices := map (respell p (email u) em) (auth_user_devices p)\<rparr>))"

definition select_user :: "string \<Rightarrow> user_row stmt" where
  "select_user em p =
     (case List.find (\<lambda>u. email_eq p (email u) em) (users p) of
        None \<Rightarrow> Inl ErrNoRows | Some u \<Rightarrow> Inr (u, p))"

definition select_username :: "string \<Rightarrow> string option stmt" where
  "select_username em p =
     (case List.find (\<lambda>u. email_eq p (email u) em) (users p) of
        None \<Rightarrow> Inl ErrNoRows | Some u \<Rightarrow> Inr (username u, p))"

definition delete_user :: "string \<Rightarrow> unit stmt" where
  "delete_user em p = Inr ((), p\<lparr>
     users := filter (\<lambda>u. \<not> email_eq p (email u) em) (users p),
     auth_user_devices := filter (\<lambda>r. \<not> email_eq p (user_email r) em) (auth_user_devices p)\<rparr>)"

section \<open>The methods of \<^verbatim>\<open>Store\<close>\<close>

text \<open>\<^verbatim>\<open>Scan\<close> into three string variables: a null username is an error.\<close>

definition scan_user :: "(go_error + user_row) \<times> pg \<Rightarrow> (go_error + User) \<times> pg" where
  "scan_user res = (case res of
     (Inl err, q) \<Rightarrow> (Inl err, q)
   | (Inr u, q) \<Rightarrow>
       (case username u of
          None \<Rightarrow> (Inl (Opaque ''converting NULL to string is unsupported''), q)
        | Some name \<Rightarrow> (Inr \<lparr>User_ID = user_id u, User_Username = name, User_Email = email u\<rparr>, q)))"

definition Store_CreateUser :: "Store \<Rightarrow> string \<Rightarrow> string \<Rightarrow> pg \<Rightarrow> (go_error + User) \<times> pg" where
  "Store_CreateUser s name em p =
     (if external s then (Inl ErrExternalUsers, p) else scan_user (pg_exec (upsert_user name em) p))"

definition Store_GetUser :: "Store \<Rightarrow> string \<Rightarrow> pg \<Rightarrow> (go_error + User) \<times> pg" where
  "Store_GetUser s em p =
     (if external s then (Inl ErrExternalUsers, p) else scan_user (pg_exec (select_user em) p))"

text \<open>\<^verbatim>\<open>username.String\<close> of a null value is the empty text.\<close>

definition Store_GetUsername :: "Store \<Rightarrow> string \<Rightarrow> pg \<Rightarrow> (go_error + string) \<times> pg" where
  "Store_GetUsername s em p =
     (if selectUsernameQuery s = '''' then (Inr '''', p)
      else case pg_exec (select_username em) p of
        (Inl err, q) \<Rightarrow> if errors_Is err ErrNoRows then (Inl ErrUserNotFound, q) else (Inl err, q)
      | (Inr name, q) \<Rightarrow> (Inr (case name of None \<Rightarrow> '''' | Some n \<Rightarrow> n), q))"

definition Store_DeleteUser :: "Store \<Rightarrow> string \<Rightarrow> pg \<Rightarrow> go_error option \<times> pg" where
  "Store_DeleteUser s em p =
     (if external s then (Some ErrExternalUsers, p)
      else case pg_exec (delete_user em) p of (Inl err, q) \<Rightarrow> (Some err, q) | (Inr _, q) \<Rightarrow> (None, q))"

text \<open>The store and the cached database of one server work on the same tables.\<close>

definition on_db :: "(pg \<Rightarrow> 'x \<times> pg) \<Rightarrow> 'c CachedDB \<Rightarrow> 'x \<times> 'c CachedDB" where
  "on_db f d = (case f (cdb_db d) of (x, p) \<Rightarrow> (x, d\<lparr>cdb_db := p\<rparr>))"

definition Store_UsersDB :: "Store \<Rightarrow> ('c CachedDB) options_UsersDB" where
  "Store_UsersDB s = \<lparr>CreateUser = (\<lambda>name em. on_db (Store_CreateUser s name em)),
     GetUsername = (\<lambda>em. on_db (Store_GetUsername s em)), DeleteUser = (\<lambda>em. on_db (Store_DeleteUser s em)),
     External = external s\<rparr>"

section \<open>The effect on the tables\<close>

lemma find_map_respell:
  "device_at (p\<lparr>users := us, auth_user_devices := map (respell q old new) (auth_user_devices p)\<rparr>) k
    = map_option (respell q old new) (device_at p k)"
  unfolding device_at_def by (simp, rule find_map_key) (simp add: respell_def)

lemma respell_simps [simp]:
  "device_id (respell p old new r) = device_id r" "secret (respell p old new r) = secret r"
  "generation (respell p old new r) = generation r" "updated_at (respell p old new r) = updated_at r"
  by (simp_all add: respell_def)

lemma pg_email_equiv:
  assumes "pg_wf p"
  shows "email_eq p x x" and "email_eq p x y \<Longrightarrow> email_eq p y x"
    and "email_eq p x y \<Longrightarrow> email_eq p y z \<Longrightarrow> email_eq p x z"
  using assms by (auto simp: pg_wf_def pg_server_ok_def dest: equivp_reflp equivp_symp equivp_transp)

lemma respell_owner:
  assumes "pg_wf p" and "email_eq p old new"
  shows "email_eq p (user_email (respell p old new r)) em \<longleftrightarrow> email_eq p (user_email r) em"
proof (cases "old \<noteq> new \<and> email_eq p (user_email r) old")
  case True
  then have new: "email_eq p (user_email r) new" using pg_email_equiv(3) [OF assms(1)] assms(2) by blast
  have "email_eq p new em \<longleftrightarrow> email_eq p (user_email r) em"
    using pg_email_equiv(3) [OF assms(1) new] pg_email_equiv(3) [OF assms(1) pg_email_equiv(2) [OF assms(1) new]] by blast
  with True show ?thesis by (simp add: respell_def)
qed (auto simp: respell_def)

lemma users_update_wf:
  assumes wf: "pg_wf p"
    and us: "\<And>u. u \<in> set (users p) \<Longrightarrow> \<exists>u'\<in>set us. email_eq p (email u) (email u')"
    and eq: "email_eq p old new"
  shows "pg_wf (p\<lparr>users := us, auth_user_devices := map (respell p old new) (auth_user_devices p)\<rparr>)"
proof -
  have owner: "\<exists>u'\<in>set us. email_eq p (email u') (user_email (respell p old new r))"
    if "r \<in> set (auth_user_devices p)" for r
  proof -
    from wf that obtain u where u: "u \<in> set (users p)" "email_eq p (email u) (user_email r)"
      by (auto simp: pg_wf_def)
    from us [OF u(1)] obtain u' where u': "u' \<in> set us" "email_eq p (email u) (email u')" by blast
    with u(2) have "email_eq p (user_email r) (email u')"
      using pg_email_equiv(3) [OF wf pg_email_equiv(2) [OF wf u(2)]] by blast
    with respell_owner [OF wf eq] have "email_eq p (user_email (respell p old new r)) (email u')" by blast
    with u'(1) show ?thesis using pg_email_equiv(2) [OF wf] by blast
  qed
  have ids: "map device_id (map (respell p old new) (auth_user_devices p)) = map device_id (auth_user_devices p)"
    by simp
  from wf owner ids show ?thesis by (auto simp: pg_wf_def pg_server_ok_def simp del: map_map)
qed

lemma upsert_user_view:
  assumes wf: "pg_wf p" and st: "upsert_user name em p = Inr (u, q)"
  shows "pg_wf q \<and> same_server p q \<and> email u = em
    \<and> (\<exists>f. device_at q = (\<lambda>k. map_option f (device_at p k)) \<and> (\<forall>r. secret (f r) = secret r \<and> generation (f r) = generation r
        \<and> (\<forall>e. email_eq p (user_email (f r)) e \<longleftrightarrow> email_eq p (user_email r) e)))
    \<and> (\<exists>u'\<in>set (users q). u' = u)"
proof (cases "List.find (\<lambda>u. email_eq p (email u) em) (users p)")
  case None
  then have row: "u = \<lparr>user_id = gen_random_uuid p (pg_calls p), username = Some name, email = em\<rparr>"
    and q: "q = p\<lparr>users := users p @ [u]\<rparr>"
    using st by (auto simp: upsert_user_def Let_def split: if_splits)
  have "pg_wf q" using wf by (fastforce simp: q pg_wf_def pg_server_ok_def)
  moreover have "device_at q = (\<lambda>k. map_option id (device_at p k))"
    by (simp add: q device_at_def fun_eq_iff option.map_id)
  ultimately show ?thesis using row by (auto simp: q same_server_def intro: exI [of _ id])
next
  case (Some u0)
  let ?us = "map (\<lambda>x. if email_eq p (email x) em then x\<lparr>email := em\<rparr> else x) (users p)"
  from Some have u0: "u0 \<in> set (users p)" "email_eq p (email u0) em" by (auto dest: find_Some_in)
  from Some st have u: "u = u0\<lparr>email := em\<rparr>"
    and q: "q = p\<lparr>users := ?us, auth_user_devices := map (respell p (email u0) em) (auth_user_devices p)\<rparr>"
    by (auto simp: upsert_user_def)
  have us: "\<exists>u'\<in>set ?us. email_eq p (email x) (email u')" if "x \<in> set (users p)" for x
    using that pg_email_equiv(1) [OF wf] by (intro bexI [of _ "if email_eq p (email x) em then x\<lparr>email := em\<rparr> else x"]) auto
  have "pg_wf q" unfolding q by (rule users_update_wf [OF wf us u0(2)])
  moreover have "device_at q = (\<lambda>k. map_option (respell p (email u0) em) (device_at p k))"
    by (simp add: q find_map_respell fun_eq_iff)
  moreover have "u \<in> set (users q)" using u0 by (auto simp: q u image_iff)
  ultimately show ?thesis
    using respell_owner [OF wf u0(2)] u by (auto simp: q same_server_def intro: exI [of _ "respell p (email u0) em"])
qed

lemma delete_user_view:
  assumes wf: "pg_wf p" and st: "delete_user em p = Inr (v, q)"
  shows "pg_wf q \<and> same_server p q \<and> users q = filter (\<lambda>u. \<not> email_eq p (email u) em) (users p)
    \<and> device_at q = (\<lambda>k. case device_at p k of None \<Rightarrow> None | Some r \<Rightarrow> if email_eq p (user_email r) em then None else Some r)"
proof -
  from st have q: "q = p\<lparr>users := filter (\<lambda>u. \<not> email_eq p (email u) em) (users p),
      auth_user_devices := filter (\<lambda>r. \<not> email_eq p (user_email r) em) (auth_user_devices p)\<rparr>"
    by (simp add: delete_user_def)
  have keep: "\<exists>u\<in>set (users p). \<not> email_eq p (email u) em \<and> email_eq p (email u) (user_email r)"
    if "r \<in> set (auth_user_devices p)" "\<not> email_eq p (user_email r) em" for r
  proof -
    from wf that(1) obtain u where "u \<in> set (users p)" "email_eq p (email u) (user_email r)" by (auto simp: pg_wf_def)
    with that(2) show ?thesis using pg_email_equiv(2,3) [OF wf] by (metis (no_types))
  qed
  have "distinct (map device_id (auth_user_devices q))"
    using wf by (auto simp: q pg_wf_def distinct_map inj_on_def)
  moreover have "\<exists>u\<in>set (users q). email_eq q (email u) (user_email r)" if "r \<in> set (auth_user_devices q)" for r
    using keep [of r] that by (auto simp: q)
  ultimately have "pg_wf q" using wf by (auto simp: q pg_wf_def pg_server_ok_def)
  moreover have "device_at q k = (case device_at p k of None \<Rightarrow> None | Some r \<Rightarrow> if email_eq p (user_email r) em then None else Some r)" for k
    using filter_view [OF wf, of "\<lambda>r. \<not> email_eq p (user_email r) em" k]
    by (auto simp: q device_at_def split: option.splits)
  ultimately show ?thesis by (auto simp: q same_server_def)
qed

section \<open>The store meets the handlers' contract\<close>

lemma on_db_state: "on_db f d = (x, d') \<longleftrightarrow> (\<exists>p. f (cdb_db d) = (x, p) \<and> d' = d\<lparr>cdb_db := p\<rparr>)"
  by (auto simp: on_db_def split: prod.splits)

lemma select_username_view:
  assumes inv: "pg_invar p" and call: "Store_GetUsername s em p = (x, q)"
  shows "pg_invar q \<and> same_server p q \<and> (pg_up p \<longrightarrow> pg_up q) \<and> device_at q = device_at p \<and> users q = users p"
proof (cases "selectUsernameQuery s = ''''")
  case False
  have sel: "select_username em p = Inr (v, q') \<Longrightarrow> q' = p" for v q'
    by (auto simp: select_username_def split: option.splits)
  obtain y q0 where run: "pg_exec (select_username em) p = (y, q0)" by fastforce
  with call False have "q = q0"
    by (auto simp: Store_GetUsername_def split: sum.splits if_splits)
  moreover have "same_server p q0 \<and> (pg_up p \<longrightarrow> pg_up q0)"
    using run by (rule pg_call_frame) (auto dest: sel)
  moreover have "q0 = p\<lparr>pg_calls := Suc (pg_calls p)\<rparr>"
    using inv run by (rule pg_call_cases) (auto dest: sel)
  ultimately show ?thesis using inv pg_invarI [OF inv, of q] by (simp add: pg_invar_def)
qed (use assms in \<open>simp add: Store_GetUsername_def\<close>)

lemma cdb_with_same_devices:
  assumes "cdb_invar live cache_invar d" and "pg_invar p" and "same_server (cdb_db d) p"
    and "device_at p = device_at (cdb_db d)" and "pg_up (cdb_db d) \<longrightarrow> pg_up p"
  shows "cdb_invar live cache_invar (d\<lparr>cdb_db := p\<rparr>) \<and> cdb_dev (d\<lparr>cdb_db := p\<rparr>) = cdb_dev d
    \<and> cdb_named (d\<lparr>cdb_db := p\<rparr>) = cdb_named d \<and> cdb_owner (d\<lparr>cdb_db := p\<rparr>) = cdb_owner d
    \<and> (cdb_up d \<longrightarrow> cdb_up (d\<lparr>cdb_db := p\<rparr>))"
  using assms coherent_same [OF assms(3,4)] owner_same [of d "d\<lparr>cdb_db := p\<rparr>"]
  by (simp add: cdb_invar_def cdb_dev_def cdb_named_def cdb_up_def same_server_def fun_eq_iff)

lemma create_user_view:
  assumes inv: "pg_invar p" and call: "Store_CreateUser s name em p = (x, q)"
  shows "pg_invar q \<and> same_server p q \<and> (pg_up p \<longrightarrow> pg_up q)
    \<and> (\<exists>f. device_at q = (\<lambda>k. map_option f (device_at p k)) \<and> (\<forall>r. secret (f r) = secret r \<and> generation (f r) = generation r
        \<and> (\<forall>e. email_eq p (user_email (f r)) e \<longleftrightarrow> email_eq p (user_email r) e)))"
proof (cases "external s")
  case True
  with call have "q = p" by (simp add: Store_CreateUser_def)
  with inv show ?thesis by (auto intro!: exI [of _ id] simp: option.map_id fun_eq_iff)
next
  case False
  from inv have wf: "pg_wf p" by (simp add: pg_invar_def)
  obtain y q0 where run: "pg_exec (upsert_user name em) p = (y, q0)" by fastforce
  with call False have q: "q = q0"
    by (auto simp: Store_CreateUser_def scan_user_def split: sum.splits option.splits)
  have frame: "same_server p q0 \<and> (pg_up p \<longrightarrow> pg_up q0)"
    using run by (rule pg_call_frame) (use upsert_user_view [OF wf] in blast)
  have dev: "pg_wf q0 \<and> (\<exists>f. device_at q0 = (\<lambda>k. map_option f (device_at p k)) \<and> (\<forall>r. secret (f r) = secret r \<and> generation (f r) = generation r
        \<and> (\<forall>e. email_eq p (user_email (f r)) e \<longleftrightarrow> email_eq p (user_email r) e)))"
    using inv run
  proof (rule pg_call_cases)
    fix e assume "q0 = p\<lparr>pg_calls := Suc (pg_calls p)\<rparr>"
    with wf show ?thesis by (auto intro!: exI [of _ id] simp: option.map_id fun_eq_iff)
  next
    fix v q' assume st: "upsert_user name em p = Inr (v, q')" and q0: "q0 = q'\<lparr>pg_calls := Suc (pg_calls p)\<rparr>"
    from upsert_user_view [OF wf st] show ?thesis by (simp add: q0)
  qed
  moreover have "secret r \<noteq> ''''" if "device_at q0 k = Some r" for k r
    using that dev inv by (auto simp: pg_invar_def)
  ultimately show ?thesis using pg_invarI [OF inv, of q0] frame q by blast
qed

lemma cdb_with_respelled:
  assumes inv: "cdb_invar live cache_invar d"
    and p: "pg_invar p \<and> same_server (cdb_db d) p \<and> (pg_up (cdb_db d) \<longrightarrow> pg_up p)
      \<and> (\<exists>f. device_at p = (\<lambda>k. map_option f (device_at (cdb_db d) k)) \<and> (\<forall>r. secret (f r) = secret r \<and> generation (f r) = generation r
        \<and> (\<forall>e. email_eq (cdb_db d) (user_email (f r)) e \<longleftrightarrow> email_eq (cdb_db d) (user_email r) e)))"
  shows "cdb_invar live cache_invar (d\<lparr>cdb_db := p\<rparr>) \<and> cdb_dev (d\<lparr>cdb_db := p\<rparr>) = cdb_dev d
    \<and> cdb_named (d\<lparr>cdb_db := p\<rparr>) = cdb_named d \<and> cdb_owner (d\<lparr>cdb_db := p\<rparr>) = cdb_owner d
    \<and> (cdb_up d \<longrightarrow> cdb_up (d\<lparr>cdb_db := p\<rparr>))"
proof -
  from p obtain f where dev: "device_at p = (\<lambda>k. map_option f (device_at (cdb_db d) k))"
    and f: "\<And>r. secret (f r) = secret r \<and> generation (f r) = generation r"
      "\<And>r e. email_eq (cdb_db d) (user_email (f r)) e \<longleftrightarrow> email_eq (cdb_db d) (user_email r) e" by blast
  have "coherent p (live (cache d))"
    unfolding coherent_def
  proof (intro allI impI)
    fix k s assume k: "uuid_in p k = Some k" "live (cache d) k = Some s"
    with inv p obtain r where "device_at (cdb_db d) k = Some r" "s = \<lparr>Value = secret r, Generation = generation r\<rparr>"
      unfolding cdb_invar_def coherent_def same_server_def by metis
    then show "\<exists>r. device_at p k = Some r \<and> s = \<lparr>Value = secret r, Generation = generation r\<rparr>"
      using f(1) by (simp add: dev)
  qed
  moreover have "cdb_dev (d\<lparr>cdb_db := p\<rparr>) = cdb_dev d"
    by (simp add: cdb_dev_def dev option.map_comp comp_def f(1) fun_eq_iff)
  moreover have "cdb_owner (d\<lparr>cdb_db := p\<rparr>) = cdb_owner d"
    using p f(2) by (auto simp: cdb_owner_def dev same_server_def fun_eq_iff)
  ultimately show ?thesis
    using inv p by (simp add: cdb_invar_def cdb_named_def cdb_up_def same_server_def fun_eq_iff)
qed

text \<open>With no device left, the cascade of the account's deletion touches nothing the cache holds.\<close>

lemma delete_user_state:
  assumes inv: "cdb_invar live cache_invar d" and none: "\<And>k. \<not> cdb_owner d em k"
    and del: "DeleteUser (Store_UsersDB s) em d = (z, d')"
  shows "cdb_invar live cache_invar d' \<and> cdb_dev d' = cdb_dev d \<and> cdb_named d' = cdb_named d \<and> cdb_owner d' = cdb_owner d
    \<and> (cdb_up d \<longrightarrow> cdb_up d')"
proof -
  from del obtain q where call: "Store_DeleteUser s em (cdb_db d) = (z, q)" and d': "d' = d\<lparr>cdb_db := q\<rparr>"
    by (auto simp: Store_UsersDB_def on_db_state)
  from inv have p: "pg_invar (cdb_db d)" "pg_wf (cdb_db d)" by (auto simp: cdb_invar_def pg_invar_def)
  show ?thesis
  proof (cases "external s")
    case True
    with call have "q = cdb_db d" by (simp add: Store_DeleteUser_def)
    with inv show ?thesis by (simp add: d')
  next
    case False
    obtain y q0 where run: "pg_exec (delete_user em) (cdb_db d) = (y, q0)" by fastforce
    with call False have q: "q = q0" by (auto simp: Store_DeleteUser_def split: sum.splits)
    have frame: "same_server (cdb_db d) q \<and> (pg_up (cdb_db d) \<longrightarrow> pg_up q)"
      using run unfolding q by (rule pg_call_frame) (use delete_user_view [OF p(2)] in blast)
    have dev: "pg_wf q \<and> device_at q = device_at (cdb_db d)"
      using p(1) run unfolding q
    proof (rule pg_call_cases)
      fix v q' assume st: "delete_user em (cdb_db d) = Inr (v, q')" and q0: "q0 = q'\<lparr>pg_calls := Suc (pg_calls (cdb_db d))\<rparr>"
      note v = delete_user_view [OF p(2) st]
      have "device_at q0 = device_at (cdb_db d)"
        using v none by (fastforce simp: q0 cdb_owner_def fun_eq_iff split: option.splits)
      with v show "pg_wf q0 \<and> device_at q0 = device_at (cdb_db d)" by (simp add: q0)
    qed (use p(2) in simp)
    then have "pg_invar q" using frame p(1) by (intro pg_invarI [OF p(1)]) (auto simp: pg_invar_def)
    with cdb_with_same_devices [OF inv this] frame dev show ?thesis by (simp add: d')
  qed
qed

sublocale reliable_secret_cache \<subseteq>
  handlers: account_users "CachedDB_methods SC" cdb_dev cdb_named "cdb_invar live cache_invar" cdb_up
    "CachedDB_DB SC" cdb_owner "Store_UsersDB s" for s
proof (unfold_locales, goal_cases)
  case (1 d em x d')
  then obtain p where "Store_GetUsername s em (cdb_db d) = (x, p)" "d' = d\<lparr>cdb_db := p\<rparr>"
    by (auto simp: Store_UsersDB_def on_db_state)
  with 1(1) select_username_view [of "cdb_db d" s em x p] cdb_with_same_devices [OF 1(1), of p]
  show ?case by (simp add: cdb_invar_def)
next
  case (2 d name em y d')
  then obtain p where call: "Store_CreateUser s name em (cdb_db d) = (y, p)" and d': "d' = d\<lparr>cdb_db := p\<rparr>"
    by (auto simp: Store_UsersDB_def on_db_state)
  from 2(1) have "pg_invar (cdb_db d)" by (simp add: cdb_invar_def)
  from create_user_view [OF this call] cdb_with_respelled [OF 2(1), of p] show ?case by (auto simp: d')
next
  case (3 d em z d')
  then show ?case by (rule delete_user_state)
qed

text \<open>
  C38. \<^verbatim>\<open>CreateUser\<close> registers or returns the user with that e-mail. When it succeeds, the user it
  returns is in the table under the spelling asked for; no session is lost or handed to another user:
  every device keeps its secret, its generation and its owner; and the schema's constraints hold.
\<close>

theorem CreateUser_keeps_sessions:
  assumes "pg_wf p" and "Store_CreateUser s name em p = (Inr u, q)"
  shows "User_Email u = em \<and> pg_wf q
    \<and> (\<exists>row\<in>set (users q). user_id row = User_ID u \<and> username row = Some (User_Username u) \<and> email row = em)
    \<and> (\<forall>k. map_option (\<lambda>r. (secret r, generation r)) (device_at q k) = map_option (\<lambda>r. (secret r, generation r)) (device_at p k))
    \<and> (\<forall>k e. (\<exists>r. device_at q k = Some r \<and> email_eq q (user_email r) e) = (\<exists>r. device_at p k = Some r \<and> email_eq p (user_email r) e))"
proof -
  from assms(2) obtain row where run: "pg_exec (upsert_user name em) p = (Inr row, q)"
    and u: "User_ID u = user_id row" "username row = Some (User_Username u)" "User_Email u = email row"
    by (auto simp: Store_CreateUser_def scan_user_def split: if_splits prod.splits sum.splits option.splits)
  from pg_exec_Inr [OF run] obtain q' where st: "upsert_user name em p = Inr (row, q')"
    and q: "q = q'\<lparr>pg_calls := Suc (pg_calls p)\<rparr>" by blast
  from upsert_user_view [OF assms(1) st] obtain f where v: "pg_wf q'" "same_server p q'" "email row = em" "row \<in> set (users q')"
    and dev: "device_at q' = (\<lambda>k. map_option f (device_at p k))"
    and f: "\<And>r. secret (f r) = secret r \<and> generation (f r) = generation r"
      "\<And>r e. email_eq p (user_email (f r)) e \<longleftrightarrow> email_eq p (user_email r) e"
    by blast
  have "email_eq q = email_eq p" using v(2) by (simp add: q same_server_def)
  moreover have "map_option (\<lambda>r. (secret r, generation r)) (device_at q k) = map_option (\<lambda>r. (secret r, generation r)) (device_at p k)" for k
    by (simp add: q dev option.map_comp comp_def f(1))
  ultimately show ?thesis using v u f(2) by (auto simp: q dev)
qed

theorem CreateUser_keeps_sessions_witness:
  "(\<exists>row\<in>set (users (snd (Store_CreateUser \<lparr>external = False, selectUsernameQuery = ''q''\<rparr> ''bob'' ''b@x'' demo_pg))).
      email row = ''b@x'')"
proof -
  let ?s = "\<lparr>external = False, selectUsernameQuery = ''q''\<rparr>"
  let ?u = "\<lparr>User_ID = ''d'', User_Username = ''bob'', User_Email = ''b@x''\<rparr>"
  have "Store_CreateUser ?s ''bob'' ''b@x'' demo_pg = (Inr ?u, snd (Store_CreateUser ?s ''bob'' ''b@x'' demo_pg))"
    by (simp add: Store_CreateUser_def scan_user_def pg_exec_def upsert_user_def demo_pg_def Let_def)
  from CreateUser_keeps_sessions [OF demo_pg_ok(1) this] show ?thesis by blast
qed

text \<open>
  Deleting an account leaves nothing behind: after \<^verbatim>\<open>DeleteUser\<close> succeeded, the user is unknown to
  \<^verbatim>\<open>GetUsername\<close>, no device belongs to the e-mail, and every other user and device is as before.
\<close>

theorem DeleteUser_removes_account:
  assumes "pg_wf p" and "Store_DeleteUser s em p = (None, q)" and "pg_up q" and "selectUsernameQuery s \<noteq> ''''"
  shows "fst (Store_GetUsername s em q) = Inl ErrUserNotFound \<and> pg_wf q
    \<and> (\<forall>k r. device_at q k = Some r \<longleftrightarrow> device_at p k = Some r \<and> \<not> email_eq p (user_email r) em)
    \<and> (\<forall>e. \<not> email_eq p e em \<longrightarrow> Store_GetUsername s e q = (fst (Store_GetUsername s e (p\<lparr>pg_calls := pg_calls q\<rparr>)), q\<lparr>pg_calls := Suc (pg_calls q)\<rparr>))"
proof -
  from assms(2) obtain v where "pg_exec (delete_user em) p = (Inr v, q)"
    by (auto simp: Store_DeleteUser_def split: if_splits prod.splits sum.splits)
  from pg_exec_Inr [OF this] obtain q' where st: "delete_user em p = Inr (v, q')"
    and q: "q = q'\<lparr>pg_calls := Suc (pg_calls p)\<rparr>" by blast
  note v = delete_user_view [OF assms(1) st]
  have eqs: "email_eq q = email_eq p" "users q = filter (\<lambda>u. \<not> email_eq p (email u) em) (users p)"
    using v by (auto simp: q same_server_def)
  have up': "pg_up (p\<lparr>pg_calls := pg_calls q\<rparr>)"
    using assms(3) v by (simp add: pg_up_def q same_server_def)
  have gone: "List.find (\<lambda>u. email_eq q (email u) em) (users q) = None" by (auto simp: eqs find_None_iff)
  then have "fst (Store_GetUsername s em q) = Inl ErrUserNotFound"
    using assms(4) by (simp add: Store_GetUsername_def pg_exec_up [OF assms(3)] select_username_def)
  moreover have "List.find (\<lambda>u. email_eq q (email u) e) (users q) = List.find (\<lambda>u. email_eq p (email u) e) (users p)"
    if "\<not> email_eq p e em" for e
  proof -
    have "email_eq p (email x) e \<Longrightarrow> \<not> email_eq p (email x) em" for x
      using that pg_email_equiv(2,3) [OF assms(1)] by (metis (no_types))
    then show ?thesis unfolding eqs by (rule find_filter_implied)
  qed
  then have "Store_GetUsername s e q = (fst (Store_GetUsername s e (p\<lparr>pg_calls := pg_calls q\<rparr>)), q\<lparr>pg_calls := Suc (pg_calls q)\<rparr>)"
    if "\<not> email_eq p e em" for e
    using that assms(4)
    by (auto simp: Store_GetUsername_def pg_exec_up [OF assms(3)] pg_exec_up [OF up'] select_username_def split: option.splits)
  ultimately show ?thesis using v by (auto simp: q split: option.splits)
qed

theorem DeleteUser_removes_account_witness:
  "fst (Store_GetUsername \<lparr>external = False, selectUsernameQuery = ''q''\<rparr> ''a@x''
     (snd (Store_DeleteUser \<lparr>external = False, selectUsernameQuery = ''q''\<rparr> ''a@x'' demo_pg))) = Inl ErrUserNotFound"
proof -
  let ?s = "\<lparr>external = False, selectUsernameQuery = ''q''\<rparr>"
  let ?q = "snd (Store_DeleteUser ?s ''a@x'' demo_pg)"
  have "Store_DeleteUser ?s ''a@x'' demo_pg = (None, ?q)" and "pg_up ?q"
    by (simp_all add: Store_DeleteUser_def pg_exec_def delete_user_def demo_pg_def pg_up_def)
  from DeleteUser_removes_account [OF demo_pg_ok(1) this] show ?thesis by simp
qed

end
