(* ===== verification/Http.thy ===== *)
theory Http
  imports Jwt
begin

text \<open>
  Requests and responses as the handlers see them (the part of \<^verbatim>\<open>net/http\<close> they use),
  \<^verbatim>\<open>handlers/response/response.go\<close>, \<^verbatim>\<open>handlers/refreshtoken/refreshtoken.go\<close> and
  \<^verbatim>\<open>handlers/health/health.go\<close>.

  A response writer is the state the handlers change: headers, cookies, the status (the first
  \<^verbatim>\<open>WriteHeader\<close> counts, and headers set after it are not sent) and the body. A request body is kept
  as what the JSON decoder makes of it. Log lines are not modelled.
\<close>

section \<open>Requests and responses\<close>

datatype SameSite = SameSiteDefault | SameSiteLaxMode | SameSiteStrictMode | SameSiteNoneMode

record Cookie =
  Cookie_Name :: string
  Cookie_Value :: string
  Cookie_Path :: string
  Cookie_Expires :: "time option"
  Cookie_MaxAge :: int
  Cookie_HttpOnly :: bool
  Cookie_Secure :: bool
  Cookie_SameSite :: SameSite

definition zero_Cookie :: Cookie where
  "zero_Cookie = \<lparr>Cookie_Name = '''', Cookie_Value = '''', Cookie_Path = '''', Cookie_Expires = None,
     Cookie_MaxAge = 0, Cookie_HttpOnly = False, Cookie_Secure = False, Cookie_SameSite = SameSiteDefault\<rparr>"

record TokenPair =
  AccessToken :: string
  RefreshToken :: string

record LoginResponse =
  Verifier :: string
  URL :: string

datatype message = MsgText string | MsgTokens TokenPair | MsgLogin LoginResponse

datatype http_body = JsonBody bool message | RawBody string

record ResponseWriter =
  w_header :: "(string \<times> string) list"
  w_cookies :: "Cookie list"
  w_status :: "int option"
  w_body :: "http_body option"

definition new_writer :: ResponseWriter where
  "new_writer = \<lparr>w_header = [], w_cookies = [], w_status = None, w_body = None\<rparr>"

record refreshtoken_Request =
  req_RefreshToken :: string

record Request =
  r_Cookies :: "(string \<times> string) list"
  r_Header :: "(string \<times> string) list"
  r_Body :: "go_error + refreshtoken_Request"
  r_Query :: "(string \<times> string) list"
  r_UserAgent :: string

definition header_Get :: "Request \<Rightarrow> string \<Rightarrow> string" where
  "header_Get r k = (case map_of (r_Header r) k of None \<Rightarrow> '''' | Some v \<Rightarrow> v)"

definition FormValue :: "Request \<Rightarrow> string \<Rightarrow> string" where
  "FormValue r k = (case map_of (r_Query r) k of None \<Rightarrow> '''' | Some v \<Rightarrow> v)"

definition header_Set :: "string \<Rightarrow> string \<Rightarrow> ResponseWriter \<Rightarrow> ResponseWriter" where
  "header_Set k v w =
     (if w_status w = None then w\<lparr>w_header := (k, v) # filter (\<lambda>x. fst x \<noteq> k) (w_header w)\<rparr> else w)"

definition WriteHeader :: "int \<Rightarrow> ResponseWriter \<Rightarrow> ResponseWriter" where
  "WriteHeader code w = (if w_status w = None then w\<lparr>w_status := Some code\<rparr> else w)"

definition http_SetCookie :: "Cookie \<Rightarrow> ResponseWriter \<Rightarrow> ResponseWriter" where
  "http_SetCookie c w = (if w_status w = None then w\<lparr>w_cookies := w_cookies w @ [c]\<rparr> else w)"

definition w_lookup :: "ResponseWriter \<Rightarrow> string \<Rightarrow> string option" where
  "w_lookup w k = map_of (w_header w) k"

definition StatusOK :: int where "StatusOK = 200"
definition StatusNoContent :: int where "StatusNoContent = 204"
definition StatusFound :: int where "StatusFound = 302"
definition StatusBadRequest :: int where "StatusBadRequest = 400"
definition StatusUnauthorized :: int where "StatusUnauthorized = 401"
definition StatusForbidden :: int where "StatusForbidden = 403"
definition StatusInternalServerError :: int where "StatusInternalServerError = 500"
definition StatusBadGateway :: int where "StatusBadGateway = 502"
definition StatusServiceUnavailable :: int where "StatusServiceUnavailable = 503"
definition StatusGatewayTimeout :: int where "StatusGatewayTimeout = 504"

lemmas status_codes = StatusOK_def StatusNoContent_def StatusFound_def StatusBadRequest_def StatusUnauthorized_def
  StatusForbidden_def StatusInternalServerError_def StatusBadGateway_def StatusServiceUnavailable_def StatusGatewayTimeout_def

section \<open>\<^verbatim>\<open>response.go\<close>\<close>

definition response_JSON :: "bool \<Rightarrow> message \<Rightarrow> int \<Rightarrow> ResponseWriter \<Rightarrow> ResponseWriter" where
  "response_JSON success msg code w =
     (let w1 = WriteHeader code (header_Set ''Content-Type'' ''application/json'' w)
      in w1\<lparr>w_body := Some (JsonBody success msg)\<rparr>)"

definition BearerChallenge :: string where
  "BearerChallenge = ''Bearer''"

definition InvalidTokenChallenge :: string where
  "InvalidTokenChallenge = ''Bearer error=\"invalid_token\"''"

definition AuthErrorHeader :: string where
  "AuthErrorHeader = ''X-Auth-Error''"

definition AuthErrorDeviceNotFound :: string where
  "AuthErrorDeviceNotFound = ''device_not_found''"

definition AuthErrorInvalidSignature :: string where
  "AuthErrorInvalidSignature = ''invalid_signature''"

definition SetAuthError :: "go_error \<Rightarrow> ResponseWriter \<Rightarrow> ResponseWriter" where
  "SetAuthError err w =
     (if errors_Is err ErrDeviceNotFound then header_Set AuthErrorHeader AuthErrorDeviceNotFound w
      else if errors_Is err ErrInvalidSignature then header_Set AuthErrorHeader AuthErrorInvalidSignature w
      else w)"

definition Unauthorized :: "string \<Rightarrow> string \<Rightarrow> ResponseWriter \<Rightarrow> ResponseWriter" where
  "Unauthorized challenge msg w =
     response_JSON False (MsgText msg) StatusUnauthorized (header_Set ''WWW-Authenticate'' challenge w)"

definition NoStoreJSON :: "bool \<Rightarrow> message \<Rightarrow> int \<Rightarrow> ResponseWriter \<Rightarrow> ResponseWriter" where
  "NoStoreJSON success msg code w = response_JSON success msg code (header_Set ''Cache-Control'' ''no-store'' w)"

section \<open>\<^verbatim>\<open>refreshtoken.go\<close>\<close>

definition CookieName :: string where
  "CookieName = ''refresh_token''"

definition FromRequest :: "Request \<Rightarrow> go_error + string" where
  "FromRequest r =
     (case map_of (r_Cookies r) CookieName of
        Some val \<Rightarrow> Inr val
      | None \<Rightarrow> (case r_Body r of Inl err \<Rightarrow> Inl err | Inr req \<Rightarrow> Inr (req_RefreshToken req)))"

definition expiryOf :: "jwt_lib \<Rightarrow> string \<Rightarrow> time option" where
  "expiryOf L t =
     (case lib_ParseUnverified L t (RegisteredClaimsOf zero_registered) of
        (_, Inl _) \<Rightarrow> None
      | (c, Inr _) \<Rightarrow> ExpiresAt (claims_registered c))"

definition refreshtoken_SetCookie :: "jwt_lib \<Rightarrow> string \<Rightarrow> bool \<Rightarrow> ResponseWriter \<Rightarrow> ResponseWriter" where
  "refreshtoken_SetCookie L t secure w =
     (let c = zero_Cookie\<lparr>Cookie_Name := CookieName, Cookie_Value := t, Cookie_Path := ''/'', Cookie_HttpOnly := True,
                Cookie_Secure := secure, Cookie_SameSite := SameSiteLaxMode\<rparr>;
          c1 = (case expiryOf L t of Some e \<Rightarrow> c\<lparr>Cookie_Expires := Some e\<rparr> | None \<Rightarrow> c)
      in http_SetCookie c1 w)"

definition ClearCookie :: "ResponseWriter \<Rightarrow> ResponseWriter" where
  "ClearCookie w = http_SetCookie (zero_Cookie\<lparr>Cookie_Name := CookieName, Cookie_Value := '''', Cookie_Path := ''/'',
     Cookie_MaxAge := -1, Cookie_HttpOnly := True\<rparr>) w"

section \<open>\<^verbatim>\<open>health.go\<close>\<close>

definition health_Handle :: "ResponseWriter \<Rightarrow> ResponseWriter" where
  "health_Handle w = (WriteHeader StatusOK w)\<lparr>w_body := Some (RawBody ''OK'')\<rparr>"

section \<open>Reading a response\<close>

lemma map_of_filter_other: "k \<noteq> j \<Longrightarrow> map_of (filter (\<lambda>x. fst x \<noteq> j) xs) k = map_of xs k"
  by (induction xs) auto

lemma lookup_header_Set [simp]:
  "w_lookup (header_Set k v w) j = (if w_status w = None \<and> j = k then Some v else w_lookup w j)"
  by (auto simp: w_lookup_def header_Set_def map_of_filter_other)

lemma writer_simps [simp]:
  "w_status (header_Set k v w) = w_status w" "w_cookies (header_Set k v w) = w_cookies w" "w_body (header_Set k v w) = w_body w"
  "w_lookup (WriteHeader c w) = w_lookup w" "w_cookies (WriteHeader c w) = w_cookies w" "w_body (WriteHeader c w) = w_body w"
  "w_status (WriteHeader c w) = (case w_status w of None \<Rightarrow> Some c | Some s \<Rightarrow> Some s)"
  "w_status (http_SetCookie ck w) = w_status w" "w_lookup (http_SetCookie ck w) = w_lookup w" "w_body (http_SetCookie ck w) = w_body w"
  "w_lookup (w\<lparr>w_body := b\<rparr>) = w_lookup w"
  by (auto simp: header_Set_def WriteHeader_def http_SetCookie_def w_lookup_def fun_eq_iff split: option.splits)

lemma new_writer_simps [simp]:
  "w_status new_writer = None" "w_cookies new_writer = []" "w_body new_writer = None" "w_lookup new_writer k = None"
  by (simp_all add: new_writer_def w_lookup_def)

lemma response_JSON_simps [simp]:
  "w_status (response_JSON ok msg code w) = (case w_status w of None \<Rightarrow> Some code | Some s \<Rightarrow> Some s)"
  "w_body (response_JSON ok msg code w) = Some (JsonBody ok msg)"
  "w_cookies (response_JSON ok msg code w) = w_cookies w"
  "k \<noteq> ''Content-Type'' \<Longrightarrow> w_lookup (response_JSON ok msg code w) k = w_lookup w k"
  by (simp_all add: response_JSON_def Let_def)

lemma SetAuthError_simps [simp]:
  "w_status (SetAuthError e w) = w_status w" "w_cookies (SetAuthError e w) = w_cookies w" "w_body (SetAuthError e w) = w_body w"
  "k \<noteq> AuthErrorHeader \<Longrightarrow> w_lookup (SetAuthError e w) k = w_lookup w k"
  by (simp_all add: SetAuthError_def)

lemma Unauthorized_simps [simp]:
  "w_status (Unauthorized ch msg w) = (case w_status w of None \<Rightarrow> Some StatusUnauthorized | Some s \<Rightarrow> Some s)"
  "w_body (Unauthorized ch msg w) = Some (JsonBody False (MsgText msg))" "w_cookies (Unauthorized ch msg w) = w_cookies w"
  "k \<noteq> ''Content-Type'' \<Longrightarrow> k \<noteq> ''WWW-Authenticate'' \<Longrightarrow> w_lookup (Unauthorized ch msg w) k = w_lookup w k"
  by (simp_all add: Unauthorized_def)

end
