(* ===== verification/Session.thy ===== *)
theory Session
  imports Users_Store Http Demo
begin

text \<open>
  \<^verbatim>\<open>server/internal/identity/identity.go\<close> and \<^verbatim>\<open>server/internal/handlers/session/session.go\<close>: the
  token that tells a backend who the caller is, and the handlers \<^verbatim>\<open>/verify\<close>, \<^verbatim>\<open>/logout\<close> and
  \<^verbatim>\<open>/users/me\<close>. A handler is a function of the request, the state behind the interfaces and
  the response writer.
\<close>

section \<open>Identity tokens\<close>

definition TokenType :: string where
  "TokenType = ''identity+jwt''"

definition MinSecretLength :: nat where
  "MinSecretLength = 32"

definition TokenDuration :: duration where
  "TokenDuration = Minute"

record Signer =
  signer_secret :: string
  signer_issuer :: string
  signer_audience :: "string list"

definition NewSigner :: "string \<Rightarrow> string \<Rightarrow> string \<Rightarrow> Signer" where
  "NewSigner sec issuer audience =
     (let signer = \<lparr>signer_secret = sec, signer_issuer = issuer, signer_audience = []\<rparr>
      in if audience \<noteq> '''' then signer\<lparr>signer_audience := [audience]\<rparr> else signer)"

definition identity_claims :: "jwt_lib \<Rightarrow> Signer \<Rightarrow> time \<Rightarrow> string \<Rightarrow> string \<Rightarrow> string \<Rightarrow> time option \<Rightarrow> IdentityClaims" where
  "identity_claims L s now userEmail name deviceID accessExpiresAt =
     (let expiresAt = now + TokenDuration;
          expiresAt' = (case accessExpiresAt of Some t \<Rightarrow> if t < expiresAt then t else expiresAt | None \<Rightarrow> expiresAt)
      in \<lparr>id_Username = name, id_DeviceID = deviceID,
          id_Registered = \<lparr>Issuer = signer_issuer s, Subject = userEmail, Audience = signer_audience s,
            ExpiresAt = Some (lib_NewNumericDate L expiresAt'), NotBefore = None,
            IssuedAt = Some (lib_NewNumericDate L now), ClaimsID = ''''\<rparr>\<rparr>)"

definition Signer_Sign ::
  "jwt_lib \<Rightarrow> Signer \<Rightarrow> time \<Rightarrow> string \<Rightarrow> string \<Rightarrow> string \<Rightarrow> time option \<Rightarrow> go_error + string" where
  "Signer_Sign L s now userEmail name deviceID accessExpiresAt =
     (let claims = identity_claims L s now userEmail name deviceID accessExpiresAt;
          t = NewWithClaims (SigningMethodHMAC ''HS256'') ''HS256'' (IdentityClaimsOf claims)
      in lib_SignedString L (t\<lparr>Header := set_header ''typ'' (AnyString TokenType) (Header t)\<rparr>) (signer_secret s))"

section \<open>The session handlers\<close>

record 'd session_Handler =
  session_db :: "'d options_DB"
  session_usersDB :: "'d options_UsersDB"
  session_jwtManager :: "'d JWTManager"
  session_identitySigner :: "Signer option"

definition session_New ::
  "'d options_DB \<Rightarrow> 'd options_UsersDB \<Rightarrow> 'd JWTManager \<Rightarrow> Signer option \<Rightarrow> 'd session_Handler" where
  "session_New db usersDB jwtManager signer = \<lparr>session_db = db, session_usersDB = usersDB,
     session_jwtManager = jwtManager, session_identitySigner = signer\<rparr>"

definition IdentityHeader :: string where
  "IdentityHeader = ''X-Forwarded-Identity''"

definition bearerToken :: "unicode \<Rightarrow> Request \<Rightarrow> string option" where
  "bearerToken U r =
     (case strings_Cut (header_Get r ''Authorization'') '' '' of
        (scheme, t, found) \<Rightarrow> if \<not> found \<or> \<not> strings_EqualFold U scheme ''Bearer'' then None else Some t)"

definition session_Verify ::
  "jwt_lib \<Rightarrow> 'd session_Handler \<Rightarrow> clock \<Rightarrow> Request \<Rightarrow> ResponseWriter \<Rightarrow> 'd \<Rightarrow> ResponseWriter \<times> 'd" where
  "session_Verify L h clk r w d =
     (case bearerToken (lib_unicode L) r of
        None \<Rightarrow> (Unauthorized BearerChallenge ''Missing Bearer token'' w, d)
      | Some tokenStr \<Rightarrow>
          (case VerifyAccess L (session_jwtManager h) (clk 0) tokenStr d of
             ((_, Some err), d1) \<Rightarrow>
               (Unauthorized InvalidTokenChallenge ''Invalid access token'' (SetAuthError err w), d1)
           | ((claims, None), d1) \<Rightarrow>
               (case session_identitySigner h of
                  Some signer \<Rightarrow>
                    (case Signer_Sign L signer (clk 1) (ac_UserEmail claims) (ac_Username claims) (ac_DeviceID claims)
                            (ExpiresAt (ac_Registered claims)) of
                       Inl _ \<Rightarrow>
                         (response_JSON False (MsgText ''Failed to sign identity token'') StatusInternalServerError w, d1)
                     | Inr identityToken \<Rightarrow>
                         (WriteHeader StatusNoContent (header_Set IdentityHeader identityToken w), d1))
                | None \<Rightarrow>
                    (let w1 = header_Set ''X-Forwarded-User-Email'' (ac_UserEmail claims) w;
                         w2 = header_Set ''X-Forwarded-Device-ID'' (ac_DeviceID claims) w1;
                         w3 = (if ac_Username claims \<noteq> '''' then header_Set ''X-Forwarded-Username'' (ac_Username claims) w2 else w2)
                     in (WriteHeader StatusNoContent w3, d1)))))"

definition session_Logout ::
  "jwt_lib \<Rightarrow> 'd session_Handler \<Rightarrow> clock \<Rightarrow> Request \<Rightarrow> ResponseWriter \<Rightarrow> 'd \<Rightarrow> ResponseWriter \<times> 'd" where
  "session_Logout L h clk r w d =
     (let d' = (case FromRequest r of
                  Inl _ \<Rightarrow> d
                | Inr refreshToken \<Rightarrow>
                    (case VerifyRefresh L (session_jwtManager h) (clk 0) refreshToken d of
                       ((_, Some _), d1) \<Rightarrow> d1
                     | ((claims, None), d1) \<Rightarrow>
                         snd (DeleteDevice (session_db h) (Subject (rf_Registered claims)) (rf_DeviceID claims) d1)))
      in (response_JSON True (MsgText ''Logged out and device session revoked'') StatusOK (ClearCookie w), d'))"

definition session_DeleteMe ::
  "jwt_lib \<Rightarrow> 'd session_Handler \<Rightarrow> clock \<Rightarrow> Request \<Rightarrow> ResponseWriter \<Rightarrow> 'd \<Rightarrow> ResponseWriter \<times> 'd" where
  "session_DeleteMe L h clk r w d =
     (case bearerToken (lib_unicode L) r of
        None \<Rightarrow> (Unauthorized BearerChallenge ''Missing Bearer token'' w, d)
      | Some tokenStr \<Rightarrow>
          (case VerifyAccess L (session_jwtManager h) (clk 0) tokenStr d of
             ((_, Some err), d1) \<Rightarrow>
               (Unauthorized InvalidTokenChallenge ''Invalid access token'' (SetAuthError err w), d1)
           | ((claims, None), d1) \<Rightarrow>
               (let userEmail = ac_UserEmail claims
                in case DeleteAllDevices (session_db h) userEmail d1 of
                     (Some _, d2) \<Rightarrow>
                       (response_JSON False (MsgText ''Failed to remove device sessions'') StatusInternalServerError w, d2)
                   | (None, d2) \<Rightarrow>
                       (case DeleteUser (session_usersDB h) userEmail d2 of
                          (Some _, d3) \<Rightarrow>
                            (response_JSON False (MsgText ''Failed to delete account'') StatusInternalServerError w, d3)
                        | (None, d3) \<Rightarrow>
                            (response_JSON True (MsgText ''Account deleted'') StatusOK (ClearCookie w), d3)))))"

section \<open>Lemmas\<close>

lemma identity_rejected:
  assumes "jwt_laws L" and "lib_SignedString L t key = Inr s" and "names_method t" and "encodable L (Claims t)"
    and "map_of (Header t) ''typ'' = Some (AnyString TokenType)"
  shows "\<not> carries L s c key'"
proof
  assume "carries L s c key'"
  then obtain u ty k g where u: "lib_ParseUnverified L s (zero_like c) = (c, Inr u)"
    and i: "token_identity c = Some (ty, k, g)" and h: "hasTokenType L u ty"
    by (auto simp: carries_def)
  from lib_same_header [OF assms(1) lib_signed(1) [OF assms(1-4)] u] assms(5)
  have "map_of (Header u) ''typ'' = Some (AnyString TokenType)" by simp
  with h token_identity_typ [OF i] show False
    by (auto simp: hasTokenType_def TokenType_def AccessTokenType_def RefreshTokenType_def strings_ToLower_def
        is_ascii_def ascii_lower_def byte_of_def strings_TrimPrefix_def strings_CutPrefix_def)
qed

lemma identity_encodable:
  assumes "jwt_laws L" and "list_all (lib_text L) ([em, name, k, '''', signer_issuer sg] @ signer_audience sg)"
  shows "encodable L (IdentityClaimsOf (identity_claims L sg now em name k exp))"
  using assms(2) lib_date(3) [OF assms(1)]
  by (auto simp: encodable_def identity_claims_def Let_def registered_texts_def registered_dates_def map_filter_def)

section \<open>Properties\<close>

text \<open>
  C11. \<^verbatim>\<open>/verify\<close> vouches exactly for verified callers. The answer is 204 if and only if the bearer token
  passes \<^verbatim>\<open>VerifyAccess\<close> and the identity token, if configured, can be signed; it is 500 if and only if the token
  passes but the identity token cannot be signed, and 401 in every other case. A 204
  names the user of the token's claims, either by the identity token alone or by the
  plain headers alone. No other answer carries any of these headers.
\<close>

theorem Verify_forwards_only_verified:
  assumes "session_Verify L h clk r new_writer d = (w, d')"
  shows "(w_status w = Some StatusNoContent \<longleftrightarrow> (\<exists>t claims. bearerToken (lib_unicode L) r = Some t
      \<and> fst (VerifyAccess L (session_jwtManager h) (clk 0) t d) = (claims, None)
      \<and> (\<forall>sg. session_identitySigner h = Some sg \<longrightarrow> (\<exists>i. Signer_Sign L sg (clk 1) (ac_UserEmail claims) (ac_Username claims)
            (ac_DeviceID claims) (ExpiresAt (ac_Registered claims)) = Inr i))))
    \<and> (w_status w = Some StatusInternalServerError \<longleftrightarrow> (\<exists>t claims sg e. bearerToken (lib_unicode L) r = Some t
      \<and> fst (VerifyAccess L (session_jwtManager h) (clk 0) t d) = (claims, None) \<and> session_identitySigner h = Some sg
      \<and> Signer_Sign L sg (clk 1) (ac_UserEmail claims) (ac_Username claims) (ac_DeviceID claims)
          (ExpiresAt (ac_Registered claims)) = Inl e))
    \<and> w_status w \<in> {Some StatusNoContent, Some StatusInternalServerError, Some StatusUnauthorized}
    \<and> (if w_status w = Some StatusNoContent
    then \<exists>t claims. bearerToken (lib_unicode L) r = Some t
      \<and> VerifyAccess L (session_jwtManager h) (clk 0) t d = ((claims, None), d')
      \<and> (case session_identitySigner h of
           None \<Rightarrow> w_lookup w ''X-Forwarded-User-Email'' = Some (ac_UserEmail claims)
             \<and> w_lookup w ''X-Forwarded-Device-ID'' = Some (ac_DeviceID claims)
             \<and> w_lookup w ''X-Forwarded-Username'' = (if ac_Username claims = '''' then None else Some (ac_Username claims))
             \<and> w_lookup w IdentityHeader = None
         | Some sg \<Rightarrow> (\<exists>i. w_lookup w IdentityHeader = Some i
               \<and> Signer_Sign L sg (clk 1) (ac_UserEmail claims) (ac_Username claims) (ac_DeviceID claims)
                   (ExpiresAt (ac_Registered claims)) = Inr i)
             \<and> w_lookup w ''X-Forwarded-User-Email'' = None \<and> w_lookup w ''X-Forwarded-Device-ID'' = None
             \<and> w_lookup w ''X-Forwarded-Username'' = None)
    else w_lookup w ''X-Forwarded-User-Email'' = None \<and> w_lookup w ''X-Forwarded-Device-ID'' = None
      \<and> w_lookup w ''X-Forwarded-Username'' = None \<and> w_lookup w IdentityHeader = None)"
proof (cases "bearerToken (lib_unicode L) r")
  note simps = session_Verify_def Let_def IdentityHeader_def AuthErrorHeader_def status_codes
  case None
  with assms show ?thesis by (auto simp: simps)
next
  note simps = session_Verify_def Let_def IdentityHeader_def AuthErrorHeader_def status_codes
  case (Some t)
  obtain c e d1 where v: "VerifyAccess L (session_jwtManager h) (clk 0) t d = ((c, e), d1)" by (metis prod.collapse)
  show ?thesis
  proof (cases e)
    case None
    note ok = Some v [unfolded None]
    show ?thesis
    proof (cases "session_identitySigner h")
      case None
      with assms ok show ?thesis by (auto simp: simps)
    next
      case (Some sg)
      with assms ok show ?thesis
        by (cases "Signer_Sign L sg (clk 1) (ac_UserEmail c) (ac_Username c) (ac_DeviceID c) (ExpiresAt (ac_Registered c))")
          (auto simp: simps)
    qed
  next
    case (Some err)
    with assms v \<open>bearerToken (lib_unicode L) r = Some t\<close> show ?thesis by (auto simp: simps)
  qed
qed

theorem Verify_forwards_only_verified_witness:
  "\<exists>w d'. session_Verify demo_lib (session_New (CachedDB_DB memory_SecretCache) (Store_UsersDB \<lparr>external = False, selectUsernameQuery = ''q''\<rparr>)
      (demo_manager memory_SecretCache) None) (\<lambda>_. 0)
      \<lparr>r_Cookies = [], r_Header = [(''Authorization'', ''Bearer a1'')], r_Body = Inl ErrNoRows, r_Query = [], r_UserAgent = ''''\<rparr>
      new_writer (NewCachedDB demo_saved demo_memory) = (w, d')
    \<and> w_lookup w ''X-Forwarded-User-Email'' = Some ''a@x''"
proof -
  let ?h = "session_New (CachedDB_DB memory_SecretCache) (Store_UsersDB \<lparr>external = False, selectUsernameQuery = ''q''\<rparr>)
      (demo_manager memory_SecretCache) None"
  let ?r = "\<lparr>r_Cookies = [], r_Header = [(''Authorization'', ''Bearer a1'')], r_Body = Inl ErrNoRows, r_Query = [], r_UserAgent = ''''\<rparr>"
  let ?d = "NewCachedDB demo_saved demo_memory"
  obtain w d' where run: "session_Verify demo_lib ?h (\<lambda>_. 0) ?r new_writer ?d = (w, d')" by fastforce
  have b: "bearerToken U ?r = Some ''a1''" for U
    by (simp add: bearerToken_def header_Get_def strings_EqualFold_def is_ascii_def ascii_lower_def byte_of_def)
  obtain d1 where "VerifyAccess demo_lib (demo_manager memory_SecretCache) 0 ''a1'' ?d = ((demo_access 1, None), d1)"
    by (rule mem.demo_verify_access [OF demo_saved_invar(1)])
  then have "w_status w = Some StatusNoContent" and v: "VerifyAccess demo_lib (session_jwtManager ?h) 0 ''a1'' ?d = ((demo_access 1, None), d1)"
    using run by (auto simp: session_Verify_def b session_New_def Let_def)
  with Verify_forwards_only_verified [OF run] b have "w_lookup w ''X-Forwarded-User-Email'' = Some ''a@x''"
    by (auto simp: session_New_def demo_access_def)
  with run show ?thesis by blast
qed

text \<open>
  C36. An identity token says no more than the access token it comes from: it parses back to the given
  user, name and device, it expires no later than one minute after it was issued and no later than
  the access token, and it is not accepted as an access or refresh token by any token manager,
  even one that uses the same secret.
\<close>

theorem identity_token_confined:
  assumes "jwt_laws L" and "Signer_Sign L sg now em name k exp = Inr s"
    and "list_all (lib_text L) ([em, name, k, '''', signer_issuer sg] @ signer_audience sg)"
  shows "\<exists>c u t. lib_ParseUnverified L s (IdentityClaimsOf zero_identity) = (IdentityClaimsOf c, Inr u)
      \<and> lib_signature_ok L s (signer_secret sg)
      \<and> Subject (id_Registered c) = em \<and> id_Username c = name \<and> id_DeviceID c = k
      \<and> ExpiresAt (id_Registered c) = Some t \<and> t \<le> now + Minute \<and> (\<forall>e. exp = Some e \<longrightarrow> t \<le> e)
    \<and> (\<forall>m at d. snd (fst (VerifyAccess L m at s d)) \<noteq> None)
    \<and> (\<forall>m at d. snd (fst (VerifyRefresh L m at s d)) \<noteq> None)"
proof -
  let ?c = "identity_claims L sg now em name k exp"
  let ?t0 = "NewWithClaims (SigningMethodHMAC ''HS256'') ''HS256'' (IdentityClaimsOf ?c)"
  let ?t = "?t0\<lparr>Header := set_header ''typ'' (AnyString TokenType) (Header ?t0)\<rparr>"
  from assms(2) have sign: "lib_SignedString L ?t (signer_secret sg) = Inr s" by (simp add: Signer_Sign_def Let_def)
  have enc: "encodable L (Claims ?t)" using identity_encodable [OF assms(1,3)] by (simp add: NewWithClaims_def)
  have never: "\<not> carries L s c key" for c key
    by (rule identity_rejected [OF assms(1) sign names_method_New(2) enc]) simp
  have acc: "snd (fst (VerifyAccess L m at s d)) \<noteq> None" for m at and d :: 'a
    using VerifyAccess_sound [OF assms(1), of m at s d] never by (metis prod.collapse)
  have ref: "snd (fst (VerifyRefresh L m at s d)) \<noteq> None" for m at and d :: 'b
    using VerifyRefresh_sound [OF assms(1), of m at s d] never by (metis prod.collapse)
  have parse: "lib_ParseUnverified L s (IdentityClaimsOf zero_identity) = (IdentityClaimsOf ?c, Inr (?t\<lparr>Valid := False\<rparr>))"
    and sig: "lib_signature_ok L s (signer_secret sg)"
    using lib_signed [OF assms(1) sign names_method_New(2) enc] by (simp_all add: NewWithClaims_def)
  let ?e = "case exp of Some t \<Rightarrow> if t < now + TokenDuration then t else now + TokenDuration | None \<Rightarrow> now + TokenDuration"
  have "ExpiresAt (id_Registered ?c) = Some (lib_NewNumericDate L ?e)" by (simp add: identity_claims_def Let_def)
  moreover have "lib_NewNumericDate L ?e \<le> now + Minute" "\<forall>e. exp = Some e \<longrightarrow> lib_NewNumericDate L ?e \<le> e"
    using lib_date(1) [OF assms(1), of ?e] by (auto simp: TokenDuration_def split: option.splits)
  moreover have "Subject (id_Registered ?c) = em" "id_Username ?c = name" "id_DeviceID ?c = k"
    by (simp_all add: identity_claims_def Let_def)
  ultimately show ?thesis using parse sig acc ref by blast
qed

definition demo_signer :: Signer where
  "demo_signer = NewSigner ''k'' '''' ''''"

definition demo_identity_lib :: jwt_lib where
  "demo_identity_lib = table_jwt
     [(''i1'', demo_token TokenType (IdentityClaimsOf \<lparr>id_Username = ''ann'', id_DeviceID = ''d'',
        id_Registered = \<lparr>Issuer = '''', Subject = ''a@x'', Audience = [], ExpiresAt = Some (30 * Second), NotBefore = None,
          IssuedAt = Some 0, ClaimsID = ''''\<rparr>\<rparr>), ''k'')]"

theorem identity_token_confined_witness:
  "\<exists>c u. Signer_Sign demo_identity_lib demo_signer 0 ''a@x'' ''ann'' ''d'' (Some (30 * Second)) = Inr ''i1''
    \<and> lib_ParseUnverified demo_identity_lib ''i1'' (IdentityClaimsOf zero_identity) = (IdentityClaimsOf c, Inr u)
    \<and> Subject (id_Registered c) = ''a@x''"
proof -
  have laws: "jwt_laws demo_identity_lib"
    unfolding demo_identity_lib_def
    by (rule table_jwt_laws)
      (simp_all add: demo_token_def whole_claims_def registered_dates_def map_filter_def whole_seconds_def time_units)
  have sign: "Signer_Sign demo_identity_lib demo_signer 0 ''a@x'' ''ann'' ''d'' (Some (30 * Second)) = Inr ''i1''"
    by (simp add: Signer_Sign_def Let_def demo_identity_lib_def demo_signer_def NewSigner_def identity_claims_def
        table_jwt_def demo_token_def NewWithClaims_def set_header_def TokenDuration_def whole_seconds_def time_units)
  have "list_all (lib_text demo_identity_lib) ([''a@x'', ''ann'', ''d'', '''', signer_issuer demo_signer] @ signer_audience demo_signer)"
    by (simp add: demo_identity_lib_def list_all_iff)
  from identity_token_confined [where ?'a = nat and ?'b = nat, OF laws sign this] sign show ?thesis by blast
qed

lemma VerifyAccess_get:
  assumes "jwt_laws L" and "VerifyAccess L m now t d = ((cl, None), d1)"
  shows "\<exists>x. GetDeviceSecret (manager_db m) (ac_DeviceID cl) d = (x, d1)"
  using VerifyAccess_sound [OF assms] by blast

lemma get_same_server:
  assumes "pg_invar (cdb_db d)" and "\<exists>x. GetDeviceSecret (CachedDB_methods SC) k d = (x, d')"
  shows "same_server (cdb_db d) (cdb_db d')"
proof -
  obtain y p where call: "Database_GetDeviceSecret k (cdb_db d) = (y, p)" by fastforce
  from assms(2) obtain x where "CachedDB_GetDeviceSecret SC k d = (x, d')" by (auto simp: CachedDB_methods_def)
  with call have "cdb_db d' = cdb_db d \<or> cdb_db d' = p"
    by (auto simp: CachedDB_GetDeviceSecret_def loadSecret_def Let_def
        split: prod.splits option.splits sum.splits if_splits)
  with db_get [OF assms(1) call] show ?thesis by auto
qed

lemma delete_all_same_server:
  assumes "pg_invar (cdb_db d)" and "CachedDB_DeleteAllDevices SC em d = (x, d')"
  shows "same_server (cdb_db d) (cdb_db d')"
proof -
  obtain y p where call: "Database_DeleteAllDevicesReturningIDs em (cdb_db d) = (y, p)" by fastforce
  with assms(2) have "cdb_db d' = p" by (auto simp: CachedDB_DeleteAllDevices_def split: sum.splits)
  with db_delete_all [OF assms(1) call] show ?thesis by simp
qed

text \<open>What \<^verbatim>\<open>/logout\<close> does with a token that verifies.\<close>

context session_store begin

lemma logout_step:
  assumes "session_db h = ODB" and "manager_db (session_jwtManager h) = DB" and "store_invar d"
    and "FromRequest r = Inr t" and v: "VerifyRefresh L (session_jwtManager h) (clk 0) t d = ((cl, None), d1)"
    and nm: "named d (rf_DeviceID cl)" and del: "DeleteDevice (session_db h) (Subject (rf_Registered cl)) (rf_DeviceID cl) d1 = (z, d2)"
    and run: "session_Logout L h clk r w d = (w', d')"
  shows "store_invar d' \<and> named d' = named d \<and> (up d \<longrightarrow> up d' \<and> z = None)
    \<and> dev d' = (if z = None \<and> owner d (Subject (rf_Registered cl)) (rf_DeviceID cl) then (dev d)(rf_DeviceID cl := None) else dev d)
    \<and> w' = response_JSON True (MsgText ''Logged out and device session revoked'') StatusOK (ClearCookie w)"
proof -
  let ?k = "rf_DeviceID cl" and ?em = "Subject (rf_Registered cl)"
  from v obtain y where vt: "verifyToken L (session_jwtManager h) (clk 0) t (RefreshClaimsOf zero_refresh) d = (y, d1)"
    by (auto simp: VerifyRefresh_def split: prod.splits sum.splits)
  note d1 = verify_keeps [OF assms(2,3) vt]
  then have k: "store_invar d1" "named d1 ?k" using nm by simp_all
  have d': "d' = d2" and w: "w' = response_JSON True (MsgText ''Logged out and device session revoked'') StatusOK (ClearCookie w)"
    using assms(4) v run del by (simp_all add: session_Logout_def Let_def)
  note del = del [unfolded assms(1)]
  have "up d \<Longrightarrow> z = None" using del_up [OF k, of ?em] del d1 by simp
  moreover have "dev d2 = (if z = None \<and> owner d ?em ?k then (dev d)(?k := None) else dev d)"
    using del del_done [OF k, of ?em d2] del_failed [OF k, of ?em _ d2] d1 by (cases z) auto
  ultimately show ?thesis using del_state [OF k del] d1 w d' by simp
qed

text \<open>A device that is gone vouches for no token, whether or not the store can be reached.\<close>

lemma gone_unverified:
  assumes "jwt_laws L" and "manager_db m = DB" and "store_invar d" and "named d k" and "dev d k = None"
  shows "VerifyRefresh L m now t d = ((cl, None), d') \<Longrightarrow> rf_DeviceID cl \<noteq> k"
    and "VerifyAccess L m now t d = ((ac, None), d') \<Longrightarrow> ac_DeviceID ac \<noteq> k"
  using VerifyRefresh_sound [OF assms(1), of m now t d cl d'] VerifyAccess_sound [OF assms(1), of m now t d ac d']
    get_found [OF assms(3,4)] assms(2,5) by auto

end

text \<open>What a successful verification leaves of the state, over the cached database.\<close>

context reliable_secret_cache begin

lemma verified_access_state:
  assumes "jwt_laws L" and "manager_db m = CachedDB_methods SC" and "cdb_invar live cache_invar d"
    and "VerifyAccess L m now t d = ((cl, None), d1)"
  shows "cdb_invar live cache_invar d1 \<and> cdb_dev d1 = cdb_dev d \<and> cdb_named d1 = cdb_named d
    \<and> cdb_owner d1 = cdb_owner d \<and> (cdb_up d \<longrightarrow> cdb_up d1)"
proof -
  from VerifyAccess_sound [OF assms(1,4)] assms(2) obtain key
    where get: "GetDeviceSecret (CachedDB_methods SC) (ac_DeviceID cl) d = (Inr (key, ac_Generation cl), d1)" by auto
  from cached.get_state [OF assms(3) get] sessions.get_owner [OF assms(3) get] show ?thesis by blast
qed

end

text \<open>
  C15. \<^verbatim>\<open>/logout\<close> with a valid refresh token always answers 200 and clears the cookie. It ends the session exactly when the
  \<^verbatim>\<open>DELETE\<close> it sends reported no error and the device belongs to the token's subject: then the device is gone, the other
  sessions are as before, and no access or refresh token of the device verifies any more (with \<^verbatim>\<open>ErrDeviceNotFound\<close> for this
  token while the database can be reached). When the \<^verbatim>\<open>DELETE\<close> failed, or the device belongs to another e-mail by now, the same
  answer is given and every session is left in place. The \<^verbatim>\<open>DELETE\<close> does not fail while the database can be reached.
  The cache is either of the two; as everywhere under \<open>any_invar\<close>, a database call that reports an error took no effect, and Redis,
  if it is the cache, can be reached.
\<close>

theorem Logout_ends_own_session:
  assumes "jwt_laws L" and "session_db h = CachedDB_DB any_SecretCache"
    and "manager_db (session_jwtManager h) = CachedDB_methods any_SecretCache" and "any_invar d"
    and "FromRequest r = Inr t" and "VerifyRefresh L (session_jwtManager h) (clk 0) t d = ((cl, None), d1)"
    and "cdb_named d (rf_DeviceID cl)" and "DeleteDevice (session_db h) (Subject (rf_Registered cl)) (rf_DeviceID cl) d1 = (deleted, d2)"
    and "session_Logout L h clk r new_writer d = (w, d')"
  shows "w_status w = Some StatusOK \<and> (\<exists>c. w_cookies w = [c] \<and> Cookie_Name c = CookieName \<and> Cookie_MaxAge c = -1)
    \<and> any_invar d' \<and> (cdb_up d \<longrightarrow> deleted = None)
    \<and> (if deleted = None \<and> cdb_owner d (Subject (rf_Registered cl)) (rf_DeviceID cl)
       then cdb_dev d' = (cdb_dev d)(rf_DeviceID cl := None)
         \<and> (\<forall>now t' c d''. VerifyRefresh L (session_jwtManager h) now t' d' = ((c, None), d'') \<longrightarrow> rf_DeviceID c \<noteq> rf_DeviceID cl)
         \<and> (\<forall>now t' c d''. VerifyAccess L (session_jwtManager h) now t' d' = ((c, None), d'') \<longrightarrow> ac_DeviceID c \<noteq> rf_DeviceID cl)
         \<and> (\<forall>now. cdb_up d' \<longrightarrow> fst (VerifyRefresh L (session_jwtManager h) now t d') = (cl, Some ErrDeviceNotFound))
       else cdb_dev d' = cdb_dev d)"
proof -
  let ?k = "rf_DeviceID cl" and ?em = "Subject (rf_Registered cl)"
  from VerifyRefresh_sound [OF assms(1,6)] obtain key where c: "carries L t (RefreshClaimsOf cl) key" by blast
  note step = any.sessions.logout_step [OF assms(2-9)]
  then have d': "any_invar d'" "cdb_named d' ?k" using assms(7) by simp_all
  note gone = any.sessions.gone_unverified [OF assms(1,3) d']
  have "fst (VerifyRefresh L (session_jwtManager h) now t d') = (cl, Some ErrDeviceNotFound)"
    if "cdb_dev d' ?k = None" "cdb_up d'" for now
    using any.cached.verify_unknown_device [OF assms(1,3) d'(1) that(2) c _ d'(2) that(1), of RefreshTokenType "rf_Generation cl" "RefreshClaimsOf zero_refresh" now]
    by (auto simp: VerifyRefresh_def)
  with step gone show ?thesis by (auto simp: ClearCookie_def http_SetCookie_def zero_Cookie_def)
qed

theorem Logout_ends_own_session_witness:
  "\<exists>w d'. session_Logout demo_lib (session_New (CachedDB_DB demo_cache) (Store_UsersDB \<lparr>external = False, selectUsernameQuery = ''q''\<rparr>)
      (demo_manager demo_cache) None) (\<lambda>_. 0)
      \<lparr>r_Cookies = [(''refresh_token'', ''r1'')], r_Header = [], r_Body = Inl ErrNoRows, r_Query = [], r_UserAgent = ''''\<rparr>
      new_writer demo_db = (w, d')
    \<and> w_status w = Some StatusOK \<and> cdb_dev d' ''d'' = None"
proof -
  let ?h = "session_New (CachedDB_DB demo_cache) (Store_UsersDB \<lparr>external = False, selectUsernameQuery = ''q''\<rparr>)
      (demo_manager demo_cache) None"
  let ?r = "\<lparr>r_Cookies = [(''refresh_token'', ''r1'')], r_Header = [], r_Body = Inl ErrNoRows, r_Query = [], r_UserAgent = ''''\<rparr>"
  let ?d = demo_db
  obtain w d' where run: "session_Logout demo_lib ?h (\<lambda>_. 0) ?r new_writer ?d = (w, d')" by fastforce
  have h: "session_db ?h = CachedDB_DB demo_cache" "session_jwtManager ?h = demo_manager demo_cache"
    by (simp_all add: session_New_def)
  obtain d1 where v: "VerifyRefresh demo_lib (session_jwtManager ?h) ((\<lambda>_. 0) (0::nat)) ''r1'' ?d = ((demo_refresh 1, None), d1)"
    unfolding h by (rule any.demo_verify_refresh [OF demo_any_invar(2)])
  obtain z d2 where del: "DeleteDevice (session_db ?h) (Subject (rf_Registered (demo_refresh 1))) (rf_DeviceID (demo_refresh 1)) d1 = (z, d2)"
    by fastforce
  have "FromRequest ?r = Inr ''r1''" by (simp add: FromRequest_def CookieName_def)
  from Logout_ends_own_session [OF demo_lib_laws h(1) _ demo_any_invar(2) this v _ del run]
    demo_db_facts
  have "w_status w = Some StatusOK \<and> cdb_dev d' ''d'' = None"
    by (auto simp: h demo_manager_facts demo_refresh_def demo_registered_def)
  with run show ?thesis by blast
qed

lemma delete_all_up:
  "cdb_up d \<Longrightarrow> \<exists>d'. CachedDB_DeleteAllDevices SC em d = (None, d')"
  by (simp add: cdb_up_def CachedDB_DeleteAllDevices_def Database_DeleteAllDevicesReturningIDs_def pg_exec_up delete_all_devices_def)

lemma delete_user_call:
  assumes inv: "pg_invar (cdb_db d)" and s: "\<not> external s" and del: "DeleteUser (Store_UsersDB s) em d = (z, d')"
  shows "users (cdb_db d') = (if z = None then filter (\<lambda>u. \<not> email_eq (cdb_db d) (email u) em) (users (cdb_db d)) else users (cdb_db d))
    \<and> (cdb_up d \<longrightarrow> z = None)"
proof -
  obtain y q where run: "pg_exec (delete_user em) (cdb_db d) = (y, q)" by fastforce
  with del s have z: "cdb_db d' = q" "case y of Inl e \<Rightarrow> z = Some e | Inr _ \<Rightarrow> z = None"
    by (auto simp: Store_UsersDB_def on_db_state Store_DeleteUser_def split: sum.splits)
  from inv have wf: "pg_wf (cdb_db d)" by (simp add: pg_invar_def)
  have "users q = (if z = None then filter (\<lambda>u. \<not> email_eq (cdb_db d) (email u) em) (users (cdb_db d)) else users (cdb_db d))"
    using inv run by (rule pg_call_cases) (use z(2) delete_user_view [OF wf] in \<open>force+\<close>)
  moreover have "cdb_up d \<Longrightarrow> z = None"
    using run z(2) by (auto simp: cdb_up_def pg_exec_up delete_user_def)
  ultimately show ?thesis using z(1) by blast
qed

text \<open>Reading a secret and deleting devices leave the users table alone.\<close>

lemma cached_users:
  assumes "pg_invar (cdb_db d)"
  shows "GetDeviceSecret (CachedDB_methods SC) k d = (x, d') \<Longrightarrow> users (cdb_db d') = users (cdb_db d)"
    and "CachedDB_DeleteAllDevices SC em d = (z, d') \<Longrightarrow> users (cdb_db d') = users (cdb_db d)"
proof -
  have wf: "pg_wf (cdb_db d)" "pg_no_lost_reply (cdb_db d)" using assms by (simp_all add: pg_invar_def)
  obtain y p where call: "Database_GetDeviceSecret k (cdb_db d) = (y, p)" by fastforce
  have "users p = users (cdb_db d)"
    using quiet_call [OF call [unfolded Database_GetDeviceSecret_def] wf(2)]
    by (auto simp: select_secret_def split: sum.splits option.splits)
  with call show "GetDeviceSecret (CachedDB_methods SC) k d = (x, d') \<Longrightarrow> users (cdb_db d') = users (cdb_db d)"
    by (auto simp: CachedDB_methods_def CachedDB_GetDeviceSecret_def loadSecret_def Let_def
        split: prod.splits option.splits sum.splits if_splits)
  obtain y' p' where "Database_DeleteAllDevicesReturningIDs em (cdb_db d) = (y', p')" by fastforce
  with delete_all_effect [OF wf, of em y' p']
  show "CachedDB_DeleteAllDevices SC em d = (z, d') \<Longrightarrow> users (cdb_db d') = users (cdb_db d)"
    by (auto simp: CachedDB_DeleteAllDevices_def Database_DeleteAllDevicesReturningIDs_def split: sum.splits)
qed

text \<open>
  C16. \<^verbatim>\<open>DELETE /users/me\<close> with a valid access token removes the account and nothing else: on the answer 200, which clears the
  cookie, the users table is as before without the rows of that e-mail, and the sessions are as before without those of the user. Any other
  answer is 500: then no user was removed, and either no session or those of the user. While the database can be reached the
  answer is 200. The cache is either of the two; as everywhere under \<open>any_invar\<close>, a database call that reports an error took no effect, and
  Redis, if it is the cache, can be reached.
\<close>

theorem DeleteMe_removes_account:
  assumes "jwt_laws L" and "session_db h = CachedDB_DB any_SecretCache" and "session_usersDB h = Store_UsersDB s"
    and "manager_db (session_jwtManager h) = CachedDB_methods any_SecretCache" and "\<not> external s" and "any_invar d"
    and "bearerToken (lib_unicode L) r = Some t" and "VerifyAccess L (session_jwtManager h) (clk 0) t d = ((cl, None), d1)"
    and "session_DeleteMe L h clk r new_writer d = (w, d')"
  shows "any_invar d' \<and> (cdb_up d \<longrightarrow> w_status w = Some StatusOK)
    \<and> (if w_status w = Some StatusOK
       then (\<exists>c. w_cookies w = [c] \<and> Cookie_Name c = CookieName \<and> Cookie_MaxAge c = -1)
         \<and> cdb_dev d' = (\<lambda>k. if cdb_owner d (ac_UserEmail cl) k then None else cdb_dev d k)
         \<and> users (cdb_db d') = filter (\<lambda>u. \<not> email_eq (cdb_db d) (email u) (ac_UserEmail cl)) (users (cdb_db d))
       else w_status w = Some StatusInternalServerError \<and> w_cookies w = [] \<and> users (cdb_db d') = users (cdb_db d)
         \<and> cdb_dev d' \<in> {cdb_dev d, \<lambda>k. if cdb_owner d (ac_UserEmail cl) k then None else cdb_dev d k})"
proof -
  let ?em = "ac_UserEmail cl"
  from VerifyAccess_get [OF assms(1,8), unfolded assms(4)] obtain x
    where get: "GetDeviceSecret (CachedDB_methods any_SecretCache) (ac_DeviceID cl) d = (x, d1)" by blast
  note d1 = any.verified_access_state [OF assms(1,4,6,8)]
  obtain z d2 where all: "CachedDB_DeleteAllDevices any_SecretCache ?em d1 = (z, d2)" by fastforce
  note d2 = any.cdb_delete_all [OF d1 [THEN conjunct1] all]
  have pg: "pg_invar (cdb_db d)" "pg_invar (cdb_db d1)" "pg_invar (cdb_db d2)" using assms(6) d1 d2 by (simp_all add: cdb_invar_def)
  have users: "users (cdb_db d2) = users (cdb_db d)" "email_eq (cdb_db d2) = email_eq (cdb_db d)"
    using cached_users(1) [OF pg(1) get] cached_users(2) [OF pg(2) all] get_same_server [OF pg(1) exI, OF get]
      delete_all_same_server [OF pg(2) all] by (simp_all add: same_server_def)
  show ?thesis
  proof (cases z)
    case (Some e)
    with assms(2,7-9) all have "w = response_JSON False (MsgText ''Failed to remove device sessions'') StatusInternalServerError new_writer" "d' = d2"
      by (simp_all add: session_DeleteMe_def Let_def CachedDB_DB_def)
    with d1 d2 Some users delete_all_up [of d1 any_SecretCache ?em] all show ?thesis by (auto simp: status_codes)
  next
    case None
    obtain y d3 where del: "DeleteUser (Store_UsersDB s) ?em d2 = (y, d3)" by fastforce
    note d3 = any.handlers.delete_account [OF d2 [THEN conjunct1] _ del] and table = delete_user_call [OF pg(3) assms(5) del]
    have "d' = d3" and "w = (case y of Some _ \<Rightarrow> response_JSON False (MsgText ''Failed to delete account'') StatusInternalServerError new_writer
        | None \<Rightarrow> response_JSON True (MsgText ''Account deleted'') StatusOK (ClearCookie new_writer))"
      using assms(2,3,7-9) all None del by (auto simp: session_DeleteMe_def Let_def CachedDB_DB_def split: option.splits)
    with d1 d2 d3 table None users show ?thesis
      by (cases y) (auto simp: status_codes ClearCookie_def http_SetCookie_def zero_Cookie_def)
  qed
qed

theorem DeleteMe_removes_account_witness:
  "\<exists>w d'. session_DeleteMe demo_lib (session_New (CachedDB_DB demo_cache) (Store_UsersDB \<lparr>external = False, selectUsernameQuery = ''q''\<rparr>)
      (demo_manager demo_cache) None) (\<lambda>_. 0)
      \<lparr>r_Cookies = [], r_Header = [(''Authorization'', ''Bearer a1'')], r_Body = Inl ErrNoRows, r_Query = [], r_UserAgent = ''''\<rparr>
      new_writer demo_db = (w, d')
    \<and> w_status w = Some StatusOK \<and> cdb_dev d' ''d'' = None"
proof -
  let ?s = "\<lparr>external = False, selectUsernameQuery = ''q''\<rparr>"
  let ?h = "session_New (CachedDB_DB demo_cache) (Store_UsersDB ?s) (demo_manager demo_cache) None"
  let ?r = "\<lparr>r_Cookies = [], r_Header = [(''Authorization'', ''Bearer a1'')], r_Body = Inl ErrNoRows, r_Query = [], r_UserAgent = ''''\<rparr>"
  let ?d = demo_db
  obtain w d' where run: "session_DeleteMe demo_lib ?h (\<lambda>_. 0) ?r new_writer ?d = (w, d')" by fastforce
  have h: "session_db ?h = CachedDB_DB demo_cache" "session_usersDB ?h = Store_UsersDB ?s"
    "session_jwtManager ?h = demo_manager demo_cache" "\<not> external ?s"
    by (simp_all add: session_New_def)
  have b: "bearerToken (lib_unicode demo_lib) ?r = Some ''a1''"
    by (simp add: bearerToken_def header_Get_def strings_EqualFold_def is_ascii_def ascii_lower_def byte_of_def)
  obtain d1 where v: "VerifyAccess demo_lib (session_jwtManager ?h) ((\<lambda>_. 0) (0::nat)) ''a1'' ?d = ((demo_access 1, None), d1)"
    unfolding h by (rule any.demo_verify_access [OF demo_any_invar(2)])
  from DeleteMe_removes_account [OF demo_lib_laws h(1,2) _ h(4) demo_any_invar(2) b v run]
    demo_db_facts
  have "w_status w = Some StatusOK \<and> cdb_dev d' ''d'' = None"
    by (simp add: h demo_manager_facts demo_access_def)
  with run show ?thesis by blast
qed

end
