(* ===== verification/Encodings.thy ===== *)
theory Encodings
  imports Go_Strings
begin

text \<open>
  \<^verbatim>\<open>encoding/hex\<close> and \<^verbatim>\<open>encoding/base64\<close> as far as the repository uses them: \<^verbatim>\<open>hex.EncodeToString\<close>, and
  \<^verbatim>\<open>base64.RawURLEncoding\<close> in both directions. The decoder skips line breaks and ignores the bits a last, incomplete group
  leaves over, as Go's does.
\<close>

definition hex_digit :: "nat \<Rightarrow> char" where
  "hex_digit n = (if n < 10 then char_of (48 + n) else char_of (87 + n))"

definition hex_EncodeToString :: "string \<Rightarrow> string" where
  "hex_EncodeToString b = concat (map (\<lambda>c. [hex_digit (byte_of c div 16), hex_digit (byte_of c mod 16)]) b)"

definition base64_digit :: "nat \<Rightarrow> char" where
  "base64_digit n = (if n < 26 then char_of (65 + n) else if n < 52 then char_of (71 + n) else if n < 62 then char_of (n - 4)
     else if n = 62 then CHR ''-'' else CHR ''_'')"

fun base64_RawURLEncoding :: "string \<Rightarrow> string" where
  "base64_RawURLEncoding (a # b # c # rest) =
     (let n = byte_of a * 65536 + byte_of b * 256 + byte_of c
      in [base64_digit (n div 262144), base64_digit (n div 4096 mod 64), base64_digit (n div 64 mod 64), base64_digit (n mod 64)]
         @ base64_RawURLEncoding rest)"
| "base64_RawURLEncoding [a, b] =
     (let n = byte_of a * 1024 + byte_of b * 4
      in [base64_digit (n div 4096), base64_digit (n div 64 mod 64), base64_digit (n mod 64)])"
| "base64_RawURLEncoding [a] = (let n = byte_of a * 16 in [base64_digit (n div 64), base64_digit (n mod 64)])"
| "base64_RawURLEncoding [] = []"

definition base64_index :: "char \<Rightarrow> nat option" where
  "base64_index c =
     (let b = byte_of c
      in if 65 \<le> b \<and> b \<le> 90 then Some (b - 65) else if 97 \<le> b \<and> b \<le> 122 then Some (b - 71)
         else if 48 \<le> b \<and> b \<le> 57 then Some (b + 4) else if b = 45 then Some 62 else if b = 95 then Some 63 else None)"

fun base64_groups :: "nat list \<Rightarrow> string option" where
  "base64_groups (a # b # c # d # rest) =
     (let n = a * 262144 + b * 4096 + c * 64 + d
      in map_option ((@) [char_of (n div 65536), char_of (n div 256 mod 256), char_of (n mod 256)]) (base64_groups rest))"
| "base64_groups [a, b, c] = (let n = a * 4096 + b * 64 + c in Some [char_of (n div 1024), char_of (n div 4 mod 256)])"
| "base64_groups [a, b] = (let n = a * 64 + b in Some [char_of (n div 16)])"
| "base64_groups [a] = None"
| "base64_groups [] = Some []"

definition base64_DecodeString :: "string \<Rightarrow> go_error + string" where
  "base64_DecodeString s =
     (let digits = map base64_index (filter (\<lambda>c. byte_of c \<noteq> 10 \<and> byte_of c \<noteq> 13) s)
      in if None \<in> set digits then Inl (Opaque ''illegal base64 data'')
         else case base64_groups (map the digits) of None \<Rightarrow> Inl (Opaque ''illegal base64 data'') | Some b \<Rightarrow> Inr b)"

section \<open>Reading back\<close>

lemma base64_index_digit: "n < 64 \<Longrightarrow> base64_index (base64_digit n) = Some n"
  by (auto simp: base64_index_def base64_digit_def Let_def byte_of_def)

lemma base64_digit_byte: "n < 64 \<Longrightarrow> byte_of (base64_digit n) \<noteq> 10 \<and> byte_of (base64_digit n) \<noteq> 13 \<and> byte_of (base64_digit n) \<noteq> 46"
  by (auto simp: base64_digit_def byte_of_def)

lemma byte_bound: "byte_of c < 256"
  by (simp add: byte_of_def)

lemma char_byte: "char_of (byte_of c) = c"
  by (simp add: byte_of_def)

text \<open>A number is its digits to the base 64 again.\<close>

lemma base64_split2: "(n::nat) div 64 * 64 + n mod 64 = n"
  by simp

lemma base64_split3: "(n::nat) div 4096 * 4096 + n div 64 mod 64 * 64 + n mod 64 = n"
proof -
  have "n div 4096 * 64 + n div 64 mod 64 = n div 64" using base64_split2 [of "n div 64"] by (simp add: div_mult2_eq [symmetric])
  with base64_split2 [of n] show ?thesis by linarith
qed

lemma base64_split4: "(n::nat) div 262144 * 262144 + n div 4096 mod 64 * 4096 + n div 64 mod 64 * 64 + n mod 64 = n"
proof -
  have "n div 262144 * 64 + n div 4096 mod 64 = n div 4096" using base64_split2 [of "n div 4096"] by (simp add: div_mult2_eq [symmetric])
  with base64_split3 [of n] show ?thesis by linarith
qed

lemma three_bytes:
  assumes "a < 256" and "b < 256" and "c < (256::nat)"
  shows "(a * 65536 + b * 256 + c) div 65536 = a" and "(a * 65536 + b * 256 + c) div 256 mod 256 = b"
    and "(a * 65536 + b * 256 + c) mod 256 = c" and "(a * 65536 + b * 256 + c) div 262144 < 64"
proof -
  let ?n = "a * 65536 + b * 256 + c"
  show "?n div 65536 = a" by (rule div_nat_eqI) (use assms in auto)
  have "?n div 256 = a * 256 + b" by (rule div_nat_eqI) (use assms in auto)
  with assms(2) show "?n div 256 mod 256 = b" by simp
  have n: "?n = c + 256 * (a * 256 + b)" by simp
  show "?n mod 256 = c" unfolding n mod_mult_self2 using assms(3) by simp
  have "?n < 64 * 262144" using assms by auto
  then show "?n div 262144 < 64" by (simp add: less_mult_imp_div_less)
qed

lemma base64_encode_digits:
  "\<exists>ds. base64_RawURLEncoding b = map base64_digit ds \<and> list_all (\<lambda>n. n < 64) ds \<and> base64_groups ds = Some b"
proof (induction b rule: base64_RawURLEncoding.induct)
  case (1 a b c rest)
  let ?n = "byte_of a * 65536 + byte_of b * 256 + byte_of c"
  let ?q = "[?n div 262144, ?n div 4096 mod 64, ?n div 64 mod 64, ?n mod 64]"
  from 1 obtain ds where ds: "base64_RawURLEncoding rest = map base64_digit ds" "list_all (\<lambda>n. n < 64) ds" "base64_groups ds = Some rest"
    by blast
  note bytes = three_bytes [OF byte_bound byte_bound byte_bound, of a b c]
  have enc: "base64_RawURLEncoding (a # b # c # rest) = map base64_digit (?q @ ds)" by (simp add: Let_def ds(1))
  have dec: "base64_groups (?q @ ds) = Some (a # b # c # rest)"
    by (simp only: append_Cons append_Nil base64_groups.simps Let_def base64_split4 ds(3) bytes(1-3) char_byte option.map)
  show ?case by (intro exI [of _ "?q @ ds"] conjI) (use enc dec bytes(4) ds(2) in simp_all)
next
  case (2 a b)
  let ?n = "byte_of a * 1024 + byte_of b * 4"
  have "?n div 4096 < 64" "?n div 1024 = byte_of a" "?n div 4 mod 256 = byte_of b"
    using byte_bound [of a] byte_bound [of b] by auto
  note bytes = this
  have "base64_groups [?n div 4096, ?n div 64 mod 64, ?n mod 64] = Some [a, b]"
    by (simp only: base64_groups.simps Let_def base64_split3 bytes(2,3) char_byte)
  with bytes(1) show ?case
    by (intro exI [of _ "[?n div 4096, ?n div 64 mod 64, ?n mod 64]"] conjI) (simp_all only: base64_RawURLEncoding.simps Let_def list.map, simp)
next
  case (3 a)
  let ?n = "byte_of a * 16"
  have "?n div 64 < 64" "?n div 16 = byte_of a" using byte_bound [of a] by auto
  then show ?case
    using base64_split2 [of ?n] by (intro exI [of _ "[?n div 64, ?n mod 64]"]) (simp add: Let_def char_byte)
next
  case 4
  show ?case by (intro exI [of _ "[]"]) simp
qed

lemma base64_roundtrip: "base64_DecodeString (base64_RawURLEncoding b) = Inr b"
proof -
  obtain ds where ds: "base64_RawURLEncoding b = map base64_digit ds" "list_all (\<lambda>n. n < 64) ds" "base64_groups ds = Some b"
    using base64_encode_digits by blast
  have keep: "filter (\<lambda>c. byte_of c \<noteq> 10 \<and> byte_of c \<noteq> 13) (map base64_digit ds) = map base64_digit ds"
    using ds(2) base64_digit_byte by (auto simp: list_all_iff filter_id_conv)
  have "map base64_index (map base64_digit ds) = map Some ds"
    using ds(2) base64_index_digit by (auto simp: list_all_iff)
  with ds keep show ?thesis by (auto simp: base64_DecodeString_def Let_def simp del: map_map) (simp add: comp_def)
qed

lemma base64_no_dot: "CHR ''.'' \<notin> set (base64_RawURLEncoding b)"
proof -
  obtain ds where ds: "base64_RawURLEncoding b = map base64_digit ds" "list_all (\<lambda>n. n < 64) ds"
    using base64_encode_digits by blast
  have "base64_digit n \<noteq> CHR ''.''" if "n < 64" for n
    using base64_digit_byte [OF that] by (auto simp: byte_of_def)
  with ds show ?thesis by (force simp: list_all_iff)
qed

section \<open>Splitting\<close>

text \<open>\<^verbatim>\<open>strings.Split\<close> at a separator of one character.\<close>

fun strings_Split :: "string \<Rightarrow> char \<Rightarrow> string list" where
  "strings_Split [] sep = [[]]"
| "strings_Split (c # s) sep =
     (if c = sep then [] # strings_Split s sep
      else case strings_Split s sep of p # ps \<Rightarrow> (c # p) # ps | [] \<Rightarrow> [[c]])"

lemma strings_Split_absent: "c \<notin> set s \<Longrightarrow> strings_Split s c = [s]"
  by (induction s) auto

lemma strings_Split_append: "c \<notin> set p \<Longrightarrow> strings_Split (p @ c # s) c = p # strings_Split s c"
  by (induction p) auto

end
