(* ===== verification/Flight.thy ===== *)
theory Flight
  imports Memory_Cache Redis_Client Encodings
begin

text \<open>
  \<^verbatim>\<open>server/internal/flight/flight.go\<close>: \<^verbatim>\<open>Do\<close> runs a function once per key and shares the
  result, between the goroutines of a process (\<^verbatim>\<open>singleflight\<close>), with later callers (a cache of results)
  and between processes (Redis with a distributed lock).

  The function works on a state \<open>'w\<close> outside the group. The generic result type is a record of what
  the code uses of it (\<open>result_type\<close>): its zero value, its injection into \<^verbatim>\<open>any\<close> with the type
  assertion back, and its JSON encoding. \<open>group\<close> holds, per key, the result of a call another goroutine
  of the process has in flight, which a caller waits for and shares. Taking the distributed lock
  may wait while other processes work, so the locker (the library \<^verbatim>\<open>rueidislock\<close>) is a parameter that may
  change the service and the outside state before it answers; releasing it may change the service. SHA-256 is the parameter
  \<open>sum256\<close>. Contexts and their deadlines are not modelled; a call that a deadline cuts off
  answers with an error, which the library parameters may do at any time.
\<close>

record ('t, 'a) result_type =
  zero_result :: 't
  to_any :: "'t \<Rightarrow> 'a"
  from_any :: "'a \<Rightarrow> 't option"
  json_Marshal :: "'t \<Rightarrow> go_error + string"
  json_Unmarshal :: "string \<Rightarrow> go_error + 't"

definition result_type_ok :: "('t, 'a) result_type \<Rightarrow> bool" where
  "result_type_ok T \<longleftrightarrow> (\<forall>t. from_any T (to_any T t) = Some t)
     \<and> (\<forall>t raw. json_Marshal T t = Inr raw \<longrightarrow> json_Unmarshal T raw = Inr t)"

definition lockKeyPrefix :: string where "lockKeyPrefix = ''flight:lock''"
definition resultKeyPrefix :: string where "resultKeyPrefix = ''flight:result:''"
definition redisOpTimeout :: duration where "redisOpTimeout = Second"
definition defaultTTL :: duration where "defaultTTL = 30 * Second"
definition memoryMaxSize :: int where "memoryMaxSize = 100000"

record config =
  RedisURL :: string
  ResultTTL :: duration

definition WithRedis :: "string \<Rightarrow> duration \<Rightarrow> config \<Rightarrow> config" where
  "WithRedis url resultTTL c = c\<lparr>RedisURL := url, ResultTTL := resultTTL\<rparr>"

record 'r redisStore =
  client :: "'r RedisClient"
  resultTTL :: duration

definition redisStore_load :: "string \<Rightarrow> 'r redisStore \<Rightarrow> (go_error + string option) \<times> 'r redisStore" where
  "redisStore_load key r =
     (case RedisClient_Get (client r) (resultKeyPrefix @ key) of
        (rep, c) \<Rightarrow>
          ((case reply_ToString rep of
              Inl err \<Rightarrow> if IsRedisNil err then Inr None else Inl (Wrapped ''redis get result failed'' err)
            | Inr raw \<Rightarrow> Inr (Some raw)), r\<lparr>client := c\<rparr>))"

definition redisStore_store :: "string \<Rightarrow> string \<Rightarrow> 'r redisStore \<Rightarrow> go_error option \<times> 'r redisStore" where
  "redisStore_store key raw r =
     (case RedisClient_Set (client r) (resultKeyPrefix @ key) raw (resultTTL r) of
        (err, c) \<Rightarrow> (map_option (Wrapped ''redis set result failed'') err, r\<lparr>client := c\<rparr>))"

text \<open>\<^verbatim>\<open>newLocker\<close>: the options of the locker beside the client's are fixed by the code.\<close>

record locker_option =
  ClientOption :: redis_options
  KeyPrefix :: string
  KeyMajority :: int

definition newLocker ::
  "(string \<Rightarrow> go_error + redis_options) \<Rightarrow> (locker_option \<Rightarrow> go_error + 'r RedisClient) \<Rightarrow> string \<Rightarrow> go_error + 'r RedisClient" where
  "newLocker ParseURL NewLocker url =
     (case ParseURL url of
        Inl err \<Rightarrow> Inl (Wrapped ''invalid redis url'' err)
      | Inr opt \<Rightarrow>
          (case NewLocker \<lparr>ClientOption = opt\<lparr>dial_timeout := 5 * Second\<rparr>, KeyPrefix = lockKeyPrefix, KeyMajority = 1\<rparr> of
             Inl err \<Rightarrow> Inl (Wrapped ''redis locker creation failed'' err)
           | Inr c \<Rightarrow> Inr c))"

text \<open>The locker of a store: its lock, what the cancel function it hands out does, and its end.\<close>

record ('r, 'w) locker =
  WithContext :: "string \<Rightarrow> 'r redisStore \<times> 'w \<Rightarrow> go_error option \<times> 'r redisStore \<times> 'w"
  lock_cancel :: "string \<Rightarrow> 'r redisStore \<Rightarrow> 'r redisStore"
  locker_Close :: "'r redisStore \<Rightarrow> 'r redisStore"

definition redisStore_lock :: "('r, 'w) locker \<Rightarrow> string \<Rightarrow> 'r redisStore \<times> 'w \<Rightarrow> go_error option \<times> 'r redisStore \<times> 'w" where
  [simp]: "redisStore_lock lk key s = WithContext lk key s"

definition redisStore_close :: "('r, 'w) locker \<Rightarrow> 'r redisStore \<Rightarrow> 'r redisStore" where
  "redisStore_close lk r = locker_Close lk r"

record ('r, 'm, 'a) Group =
  group :: "string \<Rightarrow> ('a \<times> go_error option) option"
  redis :: "'r redisStore option"
  memory :: "('m, 'a) otter_cache option"

text \<open>\<^verbatim>\<open>New\<close>: without a Redis URL the results are kept in memory.\<close>

definition flight_New ::
  "(int \<Rightarrow> ('a \<Rightarrow> duration) \<Rightarrow> go_error + ('m, 'a) otter_cache)
    \<Rightarrow> (string \<Rightarrow> go_error + redis_options) \<Rightarrow> (locker_option \<Rightarrow> go_error + 'r RedisClient)
    \<Rightarrow> (config \<Rightarrow> config) list \<Rightarrow> go_error + ('r, 'm, 'a) Group" where
  "flight_New otter_New ParseURL NewLocker opts =
     (let cfg = fold (\<lambda>opt c. opt c) opts \<lparr>RedisURL = '''', ResultTTL = 0\<rparr>;
          ttl = (if ResultTTL cfg \<le> 0 then defaultTTL else ResultTTL cfg)
      in if RedisURL cfg = ''''
         then (case NewMemoryCache otter_New memoryMaxSize (Some (\<lambda>_. ttl)) of
                 Inl err \<Rightarrow> Inl err
               | Inr m \<Rightarrow> Inr \<lparr>group = (\<lambda>_. None), redis = None, memory = Some m\<rparr>)
         else (case newLocker ParseURL NewLocker (RedisURL cfg) of
                 Inl err \<Rightarrow> Inl err
               | Inr c \<Rightarrow> Inr \<lparr>group = (\<lambda>_. None), redis = Some \<lparr>client = c, resultTTL = ttl\<rparr>, memory = None\<rparr>))"

text \<open>\<^verbatim>\<open>Close\<close>; \<open>stop\<close> is what \<^verbatim>\<open>StopAllGoroutines\<close> does to the cache.\<close>

definition Group_Close ::
  "('r, 'w) locker \<Rightarrow> (('m, 'a) otter_cache \<Rightarrow> ('m, 'a) otter_cache) \<Rightarrow> ('r, 'm, 'a) Group \<Rightarrow> ('r, 'm, 'a) Group" where
  "Group_Close lk stop g =
     (let g1 = (case redis g of None \<Rightarrow> g | Some r \<Rightarrow> g\<lparr>redis := Some (redisStore_close lk r)\<rparr>)
      in case memory g1 of None \<Rightarrow> g1 | Some m \<Rightarrow> g1\<lparr>memory := Some (stop m)\<rparr>)"

record callConfig =
  inFlightOnly :: bool

definition InFlightOnly :: "callConfig \<Rightarrow> callConfig" where
  "InFlightOnly c = c\<lparr>inFlightOnly := True\<rparr>"

definition call_config :: "(callConfig \<Rightarrow> callConfig) list \<Rightarrow> callConfig" where
  "call_config opts = fold (\<lambda>opt c. opt c) opts \<lparr>inFlightOnly = False\<rparr>"

lemma call_config_simps [simp]: "inFlightOnly (call_config []) = False" "inFlightOnly (call_config [InFlightOnly]) = True"
  by (simp_all add: call_config_def InFlightOnly_def)

definition hashKey :: "(string \<Rightarrow> string) \<Rightarrow> string \<Rightarrow> string" where
  "hashKey sum256 key = hex_EncodeToString (sum256 key)"

type_synonym ('t, 'w) work = "'w \<Rightarrow> ('t \<times> go_error option) \<times> 'w"

definition doLocal ::
  "('t, 'a) result_type \<Rightarrow> string \<Rightarrow> ('t, 'w) work \<Rightarrow> ('m, 'a) otter_cache \<Rightarrow> 'w
    \<Rightarrow> ('t \<times> go_error option) \<times> ('m, 'a) otter_cache \<times> 'w" where
  "doLocal T key fn mem w =
     (case cache_GetIfPresent mem key of
        (cached, mem1) \<Rightarrow>
          (case Option.bind cached (from_any T) of
             Some result \<Rightarrow> ((result, None), mem1, w)
           | None \<Rightarrow>
               (case fn w of
                  ((result, Some err), w1) \<Rightarrow> ((result, Some err), mem1, w1)
                | ((result, None), w1) \<Rightarrow> ((result, None), cache_Set mem1 key (to_any T result), w1))))"

definition loadResult ::
  "('t, 'a) result_type \<Rightarrow> string \<Rightarrow> 'r redisStore \<Rightarrow> (go_error + 't option) \<times> 'r redisStore" where
  "loadResult T hashedKey r =
     (case redisStore_load hashedKey r of
        (Inl err, r1) \<Rightarrow> (Inl err, r1)
      | (Inr None, r1) \<Rightarrow> (Inr None, r1)
      | (Inr (Some raw), r1) \<Rightarrow>
          (case json_Unmarshal T raw of Inl _ \<Rightarrow> (Inr None, r1) | Inr result \<Rightarrow> (Inr (Some result), r1)))"

definition storeResult :: "('t, 'a) result_type \<Rightarrow> string \<Rightarrow> 't \<Rightarrow> 'r redisStore \<Rightarrow> 'r redisStore" where
  "storeResult T hashedKey result r =
     (case json_Marshal T result of Inl _ \<Rightarrow> r | Inr raw \<Rightarrow> snd (redisStore_store hashedKey raw r))"

definition doDistributed ::
  "('t, 'a) result_type \<Rightarrow> (string \<Rightarrow> string) \<Rightarrow> ('r, 'w) locker \<Rightarrow> string \<Rightarrow> bool \<Rightarrow> ('t, 'w) work
    \<Rightarrow> 'r redisStore \<Rightarrow> 'w \<Rightarrow> ('t \<times> go_error option) \<times> 'r redisStore \<times> 'w" where
  "doDistributed T sum256 lock key only fn r w =
     (let hashedKey = hashKey sum256 key
      in case loadResult T hashedKey r of
        (Inl _, r1) \<Rightarrow> (case fn w of (res, w1) \<Rightarrow> (res, r1, w1))
      | (Inr loaded, r1) \<Rightarrow>
          if loaded \<noteq> None \<and> \<not> only then ((the loaded, None), r1, w)
          else
            (let completedBeforeStart = (loaded \<noteq> None)
             in case redisStore_lock lock hashedKey (r1, w) of
               (Some _, r2, w2) \<Rightarrow> (case fn w2 of (res, w3) \<Rightarrow> (res, r2, w3))
             | (None, r2, w2) \<Rightarrow>
                 (let unlock = lock_cancel lock hashedKey;
                      (again, r3) = (if \<not> completedBeforeStart
                        then (case loadResult T hashedKey r2 of (x, r3) \<Rightarrow> (case x of Inr y \<Rightarrow> y | Inl _ \<Rightarrow> None, r3))
                        else (None, r2))
                  in case again of
                    Some result \<Rightarrow> ((result, None), unlock r3, w2)
                  | None \<Rightarrow>
                      (case fn w2 of
                         ((result, Some err), w3) \<Rightarrow> ((result, Some err), unlock r3, w3)
                       | ((result, None), w3) \<Rightarrow>
                           ((result, None),
                            unlock (if \<not> completedBeforeStart then storeResult T hashedKey result r3 else r3), w3)))))"

text \<open>A group without Redis has a memory cache: \<^verbatim>\<open>New\<close> makes no other.\<close>

definition flight_Do ::
  "('t, 'a) result_type \<Rightarrow> (string \<Rightarrow> string) \<Rightarrow> ('r, 'w) locker \<Rightarrow> string \<Rightarrow> (callConfig \<Rightarrow> callConfig) list \<Rightarrow> ('t, 'w) work
    \<Rightarrow> ('r, 'm, 'a) Group \<Rightarrow> 'w \<Rightarrow> ('t \<times> go_error option) \<times> ('r, 'm, 'a) Group \<times> 'w" where
  "flight_Do T sum256 lock key opts fn g w =
     (let call = call_config opts
      in case group g key of
        Some (v, err) \<Rightarrow> ((case from_any T v of Some t \<Rightarrow> t | None \<Rightarrow> zero_result T, err), g, w)
      | None \<Rightarrow>
          (case redis g of
             Some r \<Rightarrow>
               (case doDistributed T sum256 lock key (inFlightOnly call) fn r w of
                  (res, r1, w1) \<Rightarrow> (res, g\<lparr>redis := Some r1\<rparr>, w1))
           | None \<Rightarrow>
               if inFlightOnly call then (case fn w of (res, w1) \<Rightarrow> (res, g, w1))
               else (case doLocal T key fn (the (memory g)) w of
                       (res, m1, w1) \<Rightarrow> (res, g\<lparr>memory := Some m1\<rparr>, w1))))"

section \<open>Properties\<close>

text \<open>A cache that keeps its entries answers with what was set.\<close>

lemma retained_hit:
  "cache_retains zero c \<Longrightarrow> cache_GetIfPresent c k = (cache_contents c k, c)"
  by (simp add: cache_retains_def cache_GetIfPresent_def cache_contents_def otter_retains_get)

lemma retained_set:
  "cache_retains zero c \<Longrightarrow> cache_contents (cache_Set c k v) = (cache_contents c)(k \<mapsto> v) \<and> cache_retains zero (cache_Set c k v)"
  by (simp add: cache_retains_def cache_Set_def cache_contents_def otter_retains_set)

lemma doLocal_success:
  assumes "result_type_ok T" and "cache_retains zero m" and "doLocal T key fn m w = ((t, None), m1, w1)"
  shows "cache_retains zero m1 \<and> (\<exists>v. cache_contents m1 key = Some v \<and> from_any T v = Some t)"
  using assms retained_hit [OF assms(2), of key] retained_set [OF assms(2), of key]
  by (auto simp: doLocal_def result_type_ok_def bind_eq_Some_conv split: option.splits prod.splits)

lemma flight_replay:
  assumes "result_type_ok T" and "cache_retains zero (the (memory g))" and "redis g = None" and "group g = (\<lambda>_. None)"
    and "flight_Do T sum256 lock key [] fn g w = ((t, None), g1, w1)"
  shows "\<exists>g2. flight_Do T sum256 lock key [] fn' g1 w' = ((t, None), g2, w') \<and> redis g2 = None"
proof -
  from assms(3-5) obtain m1 where run: "doLocal T key fn (the (memory g)) w = ((t, None), m1, w1)" and g1: "g1 = g\<lparr>memory := Some m1\<rparr>"
    by (auto simp: flight_Do_def split: prod.splits)
  from doLocal_success [OF assms(1,2) run] obtain v where r: "cache_retains zero m1" and v: "cache_contents m1 key = Some v" "from_any T v = Some t"
    by blast
  have "doLocal T key fn' m1 w' = ((t, None), m1, w')"
    by (simp add: doLocal_def retained_hit [OF r] v)
  with assms(3,4) show ?thesis by (simp add: flight_Do_def g1)
qed

text \<open>In memory mode a call keeps every result of the type that the group already holds.\<close>

lemma flight_keeps:
  assumes "cache_retains zero (the (memory g))" and "redis g = None" and "group g = (\<lambda>_. None)"
    and "flight_Do T sum256 lock key opts fn g w = (res, g1, w1)"
  shows "cache_retains zero (the (memory g1)) \<and> redis g1 = None \<and> group g1 = (\<lambda>_. None)
    \<and> (\<forall>j v t. cache_contents (the (memory g)) j = Some v \<longrightarrow> from_any T v = Some t \<longrightarrow> cache_contents (the (memory g1)) j = Some v)"
proof (cases "inFlightOnly (call_config opts)")
  case True
  with assms show ?thesis by (auto simp: flight_Do_def split: prod.splits)
next
  case False
  with assms(2-4) obtain m1 where run: "doLocal T key fn (the (memory g)) w = (res, m1, w1)" and g1: "g1 = g\<lparr>memory := Some m1\<rparr>"
    by (auto simp: flight_Do_def split: prod.splits)
  have "cache_retains zero m1 \<and> (\<forall>j v t. cache_contents (the (memory g)) j = Some v \<longrightarrow> from_any T v = Some t \<longrightarrow> cache_contents m1 j = Some v)"
    using run retained_hit [OF assms(1), of key] retained_set [OF assms(1), of key] assms(1)
    by (auto simp: doLocal_def bind_eq_Some_conv split: option.splits prod.splits)
  with assms(2,3) show ?thesis by (simp add: g1)
qed

lemma flight_hit:
  assumes "cache_retains zero (the (memory g))" and "redis g = None" and "group g = (\<lambda>_. None)"
    and "cache_contents (the (memory g)) key = Some v" and "from_any T v = Some t"
  shows "\<exists>g2. flight_Do T sum256 lock key [] fn g w = ((t, None), g2, w)"
  using assms by (simp add: flight_Do_def doLocal_def retained_hit [OF assms(1)])

text \<open>
  Retries get the answer of the first call. In memory mode, while the cache keeps the entry, once a
  call of \<^verbatim>\<open>Do\<close> for a key succeeded, every later call for the key returns the same result
  without running its function: the state the function works on is not touched.
\<close>

theorem Do_replays_result:
  assumes "result_type_ok T" and "cache_retains zero (the (memory g))" and "redis g = None" and "group g = (\<lambda>_. None)"
    and "flight_Do T sum256 lock key [] fn g w = ((t, None), g1, w1)"
  shows "\<exists>g2. flight_Do T sum256 lock key [] fn' g1 w' = ((t, None), g2, w') \<and> redis g2 = None"
  by (rule flight_replay [OF assms])

text \<open>For the witnesses: texts as results, encoded as themselves, and a lock nobody else holds.\<close>

definition free_locker :: "('r, 'w) locker" where
  "free_locker = \<lparr>WithContext = (\<lambda>k s. (None, s)), lock_cancel = (\<lambda>k r. r), locker_Close = (\<lambda>r. r)\<rparr>"

lemma free_locker_simps [simp]: "WithContext free_locker k s = (None, s)" "lock_cancel free_locker k r = r"
  by (simp_all add: free_locker_def)

definition text_result :: "(string, string) result_type" where
  "text_result = \<lparr>zero_result = '''', to_any = id, from_any = Some, json_Marshal = Inr, json_Unmarshal = Inr\<rparr>"

definition demo_group :: "(string \<rightharpoonup> string, (string \<times> string) list, string) Group" where
  "demo_group = \<lparr>group = (\<lambda>_. None), redis = None,
     memory = Some \<lparr>otter_methods = map_otter '''', otter_state = []\<rparr>\<rparr>"

theorem Do_replays_result_witness:
  "\<exists>g1 g2. flight_Do text_result id free_locker ''k'' [] (\<lambda>n. ((''first'', None), Suc n)) demo_group 0 = ((''first'', None), g1, 1)
    \<and> flight_Do text_result id free_locker ''k'' [] (\<lambda>n. ((''second'', None), Suc n)) g1 1 = ((''first'', None), g2, 1)"
proof -
  obtain g1 where run: "flight_Do text_result id free_locker ''k'' [] (\<lambda>n. ((''first'', None), Suc n)) demo_group 0 = ((''first'', None), g1, 1)"
    by (simp add: flight_Do_def doLocal_def demo_group_def cache_GetIfPresent_def map_otter_def)
  have "result_type_ok text_result" "cache_retains '''' (the (memory demo_group))" "redis demo_group = None" "group demo_group = (\<lambda>_. None)"
    by (simp_all add: result_type_ok_def text_result_def demo_group_def cache_retains_def map_otter_retains)
  from Do_replays_result [OF this run] run show ?thesis by blast
qed

lemma doLocal_failure:
  assumes "cache_ok zero m" and "doLocal T key fn m w = ((t, Some e), m1, w1)"
  shows "cache_contents m1 \<subseteq>\<^sub>m cache_contents m \<and> fn w = ((t, Some e), w1) \<and> cache_ok zero m1
    \<and> (\<forall>v. cache_contents m1 key = Some v \<longrightarrow> from_any T v = None)"
proof -
  obtain c m0 where get: "cache_GetIfPresent m key = (c, m0)" by fastforce
  with assms(2) have "m1 = m0" "fn w = ((t, Some e), w1)" "Option.bind c (from_any T) = None"
    by (auto simp: doLocal_def split: prod.splits option.splits)
  with cache_GetIfPresent_law [OF assms(1) get] show ?thesis by (auto split: option.splits)
qed

text \<open>
  Failures are not replayed: when the function fails, \<^verbatim>\<open>Do\<close> in memory mode returns its result and error
  as they are and adds nothing to the cache, and the next call for the key runs its
  function.
\<close>

theorem Do_forgets_failures:
  assumes "cache_ok zero (the (memory g))" and "redis g = None" and "group g = (\<lambda>_. None)"
    and "flight_Do T sum256 lock key opts fn g w = ((t, Some e), g1, w1)"
  shows "fn w = ((t, Some e), w1) \<and> cache_contents (the (memory g1)) \<subseteq>\<^sub>m cache_contents (the (memory g))
    \<and> (\<exists>g2. flight_Do T sum256 lock key opts fn' g1 w' = (fst (fn' w'), g2, snd (fn' w')))"
proof (cases "inFlightOnly (call_config opts)")
  case True
  with assms show ?thesis by (auto simp: flight_Do_def split: prod.splits)
next
  case False
  with assms(2-4) obtain m1 where run: "doLocal T key fn (the (memory g)) w = ((t, Some e), m1, w1)" and g1: "g1 = g\<lparr>memory := Some m1\<rparr>"
    by (auto simp: flight_Do_def split: prod.splits)
  note f = doLocal_failure [OF assms(1) run]
  obtain c m2 where get: "cache_GetIfPresent m1 key = (c, m2)" by fastforce
  with f cache_GetIfPresent_law [of zero m1 key c m2] have "c = None \<or> c = cache_contents m1 key" by blast
  with f have "Option.bind c (from_any T) = None" by (cases "cache_contents m1 key") auto
  with get have "\<exists>m3. doLocal T key fn' m1 w' = (fst (fn' w'), m3, snd (fn' w'))"
    by (auto simp: doLocal_def split: prod.splits option.splits)
  with assms(2,3) f False show ?thesis by (auto simp: flight_Do_def g1)
qed

theorem Do_forgets_failures_witness:
  "fst (flight_Do text_result id free_locker ''k'' [] (\<lambda>n. ((''second'', None), Suc n))
     (fst (snd (flight_Do text_result id free_locker ''k'' [] (\<lambda>n. (('''', Some ErrNoRows), Suc n)) demo_group (0::nat)))) 1)
   = (''second'', None)"
proof -
  obtain g1 where run: "flight_Do text_result id free_locker ''k'' [] (\<lambda>n. (('''', Some ErrNoRows), Suc n)) demo_group 0
      = (('''', Some ErrNoRows), g1, 1)"
    by (simp add: flight_Do_def doLocal_def demo_group_def cache_GetIfPresent_def map_otter_def)
  have "cache_ok '''' (the (memory demo_group))" "redis demo_group = None" "group demo_group = (\<lambda>_. None)"
    by (simp_all add: demo_group_def cache_ok_def map_otter_retains otter_retains_laws)
  from Do_forgets_failures [OF this run, of "\<lambda>n. ((''second'', None), Suc n)" 1] run show ?thesis by auto
qed

text \<open>
  A caller that only wants to join calls in flight never gets the outcome of a finished one: with
  \<^verbatim>\<open>InFlightOnly\<close> and Redis, when a result is already stored at the start of the call, the result is
  that of the caller's own function, run after the lock was asked for, and the stored result
  is not replaced: after the lock was asked for, the service is not written any more but to release it.
\<close>

theorem InFlightOnly_is_not_replayed:
  assumes "group g key = None" and "redis g = Some r" and "loadResult T (hashKey sum256 key) r = (Inr (Some old), r1)"
    and "WithContext lock (hashKey sum256 key) (r1, w) = (le, r2, w2)" and "fn w2 = (res, w3)"
  shows "flight_Do T sum256 lock key [InFlightOnly] fn g w
    = (res, g\<lparr>redis := Some (if le = None then lock_cancel lock (hashKey sum256 key) r2 else r2)\<rparr>, w3)"
  using assms
  by (cases res; cases "snd res") (auto simp: flight_Do_def doDistributed_def Let_def split: option.splits)

theorem InFlightOnly_is_not_replayed_witness:
  "fst (flight_Do text_result id free_locker ''k'' [InFlightOnly] (\<lambda>n. ((''mine'', None), Suc n))
     (demo_group\<lparr>redis := Some \<lparr>client = map_redis [(''flight:result:6b'', ''old'')], resultTTL = Second\<rparr>\<rparr>) 0) = (''mine'', None)"
proof -
  let ?r = "\<lparr>client = map_redis [(''flight:result:6b'', ''old'')], resultTTL = Second\<rparr>"
  have key: "hashKey id ''k'' = ''6b''" by code_simp
  obtain r1 where load: "loadResult text_result (hashKey id ''k'') ?r = (Inr (Some ''old''), r1)"
    by (auto simp: loadResult_def redisStore_load_def RedisClient_Get_def client_Do_def map_redis_def key
        resultKeyPrefix_def answer_string_def text_result_def)
  from InFlightOnly_is_not_replayed [of "demo_group\<lparr>redis := Some ?r\<rparr>" "''k''" ?r text_result id "''old''" r1
      "free_locker" 0 None r1 0 "\<lambda>n. ((''mine'', None), Suc n)" "(''mine'', None)" 1] load
  show ?thesis by (simp add: demo_group_def)
qed

text \<open>An error that \<^verbatim>\<open>Do\<close> returns is the error of the caller's function.\<close>

lemma doLocal_error:
  "doLocal T key fn m w = ((t, Some e), m1, w1) \<Longrightarrow> fn w = ((t, Some e), w1)"
  by (auto simp: doLocal_def split: prod.splits option.splits)

lemma doDistributed_error:
  "doDistributed T sum256 lock key only fn r w = ((t, Some e), r1, w1) \<Longrightarrow> \<exists>w0. fn w0 = ((t, Some e), w1)"
  unfolding doDistributed_def Let_def
  by (auto split: prod.splits option.splits sum.splits if_splits)

lemma flight_error:
  assumes "group g = (\<lambda>_. None)" and "flight_Do T sum256 lock key opts fn g w = ((t, Some e), g1, w1)"
  shows "\<exists>w0. fn w0 = ((t, Some e), w1)"
  using assms
  by (auto simp: flight_Do_def Let_def dest!: doLocal_error doDistributed_error split: option.splits prod.splits if_splits)

text \<open>
  Results a caller of \<^verbatim>\<open>Do\<close> with \<^verbatim>\<open>InFlightOnly\<close> may get from elsewhere, of a call another goroutine has in flight or, while it
  waits for the lock, of another process, satisfy \<open>P\<close>.
\<close>

definition flight_shares ::
  "('t, 'a) result_type \<Rightarrow> (string \<Rightarrow> string) \<Rightarrow> ('r, 'w) locker \<Rightarrow> ('t \<Rightarrow> go_error option \<Rightarrow> bool) \<Rightarrow> ('r, 'm, 'a) Group \<Rightarrow> string
    \<Rightarrow> 'w \<Rightarrow> bool" where
  "flight_shares T sum256 lock P g key w \<longleftrightarrow>
     (\<forall>v e. group g key = Some (v, e) \<longrightarrow> P (case from_any T v of Some t \<Rightarrow> t | None \<Rightarrow> zero_result T) e)
     \<and> (\<forall>r x r1 r2 w2 t r3. redis g = Some r \<longrightarrow> loadResult T (hashKey sum256 key) r = (x, r1) \<longrightarrow>
          WithContext lock (hashKey sum256 key) (r1, w) = (None, r2, w2) \<longrightarrow>
          loadResult T (hashKey sum256 key) r2 = (Inr (Some t), r3) \<longrightarrow> P t None)"

lemma flight_shares_alone: "group g key = None \<Longrightarrow> redis g = None \<Longrightarrow> flight_shares T sum256 lock P g key w"
  by (simp add: flight_shares_def)

lemma flight_result:
  assumes sh: "flight_shares T sum256 lock P g key w" and run: "flight_Do T sum256 lock key [InFlightOnly] fn g w = ((t, e), g1, w1)"
  shows "P t e \<or> (\<exists>w0. fn w0 = ((t, e), w1))"
proof (cases "group g key")
  case (Some ve)
  with assms show ?thesis by (cases ve) (auto simp: flight_Do_def flight_shares_def)
next
  case none: None
  show ?thesis
  proof (cases "redis g")
    case None
    with none run show ?thesis by (auto simp: flight_Do_def split: prod.splits)
  next
    case (Some r)
    let ?k = "hashKey sum256 key"
    from none Some run obtain r1 where dd: "doDistributed T sum256 lock key True fn r w = ((t, e), r1, w1)"
      by (auto simp: flight_Do_def split: prod.splits)
    obtain x r2 where ld: "loadResult T ?k r = (x, r2)" by fastforce
    obtain le r3 w3 where lk: "WithContext lock ?k (r2, w) = (le, r3, w3)" by (metis prod.collapse)
    obtain y r4 where again: "loadResult T ?k r3 = (y, r4)" by fastforce
    obtain t2 e2 w4 where fn: "fn w3 = ((t2, e2), w4)" by (metis prod.collapse)
    have shared: "P z None" if "le = None" "y = Inr (Some z)" for z
      using sh Some ld lk again that by (auto simp: flight_shares_def)
    show ?thesis
    proof (cases x)
      case (Inl err)
      with dd ld show ?thesis by (auto simp: doDistributed_def Let_def split: prod.splits)
    next
      case (Inr l)
      with dd ld lk again fn shared show ?thesis
        by (cases le; cases l; cases e2; cases y) (auto simp: doDistributed_def Let_def split: option.splits)
    qed
  qed
qed

section \<open>Sharing between processes\<close>

definition stored_result :: "('t, 'a) result_type \<Rightarrow> 'r redisStore \<Rightarrow> string \<Rightarrow> 't option" where
  "stored_result T r k = (case client_keys (client r) (resultKeyPrefix @ k) of
     None \<Rightarrow> None | Some raw \<Rightarrow> (case json_Unmarshal T raw of Inl _ \<Rightarrow> None | Inr t \<Rightarrow> Some t))"

lemma loadResult_exact:
  assumes "redis_exact (client r)"
  obtains r1 where "loadResult T k r = (Inr (stored_result T r k), r1)" and "redis_exact (client r1)"
    and "\<And>j. stored_result T r1 j = stored_result T r j"
proof -
  obtain c where c: "client_Do (client r) (CmdGet (resultKeyPrefix @ k))
      = (answer_string (client_keys (client r) (resultKeyPrefix @ k)), c)" "client_keys c = client_keys (client r)" "redis_exact c"
    using client_Do_exact [OF assms, of "CmdGet (resultKeyPrefix @ k)"] by (metis redis_answer.simps(2) redis_effect.simps(2))
  have "loadResult T k r = (Inr (stored_result T r k), r\<lparr>client := c\<rparr>)"
    by (auto simp: loadResult_def redisStore_load_def RedisClient_Get_def c(1) answer_string_def stored_result_def IsRedisNil_def
        split: option.splits sum.splits)
  with c show thesis using that [of "r\<lparr>client := c\<rparr>"] by (simp add: stored_result_def)
qed

lemma storeResult_exact:
  assumes "result_type_ok T" and "redis_exact (client r)" and "json_Marshal T t = Inr raw"
  shows "stored_result T (storeResult T k t r) k = Some t \<and> redis_exact (client (storeResult T k t r))"
proof -
  obtain c where "client_Do (client r) (CmdSetPx (resultKeyPrefix @ k) raw (resultTTL r)) = (ReplyOK, c)"
    "client_keys c = (client_keys (client r))(resultKeyPrefix @ k \<mapsto> raw)" "redis_exact c"
    using client_Do_exact [OF assms(2), of "CmdSetPx (resultKeyPrefix @ k) raw (resultTTL r)"]
    by (metis redis_answer.simps(3) redis_effect.simps(3))
  with assms show ?thesis
    by (simp add: storeResult_def redisStore_store_def RedisClient_Set_def stored_result_def result_type_ok_def)
qed

text \<open>
  The lock is granted, after whatever other processes did to the service meanwhile; releasing it leaves the results
  of the group alone.
\<close>

definition lock_granted :: "('r, 'w) locker \<Rightarrow> bool" where
  "lock_granted lock \<longleftrightarrow> (\<forall>k r w. \<exists>r' w'. WithContext lock k (r, w) = (None, r', w') \<and> (redis_exact (client r) \<longrightarrow> redis_exact (client r')))
     \<and> (\<forall>k r. redis_exact (client r) \<longrightarrow> redis_exact (client (lock_cancel lock k r))
       \<and> (\<forall>j. client_keys (client (lock_cancel lock k r)) (resultKeyPrefix @ j) = client_keys (client r) (resultKeyPrefix @ j)))"

lemma lock_cancel_keeps:
  assumes "lock_granted lock" and "redis_exact (client r)"
  shows "redis_exact (client (lock_cancel lock k r))" and "stored_result T (lock_cancel lock k r) j = stored_result T r j"
  using assms by (simp_all add: lock_granted_def stored_result_def)

lemma doDistributed_success:
  assumes T: "result_type_ok T" "\<And>t. \<exists>raw. json_Marshal T t = Inr raw" and r: "redis_exact (client r)" and lock: "lock_granted lock"
    and run: "doDistributed T sum256 lock key False fn r w = ((t, None), r', w')"
  shows "stored_result T r' (hashKey sum256 key) = Some t \<and> redis_exact (client r')"
proof -
  let ?k = "hashKey sum256 key"
  obtain r1 where r1: "loadResult T ?k r = (Inr (stored_result T r ?k), r1)" "redis_exact (client r1)"
    "\<And>j. stored_result T r1 j = stored_result T r j" by (rule loadResult_exact [OF r]) blast
  obtain r2 w2 where l: "WithContext lock ?k (r1, w) = (None, r2, w2)" and r2: "redis_exact (client r2)"
    using lock r1(2) by (auto simp: lock_granted_def) (metis (no_types))
  obtain r3 where r3: "loadResult T ?k r2 = (Inr (stored_result T r2 ?k), r3)" "redis_exact (client r3)"
    "\<And>j. stored_result T r3 j = stored_result T r2 j" by (rule loadResult_exact [OF r2]) blast
  obtain raw where raw: "json_Marshal T t = Inr raw" using T(2) by blast
  show ?thesis
  proof (cases "stored_result T r ?k")
    case (Some t0)
    with run r1 show ?thesis by (auto simp: doDistributed_def Let_def)
  next
    case None
    show ?thesis
    proof (cases "stored_result T r2 ?k")
      case (Some t0)
      with run r1 l r3 None have "r' = lock_cancel lock ?k r3" "t = t0" by (auto simp: doDistributed_def Let_def)
      with Some r3 lock_cancel_keeps(1) [OF lock r3(2)] lock_cancel_keeps(2) [OF lock r3(2), of T] show ?thesis by simp
    next
      case unset: None
      then have r': "r' = lock_cancel lock ?k (storeResult T ?k t r3)"
        using run r1 l r3 None by (auto simp: doDistributed_def Let_def split: prod.splits option.splits)
      note stored = storeResult_exact [OF T(1) r3(2) raw]
      with lock_cancel_keeps(1) [OF lock conjunct2 [OF stored]] lock_cancel_keeps(2) [OF lock conjunct2 [OF stored], of T] show ?thesis by (simp add: r')
    qed
  qed
qed

text \<open>
  Later calls for a key on the service the first call left, in order. Each comes with what happened to the service before it, its
  locker, whether it has the option \<^verbatim>\<open>InFlightOnly\<close>, its function, the group of its process and the state the function works on.
\<close>

type_synonym ('t, 'r, 'm, 'a, 'w) later_call =
  "('r redisStore \<Rightarrow> 'r redisStore) \<times> ('r, 'w) locker \<times> bool \<times> ('t, 'w) work \<times> ('r, 'm, 'a) Group \<times> 'w"

fun later_calls ::
  "('t, 'a) result_type \<Rightarrow> (string \<Rightarrow> string) \<Rightarrow> string \<Rightarrow> ('t, 'r, 'm, 'a, 'w) later_call list \<Rightarrow> 'r redisStore
    \<Rightarrow> (('t \<times> go_error option) \<times> 'w) list" where
  "later_calls T sum256 key [] r = []"
| "later_calls T sum256 key ((others, lock, only, fn, g, w) # calls) r =
     (case flight_Do T sum256 lock key (if only then [InFlightOnly] else []) fn (g\<lparr>redis := Some (others r)\<rparr>) w of
        (res, g', w') \<Rightarrow> (res, w') # later_calls T sum256 key calls (the (redis g')))"

text \<open>
  The entry of the result is still there: neither the others nor the work done while the call waits for the lock removed or replaced
  it, Redis stays reachable, and no call for the key is in flight in the process.
\<close>

definition entry_kept :: "string \<Rightarrow> 'r redisStore \<Rightarrow> 'r redisStore \<Rightarrow> bool" where
  "entry_kept k r r' \<longleftrightarrow> (redis_exact (client r) \<longrightarrow> redis_exact (client r')
     \<and> client_keys (client r') (resultKeyPrefix @ k) = client_keys (client r) (resultKeyPrefix @ k))"

definition call_keeps :: "(string \<Rightarrow> string) \<Rightarrow> string \<Rightarrow> ('t, 'r, 'm, 'a, 'w) later_call \<Rightarrow> bool" where
  "call_keeps sum256 key = (\<lambda>(others, lock, only, fn, g, w).
     group g key = None \<and> (\<forall>r. entry_kept (hashKey sum256 key) r (others r))
     \<and> (\<forall>j r w e r' w'. WithContext lock j (r, w) = (e, r', w') \<longrightarrow> entry_kept (hashKey sum256 key) r r')
     \<and> (\<forall>j r. entry_kept (hashKey sum256 key) r (lock_cancel lock j r)))"

lemma entry_kept_result:
  "entry_kept k r r' \<Longrightarrow> redis_exact (client r) \<Longrightarrow> redis_exact (client r') \<and> stored_result T r' k = stored_result T r k"
  by (simp add: entry_kept_def stored_result_def)

lemma later_call_step:
  assumes ok: "call_keeps sum256 key (others, lock, only, fn, g, w)" and r: "redis_exact (client r)"
    and t: "stored_result T r (hashKey sum256 key) = Some t"
    and run: "flight_Do T sum256 lock key (if only then [InFlightOnly] else []) fn (g\<lparr>redis := Some (others r)\<rparr>) w = (res, g', w')"
  shows "(if only then \<exists>w0. fn w0 = (res, w') else res = (t, None) \<and> w' = w)
    \<and> redis_exact (client (the (redis g'))) \<and> stored_result T (the (redis g')) (hashKey sum256 key) = Some t"
proof -
  let ?k = "hashKey sum256 key"
  have g: "group g key = None" and o: "entry_kept ?k r (others r)" and u: "entry_kept ?k s (lock_cancel lock j s)" for j s
    using ok by (simp_all add: call_keeps_def)
  have l: "WithContext lock j (s, v) = (e, s', v') \<Longrightarrow> entry_kept ?k s s'" for j s v e s' v'
    using ok by (simp add: call_keeps_def) blast
  from entry_kept_result [OF o r, of T] t have r0: "redis_exact (client (others r))" "stored_result T (others r) ?k = Some t" by simp_all
  obtain r1 where r1: "loadResult T ?k (others r) = (Inr (Some t), r1)" "redis_exact (client r1)" "stored_result T r1 ?k = Some t"
    using loadResult_exact [OF r0(1), of T ?k] r0(2) by metis
  obtain e r2 w2 where lk: "WithContext lock ?k (r1, w) = (e, r2, w2)" by (metis prod.collapse)
  have r2: "redis_exact (client r2) \<and> stored_result T r2 ?k = Some t" using entry_kept_result [OF l [OF lk] r1(2), of T] r1(3) by simp
  have r3: "redis_exact (client (lock_cancel lock ?k r2)) \<and> stored_result T (lock_cancel lock ?k r2) ?k = Some t"
    using entry_kept_result [OF u] r2 by metis
  obtain t2 e2 w3 where fn: "fn w2 = ((t2, e2), w3)" by (metis prod.collapse)
  show ?thesis
    using run g r1 lk fn r2 r3
    by (cases only; cases e; cases e2) (auto simp: flight_Do_def doDistributed_def Let_def)
qed

text \<open>
  C37. Processes share results. When \<^verbatim>\<open>Do\<close> with default options succeeded for a key in one process, with Redis reachable and the
  lock granted, then of all later calls for the key, in any processes on the same service, with no call for the key in flight in the
  process, and as long as the entry has not expired (\<open>call_keeps\<close>),
  those with default options return that result and do not run their functions, also when the first process only found the
  result after waiting for the lock; those with \<^verbatim>\<open>InFlightOnly\<close> run their functions and return what these return, and the
  stored result is not replaced by it.
\<close>

theorem Do_shares_between_processes:
  assumes "result_type_ok T" and "\<And>t. \<exists>raw. json_Marshal T t = Inr raw" and "redis_exact (client r)" and "lock_granted lock"
    and "group g key = None" and "redis g = Some r"
    and "flight_Do T sum256 lock key [] fn g w = ((t, None), g1, w1)" and "redis g1 = Some r1"
    and "list_all (call_keeps sum256 key) calls"
  shows "list_all2 (\<lambda>(_, _, only, fn', _, w') (res, w2). if only then \<exists>w0. fn' w0 = (res, w2) else res = (t, None) \<and> w2 = w')
    calls (later_calls T sum256 key calls r1)"
proof -
  from assms(5-8) have "doDistributed T sum256 lock key False fn r w = ((t, None), r1, w1)"
    by (auto simp: flight_Do_def split: prod.splits)
  from doDistributed_success [OF assms(1-4) this] have "redis_exact (client r1)" "stored_result T r1 (hashKey sum256 key) = Some t"
    by auto
  with assms(9) show ?thesis
  proof (induction calls arbitrary: r1)
    case (Cons c calls)
    obtain others lk only fn' h w' where c: "c = (others, lk, only, fn', h, w')" by (metis prod_cases6)
    obtain res h' w2 where run: "flight_Do T sum256 lk key (if only then [InFlightOnly] else []) fn' (h\<lparr>redis := Some (others r1)\<rparr>) w' = (res, h', w2)"
      by (metis prod.collapse)
    from Cons.prems c have "call_keeps sum256 key (others, lk, only, fn', h, w')" by simp
    from later_call_step [OF this Cons.prems(2,3) run] Cons.IH [of "the (redis h')"] Cons.prems(1) run c show ?case by simp
  qed simp
qed

theorem Do_shares_between_processes_witness:
  "\<exists>g1 r1. flight_Do text_result id free_locker ''k'' [] (\<lambda>n. ((''first'', None), Suc n))
      (demo_group\<lparr>redis := Some \<lparr>client = map_redis [], resultTTL = Second\<rparr>\<rparr>) 0 = ((''first'', None), g1, 1)
    \<and> redis g1 = Some r1
    \<and> fst (hd (later_calls text_result id ''k'' [(id, free_locker, False, \<lambda>n. ((''second'', None), Suc n), g1, 7)] r1)) = (''first'', None)"
proof -
  let ?r = "\<lparr>client = map_redis [], resultTTL = Second\<rparr>"
  let ?g = "demo_group\<lparr>redis := Some ?r\<rparr>"
  obtain g1 r1 where run: "flight_Do text_result id free_locker ''k'' [] (\<lambda>n. ((''first'', None), Suc n)) ?g 0 = ((''first'', None), g1, 1)"
    and r1: "redis g1 = Some r1" "group g1 = (\<lambda>_. None)"
    by (auto simp: flight_Do_def doDistributed_def loadResult_def redisStore_load_def RedisClient_Get_def client_Do_def map_redis_def
        hashKey_def answer_string_def text_result_def storeResult_def redisStore_store_def RedisClient_Set_def demo_group_def
        IsRedisNil_def Let_def split: prod.splits)
  have ok: "result_type_ok text_result" "\<And>t. \<exists>raw. json_Marshal text_result t = Inr raw" "redis_exact (client ?r)"
    by (simp_all add: result_type_ok_def text_result_def map_redis_exact)
  have lock: "lock_granted free_locker" by (simp add: lock_granted_def)
  let ?later = "[(id, free_locker, False, \<lambda>n. ((''second'', None), Suc n), g1, 7)]"
  have keeps: "list_all (call_keeps id ''k'') ?later" by (simp add: call_keeps_def entry_kept_def r1(2))
  have "group ?g ''k'' = None" "redis ?g = Some ?r" by (simp_all add: demo_group_def)
  from Do_shares_between_processes [OF ok lock this run r1(1) keeps] have
    "fst (hd (later_calls text_result id ''k'' ?later r1)) = (''first'', None)"
    by (auto simp del: later_calls.simps simp: list_all2_Cons1)
  with run r1(1) show ?thesis by blast
qed

end
