(* ===== verification/Refresh.thy ===== *)
theory Refresh
  imports Users_Store Http Flight Demo
begin

text \<open>
  \<^verbatim>\<open>server/internal/handlers/refresh/refresh.go\<close>: the handlers \<^verbatim>\<open>/refresh\<close>, which rotates a refresh token
  under the flight group, and \<^verbatim>\<open>/refresh-access\<close>. A revoked refresh token is a sign of theft:
  whoever presents it loses the device session (\<open>deleteDeviceOnReuse\<close>).
\<close>

definition refresh_flightKeyPrefix :: string where
  "refresh_flightKeyPrefix = ''refresh:''"

definition rotateTimeout :: duration where
  "rotateTimeout = 10 * Second"

record 'd refresh_Handler =
  refresh_db :: "'d options_DB"
  refresh_users :: "'d options_UsersDB"
  refresh_jwtManager :: "'d JWTManager"
  refresh_secureCookie :: bool

definition refresh_New :: "'d options_DB \<Rightarrow> 'd options_UsersDB \<Rightarrow> 'd JWTManager \<Rightarrow> bool \<Rightarrow> 'd refresh_Handler" where
  "refresh_New db us jwtManager secureCookie =
     \<lparr>refresh_db = db, refresh_users = us, refresh_jwtManager = jwtManager, refresh_secureCookie = secureCookie\<rparr>"

definition zero_TokenPair :: TokenPair where
  "zero_TokenPair = \<lparr>AccessToken = '''', RefreshToken = ''''\<rparr>"

definition deleteDeviceOnReuse :: "'d refresh_Handler \<Rightarrow> RefreshClaims \<Rightarrow> go_error \<Rightarrow> 'd \<Rightarrow> 'd" where
  "deleteDeviceOnReuse h cl err d =
     (if \<not> errors_Is err ErrTokenRevoked then d
      else snd (DeleteDevice (refresh_db h) (Subject (rf_Registered cl)) (rf_DeviceID cl) d))"

definition refresh_rotate ::
  "jwt_lib \<Rightarrow> 'd refresh_Handler \<Rightarrow> clock \<Rightarrow> string \<Rightarrow> 'd \<Rightarrow> (TokenPair \<times> go_error option) \<times> 'd" where
  "refresh_rotate L h clk refreshToken d =
     (case VerifyRefresh L (refresh_jwtManager h) (clk 0) refreshToken d of
        ((cl, Some err), d1) \<Rightarrow>
          ((zero_TokenPair, Some (RotateError ''Invalid session or expired refresh token'' StatusUnauthorized err)),
           deleteDeviceOnReuse h cl err d1)
      | ((cl, None), d1) \<Rightarrow>
          (case GetUsername (refresh_users h) (Subject (rf_Registered cl)) d1 of
             (Inl err, d2) \<Rightarrow>
               if errors_Is err ErrUserNotFound
               then ((zero_TokenPair, Some (RotateError ''User not found'' StatusUnauthorized err)), d2)
               else ((zero_TokenPair, Some (RotateError ''Failed to fetch username'' StatusInternalServerError err)), d2)
           | (Inr uname, d2) \<Rightarrow>
               (case RotateRefresh L (refresh_jwtManager h) (later 1 clk) refreshToken d2 of
                  ((Inl err, rotatedClaims), d3) \<Rightarrow>
                    if errors_Is err ErrInvalidToken
                    then ((zero_TokenPair, Some (RotateError ''Invalid session or expired refresh token'' StatusUnauthorized err)),
                          deleteDeviceOnReuse h rotatedClaims err d3)
                    else ((zero_TokenPair, Some (RotateError ''Failed to rotate refresh token'' StatusInternalServerError err)), d3)
                | ((Inr newRefreshToken, _), d3) \<Rightarrow>
                    (case GenerateAccess L (refresh_jwtManager h) (later 4 clk) newRefreshToken uname d3 of
                       (Inl err, d4) \<Rightarrow>
                         ((zero_TokenPair, Some (RotateError ''Access token generation failed'' StatusInternalServerError err)), d4)
                     | (Inr accessToken, d4) \<Rightarrow>
                         ((\<lparr>AccessToken = accessToken, RefreshToken = newRefreshToken\<rparr>, None), d4)))))"

definition refresh_Refresh ::
  "jwt_lib \<Rightarrow> (TokenPair, 'a) result_type \<Rightarrow> (string \<Rightarrow> string) \<Rightarrow> ('r, 'd) locker \<Rightarrow> 'd refresh_Handler \<Rightarrow> clock \<Rightarrow> Request
    \<Rightarrow> ResponseWriter \<Rightarrow> ('r, 'm, 'a) Group \<Rightarrow> 'd \<Rightarrow> ResponseWriter \<times> ('r, 'm, 'a) Group \<times> 'd" where
  "refresh_Refresh L T sum256 lock h clk r w g d =
     (case FromRequest r of
        Inl _ \<Rightarrow> (Unauthorized BearerChallenge ''Invalid refresh token'' w, g, d)
      | Inr refreshToken \<Rightarrow>
          (case flight_Do T sum256 lock (refresh_flightKeyPrefix @ refreshToken) [] (refresh_rotate L h clk refreshToken) g d of
             ((_, Some err), g1, d1) \<Rightarrow>
               (case errors_As_RotateError err of
                  Some (msg, status, inner) \<Rightarrow>
                    (let w1 = (if status = StatusUnauthorized
                               then SetAuthError inner (header_Set ''WWW-Authenticate'' InvalidTokenChallenge w) else w)
                     in (response_JSON False (MsgText msg) status w1, g1, d1))
                | None \<Rightarrow>
                    (response_JSON False (MsgText ''Failed to rotate refresh token'') StatusInternalServerError w, g1, d1))
           | ((tokens, None), g1, d1) \<Rightarrow>
               (NoStoreJSON True (MsgTokens tokens) StatusOK
                  (refreshtoken_SetCookie L (RefreshToken tokens) (refresh_secureCookie h) w), g1, d1)))"

definition refresh_RefreshAccess ::
  "jwt_lib \<Rightarrow> 'd refresh_Handler \<Rightarrow> clock \<Rightarrow> Request \<Rightarrow> ResponseWriter \<Rightarrow> 'd \<Rightarrow> ResponseWriter \<times> 'd" where
  "refresh_RefreshAccess L h clk r w d =
     (case FromRequest r of
        Inl _ \<Rightarrow> (Unauthorized BearerChallenge ''Invalid refresh token'' w, d)
      | Inr refreshToken \<Rightarrow>
          (case VerifyRefresh L (refresh_jwtManager h) (clk 0) refreshToken d of
             ((cl, Some err), d1) \<Rightarrow>
               (Unauthorized InvalidTokenChallenge ''Invalid session or expired refresh token'' (SetAuthError err w),
                deleteDeviceOnReuse h cl err d1)
           | ((cl, None), d1) \<Rightarrow>
               (case GetUsername (refresh_users h) (Subject (rf_Registered cl)) d1 of
                  (Inl err, d2) \<Rightarrow>
                    if errors_Is err ErrUserNotFound
                    then (Unauthorized InvalidTokenChallenge ''User not found'' w, d2)
                    else (response_JSON False (MsgText ''Failed to fetch username'') StatusInternalServerError w, d2)
                | (Inr uname, d2) \<Rightarrow>
                    (case GenerateAccess L (refresh_jwtManager h) (later 1 clk) refreshToken uname d2 of
                       (Inl err, d3) \<Rightarrow>
                         if errors_Is err ErrInvalidToken
                         then (Unauthorized InvalidTokenChallenge ''Invalid session or expired refresh token'' (SetAuthError err w), d3)
                         else (response_JSON False (MsgText ''Refresh failed'') StatusInternalServerError w, d3)
                     | (Inr accessToken, d3) \<Rightarrow>
                         (NoStoreJSON True (MsgText accessToken) StatusOK w, d3)))))"

section \<open>Reuse and rotation over any session store\<close>

context session_users begin

text \<open>Reuse of a token of another generation: the device goes.\<close>

lemma rotate_reuse:
  assumes L: "jwt_laws L" and h: "manager_db (refresh_jwtManager h) = DB" "refresh_db h = ODB"
    and d: "store_invar d" "up d" and c: "carries L s (RefreshClaimsOf r) key"
    and k: "named d (rf_DeviceID r)" "owner d (Subject (rf_Registered r)) (rf_DeviceID r)"
    and dev: "dev d (rf_DeviceID r) = Some (key, g)" "g \<noteq> rf_Generation r"
    and valid: "claims_valid (parserOptions (refresh_jwtManager h)) (clk 0) (rf_Registered r)"
  shows "\<exists>d'. refresh_rotate L h clk s d =
      ((zero_TokenPair, Some (RotateError ''Invalid session or expired refresh token'' StatusUnauthorized ErrTokenRevoked)), d')
    \<and> store_invar d' \<and> up d' \<and> named d' = named d \<and> dev d' = (dev d)(rf_DeviceID r := None)"
proof -
  let ?m = "refresh_jwtManager h"
  obtain d1 where v: "verifyToken L ?m (clk 0) s (RefreshClaimsOf zero_refresh) d = ((RefreshClaimsOf r, Inl ErrTokenRevoked), d1)"
    and d1: "store_invar d1" "up d1" "dev d1 = dev d" "named d1 = named d"
    using verify_carried [OF L h(1) d c _ dev(1), of RefreshTokenType "rf_Generation r" "RefreshClaimsOf zero_refresh" "clk 0"] valid dev(2)
    by auto
  have o1: "owner d1 = owner d" using verify_keeps [OF h(1) d(1) v] by simp
  obtain z d' where del: "DeleteDevice ODB (Subject (rf_Registered r)) (rf_DeviceID r) d1 = (z, d')" by fastforce
  have k1: "named d1 (rf_DeviceID r)" using k d1 by simp
  have "z = None" using del_up [OF d1(1) k1 d1(2)] del by (metis fst_conv)
  with del del_done [OF d1(1) k1] have dev': "dev d' = (dev d)(rf_DeviceID r := None)" using o1 k(2) d1(3) by simp
  have run: "refresh_rotate L h clk s d =
      ((zero_TokenPair, Some (RotateError ''Invalid session or expired refresh token'' StatusUnauthorized ErrTokenRevoked)), d')"
    using v del h(2) by (simp add: refresh_rotate_def VerifyRefresh_def deleteDeviceOnReuse_def)
  from del_state [OF d1(1) k1 del] d1 have "store_invar d'" "up d'" "named d' = named d" by simp_all
  with run dev' show ?thesis by blast
qed

lemma rotate_parsed:
  assumes "jwt_laws L" and "RotateRefresh L m clk s d = ((Inr s', r'), d')"
    and "fst (lib_ParseUnverified L s (RefreshClaimsOf zero_refresh)) = RefreshClaimsOf r"
  shows "\<exists>n. r' = newRefreshClaims L m (later 1 clk) (Subject (rf_Registered r)) (rf_DeviceID r) n"
proof -
  obtain c key d1 n where v: "verifyToken L m (clk 0) s (RefreshClaimsOf zero_refresh) d = ((c, Inr key), d1)"
    and r': "r' = newRefreshClaims L m (later 1 clk) (Subject (rf_Registered (the_refresh c))) (rf_DeviceID (the_refresh c)) n"
    using rotate_shape [OF assms(2)] by blast
  from verify_refresh_sound [OF assms(1) v] assms(3) have "c = RefreshClaimsOf r" by (auto simp: carries_def)
  with r' show ?thesis by auto
qed

lemma rotate_success_shape:
  assumes "refresh_rotate L h clk s d = ((pair, None), d')"
  obtains cl d1 uname d2 r' d3 where "VerifyRefresh L (refresh_jwtManager h) (clk 0) s d = ((cl, None), d1)"
    and "GetUsername (refresh_users h) (Subject (rf_Registered cl)) d1 = (Inr uname, d2)"
    and "RotateRefresh L (refresh_jwtManager h) (later 1 clk) s d2 = ((Inr (RefreshToken pair), r'), d3)"
    and "GenerateAccess L (refresh_jwtManager h) (later 4 clk) (RefreshToken pair) uname d3 = (Inr (AccessToken pair), d')"
  using assms
  by (auto simp: refresh_rotate_def split: prod.splits option.splits sum.splits if_splits)

text \<open>
  A successful rotation moves the device on by one and hands out two tokens: the refresh token carries the claims made at the third
  reading of the clock, the access token those made from it with the name the users table has, from the fifth reading on.
\<close>

lemma rotate_success:
  assumes L: "jwt_laws L" and h: "manager_db (refresh_jwtManager h) = DB" "refresh_users h = UDB"
    and m: "config_encodable L (refresh_jwtManager h)" and d: "store_invar d" "up d"
    and names: "\<forall>em d u d'. GetUsername UDB em d = (Inr u, d') \<longrightarrow> lib_text L u"
    and r: "fst (lib_ParseUnverified L s (RefreshClaimsOf zero_refresh)) = RefreshClaimsOf r" and nm: "named d (rf_DeviceID r)"
    and rot: "refresh_rotate L h clk s d = ((pair, None), d')"
  shows "\<exists>key d1 uname d2. dev d (rf_DeviceID r) = Some (key, rf_Generation r)
    \<and> dev d' = (dev d)(rf_DeviceID r \<mapsto> (key, rf_Generation r + 1)) \<and> store_invar d' \<and> up d'
    \<and> VerifyRefresh L (refresh_jwtManager h) (clk 0) s d = ((r, None), d1)
    \<and> GetUsername UDB (Subject (rf_Registered r)) d1 = (Inr uname, d2)
    \<and> carries L s (RefreshClaimsOf r) key
    \<and> carries L (RefreshToken pair) (RefreshClaimsOf (newRefreshClaims L (refresh_jwtManager h) (later 2 clk)
        (Subject (rf_Registered r)) (rf_DeviceID r) (rf_Generation r + 1))) key
    \<and> carries L (AccessToken pair) (AccessClaimsOf (access_claims_for L (refresh_jwtManager h) (later 4 clk) uname
        (newRefreshClaims L (refresh_jwtManager h) (later 2 clk) (Subject (rf_Registered r)) (rf_DeviceID r) (rf_Generation r + 1)))) key"
proof -
  let ?m = "refresh_jwtManager h"
  obtain cl d1 uname d2 r' d3 where v: "VerifyRefresh L ?m (clk 0) s d = ((cl, None), d1)"
    and u: "GetUsername UDB (Subject (rf_Registered cl)) d1 = (Inr uname, d2)"
    and rr: "RotateRefresh L ?m (later 1 clk) s d2 = ((Inr (RefreshToken pair), r'), d3)"
    and ga: "GenerateAccess L ?m (later 4 clk) (RefreshToken pair) uname d3 = (Inr (AccessToken pair), d')"
    using rotate_success_shape [OF rot] h(2) by metis
  obtain c res where vt: "verifyToken L ?m (clk 0) s (RefreshClaimsOf zero_refresh) d = ((c, res), d1)"
    using v by (auto simp: VerifyRefresh_def split: prod.splits sum.splits)
  have cl: "cl = r" using VerifyRefresh_sound [OF L v] r by (auto simp: carries_def)
  note k1 = verify_keeps [OF h(1) d(1) vt]
  then have k2: "store_invar d2 \<and> dev d2 = dev d \<and> named d2 = named d \<and> up d2"
    using name_state [OF _ u] d(2) by auto
  obtain n where "r' = newRefreshClaims L ?m (later 1 (later 1 clk)) (Subject (rf_Registered r)) (rf_DeviceID r) n"
    using rotate_parsed [OF L rr r] by blast
  moreover have "later 1 (later 1 clk) = later 2 clk" by (simp add: later_def fun_eq_iff)
  ultimately have r': "r' = newRefreshClaims L ?m (later 2 clk) (Subject (rf_Registered r)) (rf_DeviceID r) n" by simp
  then have dev_r': "rf_DeviceID r' = rf_DeviceID r" by (simp add: newRefreshClaims_def)
  then have nm2: "named d2 (rf_DeviceID r')" using k2 nm by simp
  obtain r0 key where old: "carries L s (RefreshClaimsOf r0) key" and new: "carries L (RefreshToken pair) (RefreshClaimsOf r') key"
    and f: "rf_Generation r' = rf_Generation r0 + 1"
    and dv: "dev d2 (rf_DeviceID r0) = Some (key, rf_Generation r0)" "dev d3 = (dev d2)(rf_DeviceID r0 \<mapsto> (key, rf_Generation r0 + 1))"
    and k3: "store_invar d3" "named d3 = named d2" "up d3"
    using rotate_done [OF L h(1) m _ rr nm2] k2 by blast
  have r0: "r0 = r" using old r by (auto simp: carries_def)
  with f r' have r': "r' = newRefreshClaims L ?m (later 2 clk) (Subject (rf_Registered r)) (rf_DeviceID r) (rf_Generation r + 1)"
    by (simp add: newRefreshClaims_def)
  have parse: "fst (lib_ParseUnverified L (RefreshToken pair) (RefreshClaimsOf zero_refresh)) = RefreshClaimsOf r'"
    using new by (auto simp: carries_def)
  have nm3: "named d3 (rf_DeviceID r')" using nm2 k3 by simp
  obtain key' where acc: "store_invar d'" "up d'" "dev d' = dev d3" "dev d3 (rf_DeviceID r') = Some (key', rf_Generation r')"
    "carries L (AccessToken pair) (AccessClaimsOf (access_claims_for L ?m (later 4 clk) uname r')) key'"
    using access_done [OF L h(1) m k3(1) names [rule_format, OF u] ga parse nm3] k3(3) by blast
  have "key' = key" using acc(4) dv(2) r0 dev_r' by simp
  with acc old new dv k2 r0 v u cl show ?thesis unfolding r' by auto
qed

end


context reliable_secret_cache begin

lemma rotate_owner:
  assumes L: "jwt_laws L" and m: "manager_db m = CachedDB_methods SC" and d: "cdb_invar live cache_invar d"
    and rot: "RotateRefresh L m clk s d = ((Inr s', r'), d')" and nm: "cdb_named d (rf_DeviceID r')"
  shows "cdb_owner d' = cdb_owner d"
proof -
  obtain c key d1 n where v: "verifyToken L m (clk 0) s (RefreshClaimsOf zero_refresh) d = ((c, Inr key), d1)"
    and upd: "UpdateDeviceSecret (manager_db m) (rf_DeviceID (the_refresh c)) d1 = (Inr n, d')"
    and r': "r' = newRefreshClaims L m (later 1 clk) (Subject (rf_Registered (the_refresh c))) (rf_DeviceID (the_refresh c)) n"
    using cached.rotate_shape [OF rot] by blast
  note k = sessions.verify_keeps [OF m d v]
  have "rf_DeviceID (the_refresh c) = rf_DeviceID r'" using r' by (simp add: newRefreshClaims_def)
  with k nm have "cdb_named d1 (rf_DeviceID (the_refresh c))" by simp
  from sessions.upd_owner [OF _ this upd [unfolded m]] k show ?thesis by auto
qed

end

section \<open>Properties\<close>

text \<open>
  C1. Theft of a refresh token is detected. Once a refresh token was rotated, presenting it again while its
  dates are still valid is answered with 401 and \<^verbatim>\<open>ErrTokenRevoked\<close>, and deletes the
  device session: the token the rotation had handed out, and every other token of the device, is rejected
  from then on with \<^verbatim>\<open>ErrDeviceNotFound\<close>. (In-memory cache, database reachable, device
  owned by the token's subject.)
\<close>

theorem reuse_ends_session:
  assumes "jwt_laws L" and "manager_db (refresh_jwtManager h) = CachedDB_methods memory_SecretCache"
    and "config_encodable L (refresh_jwtManager h)" and "refresh_db h = CachedDB_DB memory_SecretCache"
    and "cdb_invar memory_live memory_invar d" and "cdb_up d"
    and "RotateRefresh L (refresh_jwtManager h) clk s d = ((Inr s', r'), d1)"
    and "cdb_named d (rf_DeviceID r')" and "cdb_owner d (Subject (rf_Registered r')) (rf_DeviceID r')"
    and "fst (lib_ParseUnverified L s (RefreshClaimsOf zero_refresh)) = RefreshClaimsOf r"
    and "claims_valid (parserOptions (refresh_jwtManager h)) (clk' 0) (rf_Registered r)"
  shows "\<exists>d2. refresh_rotate L h clk' s d1 =
      ((zero_TokenPair, Some (RotateError ''Invalid session or expired refresh token'' StatusUnauthorized ErrTokenRevoked)), d2)
    \<and> cdb_dev d2 = (cdb_dev d)(rf_DeviceID r' := None)
    \<and> (\<forall>now. fst (VerifyRefresh L (refresh_jwtManager h) now s' d2) = (r', Some ErrDeviceNotFound))
    \<and> (\<forall>now t a key. carries L t (AccessClaimsOf a) key \<longrightarrow> ac_DeviceID a = rf_DeviceID r' \<longrightarrow>
         fst (VerifyAccess L (refresh_jwtManager h) now t d2) = (a, Some ErrDeviceNotFound))
    \<and> (\<forall>now t c key. carries L t (RefreshClaimsOf c) key \<longrightarrow> rf_DeviceID c = rf_DeviceID r' \<longrightarrow>
         fst (VerifyRefresh L (refresh_jwtManager h) now t d2) = (c, Some ErrDeviceNotFound))"
proof -
  let ?m = "refresh_jwtManager h" and ?k = "rf_DeviceID r'"
  obtain r0 key where old: "carries L s (RefreshClaimsOf r0) key" and new: "carries L s' (RefreshClaimsOf r') key"
    and f: "?k = rf_DeviceID r0" "Subject (rf_Registered r') = Subject (rf_Registered r0)"
    and dv: "cdb_dev d1 = (cdb_dev d)(rf_DeviceID r0 \<mapsto> (key, rf_Generation r0 + 1))"
    and d1: "cdb_invar memory_live memory_invar d1" "cdb_named d1 = cdb_named d" "cdb_up d1"
    using mem.cached.rotate_done [OF assms(1-3,5,7,8)] assms(6) by blast
  have r0: "r0 = r" using old assms(10) by (auto simp: carries_def)
  have own: "cdb_owner d1 = cdb_owner d" by (rule mem.rotate_owner [OF assms(1,2,5,7,8)])
  obtain d2 where run: "refresh_rotate L h clk' s d1 =
      ((zero_TokenPair, Some (RotateError ''Invalid session or expired refresh token'' StatusUnauthorized ErrTokenRevoked)), d2)"
    and d2: "cdb_invar memory_live memory_invar d2" "cdb_up d2" "cdb_named d2 = cdb_named d1" "cdb_dev d2 = (cdb_dev d1)(rf_DeviceID r := None)"
    using mem.handlers.rotate_reuse [OF assms(1,2,4) d1(1,3) old [unfolded r0], of "rf_Generation r0 + 1" clk'] d1 assms(8,9,11) own f dv r0
    by auto
  have gone: "cdb_dev d2 ?k = None" "cdb_named d2 ?k" using d2 f r0 d1(2) assms(8) by simp_all
  have "fst (VerifyRefresh L ?m now s' d2) = (r', Some ErrDeviceNotFound)" for now
    using mem.cached.verify_unknown_device [OF assms(1,2) d2(1,2) new _ gone(2,1), of RefreshTokenType "rf_Generation r'" "RefreshClaimsOf zero_refresh" now]
    by (auto simp: VerifyRefresh_def)
  moreover have "fst (VerifyAccess L ?m now t d2) = (a, Some ErrDeviceNotFound)"
    if "carries L t (AccessClaimsOf a) k0" "ac_DeviceID a = ?k" for now t a k0
    using mem.cached.verify_unknown_device [OF assms(1,2) d2(1,2) that(1) _ gone(2,1), of AccessTokenType "ac_Generation a" "AccessClaimsOf zero_access" now] that(2)
    by (auto simp: VerifyAccess_def)
  moreover have "fst (VerifyRefresh L ?m now t d2) = (c, Some ErrDeviceNotFound)"
    if "carries L t (RefreshClaimsOf c) k0" "rf_DeviceID c = ?k" for now t c k0
    using mem.cached.verify_unknown_device [OF assms(1,2) d2(1,2) that(1) _ gone(2,1), of RefreshTokenType "rf_Generation c" "RefreshClaimsOf zero_refresh" now] that(2)
    by (auto simp: VerifyRefresh_def)
  moreover have "cdb_dev d2 = (cdb_dev d)(?k := None)" using d2(4) dv f r0 by auto
  ultimately show ?thesis using run by blast
qed

definition demo_refresh_handler :: "'c SecretCache \<Rightarrow> ('c CachedDB) refresh_Handler" where
  "demo_refresh_handler SC = refresh_New (CachedDB_DB SC) (Store_UsersDB \<lparr>external = False, selectUsernameQuery = ''q''\<rparr>) (demo_manager SC) True"

lemma demo_handler_facts:
  "refresh_jwtManager (demo_refresh_handler SC) = demo_manager SC" "refresh_db (demo_refresh_handler SC) = CachedDB_DB SC"
  "refresh_users (demo_refresh_handler SC) = Store_UsersDB \<lparr>external = False, selectUsernameQuery = ''q''\<rparr>"
  by (simp_all add: demo_refresh_handler_def refresh_New_def)

lemma demo_parse: "fst (lib_ParseUnverified demo_lib ''r1'' (RefreshClaimsOf zero_refresh)) = RefreshClaimsOf (demo_refresh 1)"
  using demo_carries(1) by (auto simp: carries_def)

theorem reuse_ends_session_witness:
  "\<exists>d1 d2. RotateRefresh demo_lib (demo_manager memory_SecretCache) (\<lambda>_. 0) ''r1'' (NewCachedDB demo_saved demo_memory)
      = ((Inr ''r2'', demo_refresh 2), d1)
    \<and> snd (fst (refresh_rotate demo_lib (demo_refresh_handler memory_SecretCache) (\<lambda>_. 0) ''r1'' d1))
        = Some (RotateError ''Invalid session or expired refresh token'' StatusUnauthorized ErrTokenRevoked)
    \<and> snd (refresh_rotate demo_lib (demo_refresh_handler memory_SecretCache) (\<lambda>_. 0) ''r1'' d1) = d2
    \<and> fst (VerifyRefresh demo_lib (demo_manager memory_SecretCache) 0 ''r2'' d2) = (demo_refresh 2, Some ErrDeviceNotFound)"
proof -
  let ?h = "demo_refresh_handler memory_SecretCache" and ?d = "NewCachedDB demo_saved demo_memory"
  obtain d1 where rot: "RotateRefresh demo_lib (demo_manager memory_SecretCache) (\<lambda>_. 0) ''r1'' ?d = ((Inr ''r2'', demo_refresh 2), d1)"
    by (rule mem.demo_rotates [OF demo_saved_invar(1)])
  have m: "manager_db (refresh_jwtManager ?h) = CachedDB_methods memory_SecretCache" "config_encodable demo_lib (refresh_jwtManager ?h)"
    "refresh_db ?h = CachedDB_DB memory_SecretCache"
    "RotateRefresh demo_lib (refresh_jwtManager ?h) (\<lambda>_. 0) ''r1'' ?d = ((Inr ''r2'', demo_refresh 2), d1)"
    by (simp_all add: demo_handler_facts demo_manager_facts rot)
  have o: "cdb_named ?d (rf_DeviceID (demo_refresh 2))" "cdb_owner ?d (Subject (rf_Registered (demo_refresh 2))) (rf_DeviceID (demo_refresh 2))"
    using demo_saved_facts(2,4) [of demo_memory] by (simp_all add: demo_refresh_def demo_registered_def)
  have val: "claims_valid (parserOptions (refresh_jwtManager ?h)) ((\<lambda>_. 0) (0::nat)) (rf_Registered (demo_refresh 1))"
    using demo_valid_now(2) by (simp add: demo_handler_facts)
  from reuse_ends_session [OF demo_lib_laws m(1,2,3) demo_saved_invar(1) demo_saved_facts(1) m(4) o demo_parse val] rot
  show ?thesis by (auto simp: demo_handler_facts)
qed


text \<open>With the demo device, the whole rotation succeeds.\<close>

lemma verify_tables:
  assumes "manager_db m = CachedDB_methods SC" and "verifyToken L m now s target d = (x, d')"
  shows "users (cdb_db d') = users (cdb_db d) \<and> email_eq (cdb_db d') = email_eq (cdb_db d)"
proof -
  have sel: "select_secret k p = Inr (v, q') \<Longrightarrow> q' = p" for k p v q'
    by (auto simp: select_secret_def split: option.splits)
  have "users q = users p \<and> email_eq q = email_eq p" if "Database_GetDeviceSecret k p = (y, q)" for k p y q
    using that [unfolded Database_GetDeviceSecret_def]
    by (rule pg_exec_rel [where R = "\<lambda>p q. users q = users p \<and> email_eq q = email_eq p"]) (auto dest: sel)
  then have "users (cdb_db d') = users (cdb_db d) \<and> email_eq (cdb_db d') = email_eq (cdb_db d)"
    if "CachedDB_GetDeviceSecret SC k d = (y, d')" for k y
    using that by (fastforce simp: CachedDB_GetDeviceSecret_def loadSecret_def Let_def
        split: prod.splits option.splits sum.splits if_splits)
  with verifyToken_reads [OF assms(2)] show ?thesis by (auto simp: assms(1) CachedDB_methods_def)
qed

lemma demo_username:
  assumes "users (cdb_db d) = users demo_pg" and "email_eq (cdb_db d) = (=)" and "cdb_up d"
  shows "\<exists>d'. GetUsername (Store_UsersDB \<lparr>external = False, selectUsernameQuery = ''q''\<rparr>) ''a@x'' d = (Inr ''ann'', d')"
  using assms
  by (simp add: Store_UsersDB_def on_db_def Store_GetUsername_def cdb_up_def pg_exec_up select_username_def demo_pg_def)

context reliable_secret_cache begin

lemma demo_rotation:
  assumes "cdb_invar live cache_invar (NewCachedDB demo_saved c)"
  shows "\<exists>d'. refresh_rotate demo_lib (demo_refresh_handler SC) (\<lambda>_. 0) ''r1'' (NewCachedDB demo_saved c)
     = ((\<lparr>AccessToken = ''a2'', RefreshToken = ''r2''\<rparr>, None), d')"
proof -
  let ?m = "demo_manager SC" and ?d = "NewCachedDB demo_saved c"
  let ?st = "\<lparr>external = False, selectUsernameQuery = ''q''\<rparr>"
  note current = cached.verify_current [OF demo_lib_laws demo_manager_facts(1)]
  obtain d1 where v1: "verifyToken demo_lib ?m 0 ''r1'' (RefreshClaimsOf zero_refresh) ?d = ((RefreshClaimsOf (demo_refresh 1), Inr ''s1''), d1)"
    and d1: "cdb_invar live cache_invar d1" "cdb_up d1" "cdb_dev d1 = cdb_dev ?d" "cdb_named d1 = cdb_named ?d"
    by (rule demo_verify_token [OF assms])
  from verify_tables [OF demo_manager_facts(1) v1] obtain d2 where u: "GetUsername (Store_UsersDB ?st) ''a@x'' d1 = (Inr ''ann'', d2)"
    using demo_username [OF _ _ d1(2)] by (auto simp: NewCachedDB_def demo_saved_def demo_pg_def)
  from handlers.name_state [OF d1(1) u] d1 have d2: "cdb_invar live cache_invar d2" "cdb_up d2"
    "cdb_dev d2 = cdb_dev ?d" "cdb_named d2 = cdb_named ?d" by auto
  have dev2: "cdb_dev d2 ''d'' = Some (''s1'', 1)" "cdb_named d2 ''d''"
    using d2 demo_saved_facts(2,3) [of c] by simp_all
  obtain d2' where v2: "verifyToken demo_lib ?m 0 ''r1'' (RefreshClaimsOf zero_refresh) d2 = ((RefreshClaimsOf (demo_refresh 1), Inr ''s1''), d2')"
    and d2': "cdb_up d2'" "cdb_dev d2' = cdb_dev d2" "cdb_named d2' = cdb_named d2"
    by (rule current [OF d2(1,2) demo_carries(1) demo_identity(2) dev2(1) demo_identity(4) demo_valid_now(2)])
  have "fst (CachedDB_UpdateDeviceSecret SC ''d'' d2') = Inr 2"
    using d2' dev2 by (intro demo_update) (simp_all add: cdb_named_def fun_eq_iff)
  then obtain d3 where rot: "RotateRefresh demo_lib ?m (\<lambda>_. 0) ''r1'' d2 = ((Inr ''r2'', demo_refresh 2), d3)"
    using demo_rotate v2 by blast
  have nm: "cdb_named d2 (rf_DeviceID (demo_refresh 2))" using dev2 by (simp add: demo_refresh_def)
  from cached.rotate_done [OF demo_lib_laws demo_manager_facts(1,2) d2(1) rot nm] d2(2) dev2(1)
  have d3: "cdb_invar live cache_invar d3" "cdb_up d3" "cdb_dev d3 ''d'' = Some (''s1'', 2)"
    by (auto simp: demo_refresh_def)
  obtain d4 where v4: "verifyToken demo_lib ?m 0 ''r2'' (RefreshClaimsOf zero_refresh) d3 = ((RefreshClaimsOf (demo_refresh 2), Inr ''s1''), d4)"
    by (rule current [OF d3(1,2) demo_carries(2) demo_identity(2) d3(3) demo_identity(4) demo_valid_now(2)])
  have cl: "access_claims_for demo_lib ?m (\<lambda>_. 0) ''ann'' (demo_refresh 2) = demo_access 2"
    by (simp add: access_claims_for_def demo_refresh_def demo_access_def demo_registered_def demo_manager_def
        NewJWTManager_def jwt_defaultOptions_def demo_dates)
  have gen: "GenerateAccess demo_lib ?m (\<lambda>_. 0) ''r2'' ''ann'' d3 = (Inr ''a2'', d4)"
    using GenerateAccess_verified [of demo_lib ?m "\<lambda>_. 0", OF v4, of "''ann''"] by (simp add: cl demo_sign(4))
  have l: "later n (\<lambda>_. 0) = (\<lambda>_. 0)" for n by (simp add: later_def)
  have sub: "Subject (rf_Registered (demo_refresh 1)) = ''a@x''" by (simp add: demo_refresh_def demo_registered_def)
  show ?thesis
    using v1 u rot gen by (simp add: refresh_rotate_def VerifyRefresh_def demo_handler_facts l sub)
qed

end


lemma rotate_status:
  assumes "refresh_rotate L h clk s d = ((pair, Some e), d')"
  shows "\<exists>msg st err. e = RotateError msg st err \<and> st \<in> {StatusUnauthorized, StatusInternalServerError}"
  using assms by (auto simp: refresh_rotate_def split: prod.splits option.splits sum.splits if_splits)

lemma refresh_cookie:
  "\<exists>c. w_cookies (refreshtoken_SetCookie L t secure new_writer) = [c] \<and> Cookie_Name c = CookieName \<and> Cookie_Value c = t
    \<and> Cookie_HttpOnly c \<and> Cookie_Secure c = secure \<and> Cookie_SameSite c = SameSiteLaxMode \<and> Cookie_Expires c = expiryOf L t"
  by (simp add: refreshtoken_SetCookie_def http_SetCookie_def zero_Cookie_def Let_def split: option.splits)

lemma refresh_cookie_frame [simp]:
  "w_status (refreshtoken_SetCookie L t secure w) = w_status w" "w_lookup (refreshtoken_SetCookie L t secure w) = w_lookup w"
  by (simp_all add: refreshtoken_SetCookie_def Let_def)

lemma NoStoreJSON_simps [simp]:
  "w_status (NoStoreJSON ok msg code w) = (case w_status w of None \<Rightarrow> Some code | Some s \<Rightarrow> Some s)"
  "w_body (NoStoreJSON ok msg code w) = Some (JsonBody ok msg)" "w_cookies (NoStoreJSON ok msg code w) = w_cookies w"
  "w_status w = None \<Longrightarrow> w_lookup (NoStoreJSON ok msg code w) ''Cache-Control'' = Some ''no-store''"
  by (simp_all add: NoStoreJSON_def)

lemma refresh_failed:
  assumes "FromRequest r = Inr t"
    and "flight_Do T sum256 lock (refresh_flightKeyPrefix @ t) [] (refresh_rotate L h clk t) g d = ((x, Some e), g1, d1)"
    and "group g = (\<lambda>_. None)" and "refresh_Refresh L T sum256 lock h clk r new_writer g d = (w, g', d')"
  shows "w_cookies w = [] \<and> (\<exists>m. w_body w = Some (JsonBody False (MsgText m)))
    \<and> (w_status w = Some StatusUnauthorized \<and> w_lookup w ''WWW-Authenticate'' = Some InvalidTokenChallenge
      \<or> w_status w = Some StatusInternalServerError)"
proof -
  from flight_error [OF assms(3,2)] rotate_status obtain m st err
    where e: "e = RotateError m st err" "st \<in> {StatusUnauthorized, StatusInternalServerError}" by metis
  let ?w = "if st = StatusUnauthorized then SetAuthError err (header_Set ''WWW-Authenticate'' InvalidTokenChallenge new_writer) else new_writer"
  have "w = response_JSON False (MsgText m) st ?w"
    using assms(1,2,4) e(1) by (auto simp: refresh_Refresh_def Let_def)
  with e(2) show ?thesis by (auto simp: AuthErrorHeader_def)
qed

text \<open>
  C14. \<^verbatim>\<open>/refresh\<close> gives out tokens only on success. The answer is either 200, with the new tokens in the body, the
  new refresh token in an \<^verbatim>\<open>HttpOnly\<close>, \<^verbatim>\<open>SameSite=Lax\<close> cookie that is \<^verbatim>\<open>Secure\<close> as configured and
  expires with the token, and \<^verbatim>\<open>Cache-Control: no-store\<close>; or it is 401 with a challenge or
  500, with no cookie and no token in the body. This holds with results kept in memory and in Redis.
\<close>

theorem Refresh_response:
  assumes "refresh_Refresh L T sum256 lock h clk r new_writer g d = (w, g', d')" and "group g = (\<lambda>_. None)"
  shows "(w_status w = Some StatusOK \<and> (\<exists>pair c. w_body w = Some (JsonBody True (MsgTokens pair)) \<and> w_cookies w = [c]
        \<and> Cookie_Name c = CookieName \<and> Cookie_Value c = RefreshToken pair \<and> Cookie_HttpOnly c
        \<and> Cookie_Secure c = refresh_secureCookie h \<and> Cookie_SameSite c = SameSiteLaxMode
        \<and> Cookie_Expires c = expiryOf L (RefreshToken pair))
      \<and> w_lookup w ''Cache-Control'' = Some ''no-store'')
    \<or> ((w_status w = Some StatusUnauthorized \<and> w_lookup w ''WWW-Authenticate'' \<noteq> None \<or> w_status w = Some StatusInternalServerError)
      \<and> w_cookies w = [] \<and> (\<exists>m. w_body w = Some (JsonBody False (MsgText m))))"
proof (cases "FromRequest r")
  case (Inl e)
  with assms(1) show ?thesis by (auto simp: refresh_Refresh_def Unauthorized_def)
next
  case (Inr t)
  obtain x e g1 d1 where run: "flight_Do T sum256 lock (refresh_flightKeyPrefix @ t) [] (refresh_rotate L h clk t) g d = ((x, e), g1, d1)"
    by (metis prod.collapse)
  show ?thesis
  proof (cases e)
    case None
    with Inr run assms(1) have w: "w = NoStoreJSON True (MsgTokens x) StatusOK (refreshtoken_SetCookie L (RefreshToken x) (refresh_secureCookie h) new_writer)"
      by (auto simp: refresh_Refresh_def)
    show ?thesis using refresh_cookie [of L "RefreshToken x" "refresh_secureCookie h"] by (intro disjI1) (auto simp: w)
  next
    case (Some err)
    from refresh_failed [OF Inr run [unfolded this] assms(2,1)] show ?thesis by (intro disjI2) auto
  qed
qed

text \<open>A JSON-like encoding of token pairs for the witnesses: the first text's length in unary, then both texts.\<close>

definition pair_result :: "(TokenPair, TokenPair) result_type" where
  "pair_result = \<lparr>zero_result = zero_TokenPair, to_any = id, from_any = Some,
     json_Marshal = (\<lambda>p. Inr (replicate (length (AccessToken p)) CHR ''1'' @ CHR ''0'' # AccessToken p @ RefreshToken p)),
     json_Unmarshal = (\<lambda>raw. let n = length (takeWhile (\<lambda>c. c = CHR ''1'') raw); rest = drop (Suc n) raw
       in Inr \<lparr>AccessToken = take n rest, RefreshToken = drop n rest\<rparr>)\<rparr>"

lemma takeWhile_unary: "takeWhile (\<lambda>c. c = x) (replicate n x @ y # ys) = replicate n x" if "y \<noteq> x"
  using that by (induction n) auto

lemma pair_result_ok: "result_type_ok pair_result"
  by (auto simp: result_type_ok_def pair_result_def takeWhile_unary Let_def)

definition pair_group :: "(string \<rightharpoonup> string, (string \<times> TokenPair) list, TokenPair) Group" where
  "pair_group = \<lparr>group = (\<lambda>_. None), redis = None, memory = Some \<lparr>otter_methods = map_otter zero_TokenPair, otter_state = []\<rparr>\<rparr>"

definition demo_request :: Request where
  "demo_request = \<lparr>r_Cookies = [(CookieName, ''r1'')], r_Header = [], r_Body = Inl ErrNoRows, r_Query = [], r_UserAgent = ''''\<rparr>"

abbreviation demo_Refresh where
  "demo_Refresh g d \<equiv> refresh_Refresh demo_lib pair_result id free_locker (demo_refresh_handler redis_SecretCache) (\<lambda>_. 0)
     demo_request new_writer g d"

lemma demo_Refresh_succeeds:
  "\<exists>w g' d'. demo_Refresh pair_group (NewCachedDB demo_saved demo_redis) = (w, g', d') \<and> w_status w = Some StatusOK"
proof -
  obtain d' where "refresh_rotate demo_lib (demo_refresh_handler redis_SecretCache) (\<lambda>_. 0) ''r1'' (NewCachedDB demo_saved demo_redis)
     = ((\<lparr>AccessToken = ''a2'', RefreshToken = ''r2''\<rparr>, None), d')" using red_up.demo_rotation [OF demo_saved_invar(2)] by blast
  then show ?thesis
    by (simp add: refresh_Refresh_def FromRequest_def demo_request_def flight_Do_def doLocal_def pair_group_def
        cache_GetIfPresent_def map_otter_def)
qed

theorem Refresh_response_witness:
  "\<exists>w g' d' c. demo_Refresh pair_group (NewCachedDB demo_saved demo_redis) = (w, g', d') \<and> w_cookies w = [c] \<and> Cookie_HttpOnly c"
proof -
  obtain w g' d' where run: "demo_Refresh pair_group (NewCachedDB demo_saved demo_redis) = (w, g', d')" and "w_status w = Some StatusOK"
    using demo_Refresh_succeeds by blast
  with Refresh_response [OF run] show ?thesis by (auto simp: pair_group_def status_codes)
qed

text \<open>Further requests to \<^verbatim>\<open>/refresh\<close>, one after the other, each with its locker, the clock and the request.\<close>

fun refresh_requests ::
  "jwt_lib \<Rightarrow> (TokenPair, 'a) result_type \<Rightarrow> (string \<Rightarrow> string) \<Rightarrow> 'd refresh_Handler \<Rightarrow> (('r, 'd) locker \<times> clock \<times> Request) list
    \<Rightarrow> ('r, 'm, 'a) Group \<Rightarrow> 'd \<Rightarrow> ('r, 'm, 'a) Group \<times> 'd" where
  "refresh_requests L T sum256 h [] g d = (g, d)"
| "refresh_requests L T sum256 h ((lock, clk, r) # rs) g d =
     (case refresh_Refresh L T sum256 lock h clk r new_writer g d of (_, g1, d1) \<Rightarrow> refresh_requests L T sum256 h rs g1 d1)"

lemma refresh_group:
  assumes "cache_retains zero (the (memory g))" and "redis g = None" and "group g = (\<lambda>_. None)"
    and "refresh_Refresh L T sum256 lock h clk r w0 g d = (w, g1, d1)"
  shows "cache_retains zero (the (memory g1)) \<and> redis g1 = None \<and> group g1 = (\<lambda>_. None)
    \<and> (\<forall>j v t. cache_contents (the (memory g)) j = Some v \<longrightarrow> from_any T v = Some t \<longrightarrow> cache_contents (the (memory g1)) j = Some v)"
proof (cases "FromRequest r")
  case (Inr t)
  obtain res g0 d0 where run: "flight_Do T sum256 lock (refresh_flightKeyPrefix @ t) [] (refresh_rotate L h clk t) g d = (res, g0, d0)"
    by (metis prod.collapse)
  with Inr assms(4) have "g1 = g0"
    by (cases res; cases "snd res") (auto simp: refresh_Refresh_def Let_def split: option.splits)
  with flight_keeps [OF assms(1-3) run] show ?thesis by simp
qed (use assms in \<open>simp add: refresh_Refresh_def\<close>)

lemma requests_group:
  assumes "cache_retains zero (the (memory g))" and "redis g = None" and "group g = (\<lambda>_. None)"
    and "refresh_requests L T sum256 h rs g d = (g1, d1)"
  shows "cache_retains zero (the (memory g1)) \<and> redis g1 = None \<and> group g1 = (\<lambda>_. None)
    \<and> (\<forall>j v t. cache_contents (the (memory g)) j = Some v \<longrightarrow> from_any T v = Some t \<longrightarrow> cache_contents (the (memory g1)) j = Some v)"
  using assms
proof (induction rs arbitrary: g d)
  case (Cons a rs)
  obtain lock clk r where a: "a = (lock, clk, r)" by (rule prod_cases3)
  obtain w g0 d0 where run: "refresh_Refresh L T sum256 lock h clk r new_writer g d = (w, g0, d0)" by (metis prod.collapse)
  note k = refresh_group [OF Cons.prems(1-3) run]
  then have "refresh_requests L T sum256 h rs g0 d0 = (g1, d1)" using Cons.prems(4) by (simp add: a run)
  from Cons.IH [OF _ _ _ this] k show ?case by simp
qed simp

text \<open>
  C13. A retried rotation is harmless. In memory mode (no Redis for the flight group), and as long as the cache keeps the result,
  which the code asks it to do for 30 seconds: once \<^verbatim>\<open>/refresh\<close> answered 200 to a refresh token, every later request with the
  same token gets the same answer, headers and cookie included, however many requests with this or other tokens came in
  between and whatever they were answered; and neither the database nor the device cache is touched by it, so the retry is not taken for
  the reuse of a revoked token.
\<close>

theorem Refresh_retry_is_idempotent:
  assumes "result_type_ok T" and "cache_retains zero (the (memory g))" and "redis g = None" and "group g = (\<lambda>_. None)"
    and "FromRequest r = Inr t" and "FromRequest r2 = Inr t"
    and "refresh_Refresh L T sum256 lock h clk r new_writer g d = (w, g1, d1)" and "w_status w = Some StatusOK"
    and "refresh_requests L T sum256 h between g1 d1 = (g2, d2)"
  shows "\<exists>g3. refresh_Refresh L T sum256 lock2 h clk2 r2 new_writer g2 d3 = (w, g3, d3)"
proof -
  let ?k = "refresh_flightKeyPrefix @ t"
  obtain x e g0 d0 where run: "flight_Do T sum256 lock ?k [] (refresh_rotate L h clk t) g d = ((x, e), g0, d0)"
    by (metis prod.collapse)
  have "e = None"
  proof (rule ccontr)
    assume "e \<noteq> None"
    then obtain err where "e = Some err" by blast
    from refresh_failed [OF assms(5) run [unfolded this] assms(4,7)] assms(8) show False by (auto simp: status_codes)
  qed
  with run have run': "flight_Do T sum256 lock ?k [] (refresh_rotate L h clk t) g d = ((x, None), g0, d0)" by simp
  with assms(5,7) have w: "w = NoStoreJSON True (MsgTokens x) StatusOK (refreshtoken_SetCookie L (RefreshToken x) (refresh_secureCookie h) new_writer)"
    and g1: "g1 = g0" by (auto simp: refresh_Refresh_def)
  from run' assms(3,4) obtain m1 where m1: "doLocal T ?k (refresh_rotate L h clk t) (the (memory g)) d = ((x, None), m1, d0)" "g1 = g\<lparr>memory := Some m1\<rparr>"
    by (auto simp: flight_Do_def g1 split: prod.splits)
  from doLocal_success [OF assms(1,2) m1(1)] obtain v where v: "cache_contents m1 ?k = Some v" "from_any T v = Some x" by blast
  have "cache_retains zero (the (memory g2)) \<and> redis g2 = None \<and> group g2 = (\<lambda>_. None) \<and> cache_contents (the (memory g2)) ?k = Some v"
    using requests_group [OF _ _ _ assms(9)] refresh_group [OF assms(2-4,7)] v m1(2) by (metis Group.select_convs(3) Group.surjective
        Group.update_convs(3) option.sel)
  then obtain g3 where "flight_Do T sum256 lock2 ?k [] (refresh_rotate L h clk2 t) g2 d3 = ((x, None), g3, d3)"
    using flight_hit v(2) by metis
  with assms(6) show ?thesis by (simp add: refresh_Refresh_def w)
qed

theorem Refresh_retry_is_idempotent_witness:
  "\<exists>w g1 d1 g2 d2 g3. demo_Refresh pair_group (NewCachedDB demo_saved demo_redis) = (w, g1, d1)
    \<and> refresh_requests demo_lib pair_result id (demo_refresh_handler redis_SecretCache) [(free_locker, \<lambda>_. Hour, demo_request)] g1 d1 = (g2, d2)
    \<and> demo_Refresh g2 d2 = (w, g3, d2)"
proof -
  obtain w g1 d1 where run: "demo_Refresh pair_group (NewCachedDB demo_saved demo_redis) = (w, g1, d1)" "w_status w = Some StatusOK"
    using demo_Refresh_succeeds by blast
  have g: "cache_retains zero_TokenPair (the (memory pair_group))" "redis pair_group = None" "group pair_group = (\<lambda>_. None)"
    by (simp_all add: pair_group_def cache_retains_def map_otter_retains)
  have r: "FromRequest demo_request = Inr ''r1''" by (simp add: FromRequest_def demo_request_def)
  obtain g2 d2 where more: "refresh_requests demo_lib pair_result id (demo_refresh_handler redis_SecretCache)
      [(free_locker, \<lambda>_. Hour, demo_request)] g1 d1 = (g2, d2)" by (metis prod.collapse)
  from Refresh_retry_is_idempotent [OF pair_result_ok g r r run more, of free_locker "\<lambda>_. 0" d2] run more show ?thesis by blast
qed

end
