(* ===== verification/State_Cache.thy ===== *)
theory State_Cache
  imports Memory_Cache Redis_Client
begin

text \<open>
  Package \<^verbatim>\<open>server/internal/cache/state\<close>: the verifiers of pending logins, by their state parameter. The
  interface \<^verbatim>\<open>Cache\<close> is a record of methods, implemented in memory and in Redis. The locale
  \<open>one_time_cache\<close> is its contract: an entry can be taken once.
\<close>

record 's state_Cache =
  state_Set :: "string \<Rightarrow> string \<Rightarrow> 's \<Rightarrow> go_error option \<times> 's"
  state_Take :: "string \<Rightarrow> 's \<Rightarrow> (go_error + string) \<times> 's"

record state_config =
  TTL :: duration
  MaximumSize :: int

definition WithTTL :: "duration \<Rightarrow> state_config \<Rightarrow> state_config" where
  "WithTTL ttl c = c\<lparr>TTL := ttl\<rparr>"

definition WithMaximumSize :: "int \<Rightarrow> state_config \<Rightarrow> state_config" where
  "WithMaximumSize maxSize c = c\<lparr>MaximumSize := maxSize\<rparr>"

section \<open>In memory\<close>

record 'm memoryCache =
  verifiers :: "('m, string) otter_cache"

definition newMemoryCache ::
  "(int \<Rightarrow> (string \<Rightarrow> duration) \<Rightarrow> go_error + ('m, string) otter_cache) \<Rightarrow> int \<Rightarrow> duration \<Rightarrow> go_error + 'm memoryCache" where
  "newMemoryCache otter_New maximumSize ttl =
     (case NewMemoryCache otter_New maximumSize (Some (\<lambda>_. ttl)) of Inl err \<Rightarrow> Inl err | Inr c \<Rightarrow> Inr \<lparr>verifiers = c\<rparr>)"

text \<open>The callback of \<^verbatim>\<open>Take\<close> records the old value, which \<open>cache_Compute\<close> returns, and invalidates the entry.\<close>

definition memoryCache_Take :: "string \<Rightarrow> 'm memoryCache \<Rightarrow> (go_error + string) \<times> 'm memoryCache" where
  "memoryCache_Take key m =
     (case cache_Compute (verifiers m) key (\<lambda>oldValue found. ('''', InvalidateOp)) of
        ((verifier, _), c) \<Rightarrow> (Inr verifier, m\<lparr>verifiers := c\<rparr>))"

definition memoryCache_Set :: "string \<Rightarrow> string \<Rightarrow> 'm memoryCache \<Rightarrow> go_error option \<times> 'm memoryCache" where
  "memoryCache_Set key verifier m = (None, m\<lparr>verifiers := cache_Set (verifiers m) key verifier\<rparr>)"

definition memory_states :: "('m memoryCache) state_Cache" where
  "memory_states = \<lparr>state_Set = memoryCache_Set, state_Take = memoryCache_Take\<rparr>"

section \<open>In Redis\<close>

definition redisKeyPrefix :: string where
  "redisKeyPrefix = ''oauth2:state:''"

record 'r redisCache =
  state_client :: "'r RedisClient"
  state_ttl :: duration

definition newRedisCache :: "'r RedisClient \<Rightarrow> duration \<Rightarrow> 'r redisCache" where
  "newRedisCache c ttl = \<lparr>state_client = c, state_ttl = ttl\<rparr>"

definition redisCache_Take :: "string \<Rightarrow> 'r redisCache \<Rightarrow> (go_error + string) \<times> 'r redisCache" where
  "redisCache_Take st r =
     (case RedisClient_GetDel (state_client r) (redisKeyPrefix @ st) of
        (rep, c) \<Rightarrow>
          ((case reply_ToString rep of
              Inl err \<Rightarrow> if IsRedisNil err then Inr '''' else Inl (Wrapped ''redis getdel failed'' err)
            | Inr val \<Rightarrow> Inr val), r\<lparr>state_client := c\<rparr>))"

definition redisCache_Set :: "string \<Rightarrow> string \<Rightarrow> 'r redisCache \<Rightarrow> go_error option \<times> 'r redisCache" where
  "redisCache_Set st verifier r =
     (case RedisClient_Set (state_client r) (redisKeyPrefix @ st) verifier (state_ttl r) of
        (err, c) \<Rightarrow> (err, r\<lparr>state_client := c\<rparr>))"

definition redis_states :: "('r redisCache) state_Cache" where
  "redis_states = \<lparr>state_Set = redisCache_Set, state_Take = redisCache_Take\<rparr>"

definition state_NewCache ::
  "(int \<Rightarrow> (string \<Rightarrow> duration) \<Rightarrow> go_error + ('m, string) otter_cache) \<Rightarrow> 'r RedisClient option
    \<Rightarrow> (state_config \<Rightarrow> state_config) list \<Rightarrow> go_error + ('m memoryCache + 'r redisCache)" where
  "state_NewCache otter_New c opts =
     (let cfg = fold (\<lambda>opt c. opt c) opts \<lparr>TTL = 10 * Minute, MaximumSize = 100000\<rparr>
      in case c of
        None \<Rightarrow> (case newMemoryCache otter_New (MaximumSize cfg) (TTL cfg) of Inl err \<Rightarrow> Inl err | Inr m \<Rightarrow> Inr (Inl m))
      | Some client \<Rightarrow> Inr (Inr (newRedisCache client (TTL cfg))))"

section \<open>The contract\<close>

text \<open>\<open>held\<close> names the verifiers a later \<^verbatim>\<open>Take\<close> may return; entries may vanish at any time.\<close>

locale one_time_cache =
  fixes ST :: "'s state_Cache"
    and held :: "'s \<Rightarrow> string \<rightharpoonup> string"
    and state_invar :: "'s \<Rightarrow> bool"
  assumes take_known: "state_invar s \<Longrightarrow> state_Take ST k s = (Inr v, s') \<Longrightarrow> v \<noteq> '''' \<Longrightarrow> held s k = Some v"
    and take_removes: "state_invar s \<Longrightarrow> state_Take ST k s = (Inr v, s') \<Longrightarrow> held s' \<subseteq>\<^sub>m (held s)(k := None)"
    and take_failed: "state_invar s \<Longrightarrow> state_Take ST k s = (Inl e, s') \<Longrightarrow> held s' \<subseteq>\<^sub>m held s"
    and take_invar: "state_invar s \<Longrightarrow> state_Take ST k s = (x, s') \<Longrightarrow> state_invar s'"
    and set_adds: "state_invar s \<Longrightarrow> state_Set ST k v s = (z, s') \<Longrightarrow> held s' j = Some y \<Longrightarrow> held s j = Some y \<or> j = k \<and> y = v"
    and set_invar: "state_invar s \<Longrightarrow> state_Set ST k v s = (z, s') \<Longrightarrow> state_invar s'"

text \<open>The requests that reach the cache, one after another.\<close>

datatype state_op = OpSet string string | OpTake string

fun run_states :: "'s state_Cache \<Rightarrow> state_op list \<Rightarrow> 's \<Rightarrow> 's" where
  "run_states ST [] s = s"
| "run_states ST (OpSet k v # ops) s = run_states ST ops (snd (state_Set ST k v s))"
| "run_states ST (OpTake k # ops) s = run_states ST ops (snd (state_Take ST k s))"

fun sets_key :: "string \<Rightarrow> state_op \<Rightarrow> bool" where
  "sets_key k (OpSet j v) = (j = k)"
| "sets_key k (OpTake j) = False"

context one_time_cache begin

lemma run_states_gone:
  assumes "state_invar s" and "held s k = None" and "list_all (\<lambda>op. \<not> sets_key k op) ops"
  shows "state_invar (run_states ST ops s) \<and> held (run_states ST ops s) k = None"
  using assms
proof (induction ops arbitrary: s)
  case (Cons op ops)
  show ?case
  proof (cases op)
    case (OpSet j v)
    obtain e s' where run: "state_Set ST j v s = (e, s')" by fastforce
    have "j \<noteq> k" using Cons.prems(3) OpSet by simp
    then have "held s' k = None" using set_adds [OF Cons.prems(1) run, of k] Cons.prems(2) by (cases "held s' k") auto
    with Cons.IH [OF set_invar [OF Cons.prems(1) run]] Cons.prems(3) OpSet run show ?thesis by simp
  next
    case (OpTake j)
    obtain x s' where run: "state_Take ST j s = (x, s')" by fastforce
    have "held s' \<subseteq>\<^sub>m (held s)(j := None) \<or> held s' \<subseteq>\<^sub>m held s"
      using take_removes [OF Cons.prems(1)] take_failed [OF Cons.prems(1)] run by (cases x) auto
    then have "held s' k = None"
    proof
      assume "held s' \<subseteq>\<^sub>m (held s)(j := None)"
      then show ?thesis by (rule map_le_emptied) (simp add: Cons.prems(2))
    next
      assume "held s' \<subseteq>\<^sub>m held s"
      then show ?thesis by (rule map_le_emptied) (rule Cons.prems(2))
    qed
    with Cons.IH [OF take_invar [OF Cons.prems(1) run]] Cons.prems(3) OpTake run show ?thesis by simp
  qed
qed simp

lemma taken_once:
  assumes "state_invar s" and "state_Take ST k s = (Inr v, s')" and "list_all (\<lambda>op. \<not> sets_key k op) ops"
    and "state_Take ST k (run_states ST ops s') = (Inr v', s'')"
  shows "v' = ''''"
proof -
  have inv: "state_invar s'" by (rule take_invar [OF assms(1,2)])
  have "held s' k = None"
    by (rule map_le_emptied [OF take_removes [OF assms(1,2)]]) simp
  from run_states_gone [OF inv this assms(3)] take_known [OF _ assms(4)] show ?thesis by auto
qed

end

section \<open>Both implementations keep it\<close>

definition memory_held :: "'m memoryCache \<Rightarrow> string \<rightharpoonup> string" where
  "memory_held m = cache_contents (verifiers m)"

definition memory_states_ok :: "'m memoryCache \<Rightarrow> bool" where
  "memory_states_ok m \<longleftrightarrow> cache_ok '''' (verifiers m)"

lemma memory_Take_law:
  assumes "memory_states_ok m" and "memoryCache_Take k m = (x, m')"
  shows "memory_states_ok m' \<and> memory_held m' \<subseteq>\<^sub>m (memory_held m)(k := None)
    \<and> (\<exists>v. x = Inr v \<and> (v \<noteq> '''' \<longrightarrow> memory_held m k = Some v))"
proof -
  obtain old found c where run: "cache_Compute (verifiers m) k (\<lambda>_ _. ('''', InvalidateOp)) = ((old, found), c)"
    by (metis prod.collapse)
  with assms(2) have x: "x = Inr old" "m' = m\<lparr>verifiers := c\<rparr>" by (auto simp: memoryCache_Take_def)
  from cache_Compute_law [OF assms(1) [unfolded memory_states_ok_def] run] obtain base where base: "base \<subseteq>\<^sub>m cache_contents (verifiers m)"
    and old: "if found then base k = Some old else base k = None \<and> old = ''''"
    and eff: "cache_contents c \<subseteq>\<^sub>m base(k := None)" and ok: "cache_ok '''' c"
    by (auto simp: compute_effect_def)
  have "cache_contents c \<subseteq>\<^sub>m (cache_contents (verifiers m))(k := None)"
    by (rule map_leI) (use map_le_delD [OF eff] map_le_lookup [OF base] in auto)
  moreover have "old \<noteq> '''' \<longrightarrow> cache_contents (verifiers m) k = Some old"
    using old map_le_lookup [OF base] by (auto split: if_splits)
  ultimately show ?thesis using ok x by (auto simp: memory_states_ok_def memory_held_def)
qed

interpretation mem_states: one_time_cache memory_states memory_held memory_states_ok
proof (unfold_locales, goal_cases)
  case (1 s k v s') then show ?case using memory_Take_law [of s k "Inr v" s'] by (auto simp: memory_states_def)
next
  case (2 s k v s') then show ?case using memory_Take_law [of s k "Inr v" s'] by (auto simp: memory_states_def)
next
  case (3 s k e s') then show ?case using memory_Take_law [of s k "Inl e" s'] by (auto simp: memory_states_def)
next
  case (4 s k x s') then show ?case using memory_Take_law [of s k x s'] by (auto simp: memory_states_def)
next
  case (5 s k v e s' j x)
  have "cache_contents (cache_Set (verifiers s) k v) \<subseteq>\<^sub>m (cache_contents (verifiers s))(k \<mapsto> v)"
    using cache_Set_law [OF 5(1) [unfolded memory_states_ok_def]] by blast
  from map_le_updD [OF this, of j x] 5 show ?case by (auto simp: memory_states_def memoryCache_Set_def memory_held_def)
next
  case (6 s k v e s')
  then show ?case using cache_Set_law [of "''''" "verifiers s" k v]
    by (auto simp: memory_states_def memoryCache_Set_def memory_states_ok_def)
qed

definition redis_held :: "'r redisCache \<Rightarrow> string \<rightharpoonup> string" where
  "redis_held r k = client_keys (state_client r) (redisKeyPrefix @ k)"

definition redis_states_ok :: "'r redisCache \<Rightarrow> bool" where
  "redis_states_ok r \<longleftrightarrow> redis_laws (state_client r)"

lemma redis_Take_law:
  assumes "redis_states_ok r" and "redisCache_Take k r = (x, r')"
  shows "redis_states_ok r' \<and> redis_held r' \<subseteq>\<^sub>m redis_held r
    \<and> (\<forall>v. x = Inr v \<longrightarrow> redis_held r' \<subseteq>\<^sub>m (redis_held r)(k := None) \<and> (v \<noteq> '''' \<longrightarrow> redis_held r k = Some v))"
proof -
  let ?k = "redisKeyPrefix @ k" and ?m = "client_keys (state_client r)"
  obtain rep c where run: "client_Do (state_client r) (CmdGetdel ?k) = (rep, c)" by fastforce
  with assms(2) have x: "x = (case reply_ToString rep of Inl err \<Rightarrow> if IsRedisNil err then Inr '''' else Inl (Wrapped ''redis getdel failed'' err)
      | Inr val \<Rightarrow> Inr val)" and r': "r' = r\<lparr>state_client := c\<rparr>"
    by (auto simp: redisCache_Take_def RedisClient_GetDel_def)
  from client_Do_law [OF assms(1) [unfolded redis_states_ok_def] run] obtain base where laws: "redis_laws c" and base: "base \<subseteq>\<^sub>m ?m"
    and ran: "rep = answer_string (base ?k) \<and> client_keys c \<subseteq>\<^sub>m base(?k := None)
      \<or> (\<exists>e. rep = ReplyError e \<and> e \<noteq> RedisNil) \<and> (client_keys c \<subseteq>\<^sub>m base \<or> client_keys c \<subseteq>\<^sub>m base(?k := None))"
    by (auto simp: command_ran_def)
  have sub: "client_keys c j = Some v \<Longrightarrow> ?m j = Some v" for j v
    using ran map_le_lookup [OF base] by (auto dest: map_le_lookup split: if_splits)
  have del: "redis_held r' \<subseteq>\<^sub>m (redis_held r)(k := None)" if "client_keys c \<subseteq>\<^sub>m base(?k := None)"
    by (rule map_leI) (use map_le_delD [OF that] sub in \<open>fastforce simp: redis_held_def r'\<close>)
  have val: "redis_held r' \<subseteq>\<^sub>m (redis_held r)(k := None) \<and> (v \<noteq> '''' \<longrightarrow> redis_held r k = Some v)" if "x = Inr v" for v
  proof -
    have "rep = answer_string (base ?k) \<and> client_keys c \<subseteq>\<^sub>m base(?k := None)"
      using ran that x by (auto simp: IsRedisNil_def)
    then show ?thesis
      using that del x map_le_lookup [OF base, of ?k]
      by (auto simp: answer_string_def redis_held_def IsRedisNil_def split: option.splits)
  qed
  have "redis_held r' \<subseteq>\<^sub>m redis_held r" by (rule map_leI) (auto simp: redis_held_def r' dest: sub)
  with val laws show ?thesis by (simp add: redis_states_ok_def r')
qed

lemma redis_Set_law:
  assumes "redis_states_ok r" and "redisCache_Set k v r = (e, r')"
  shows "redis_states_ok r' \<and> (\<forall>j x. redis_held r' j = Some x \<longrightarrow> redis_held r j = Some x \<or> j = k \<and> x = v)"
proof -
  let ?k = "redisKeyPrefix @ k" and ?m = "client_keys (state_client r)"
  obtain rep c where run: "client_Do (state_client r) (CmdSetPx ?k v (state_ttl r)) = (rep, c)" by fastforce
  with assms(2) have r': "r' = r\<lparr>state_client := c\<rparr>" by (auto simp: redisCache_Set_def RedisClient_Set_def)
  from client_Do_law [OF assms(1) [unfolded redis_states_ok_def] run] obtain base where laws: "redis_laws c" and base: "base \<subseteq>\<^sub>m ?m"
    and ran: "client_keys c \<subseteq>\<^sub>m base \<or> client_keys c \<subseteq>\<^sub>m base(?k \<mapsto> v)"
    by (auto simp: command_ran_def)
  have "?m j = Some x \<or> j = ?k \<and> x = v" if "client_keys c j = Some x" for j x
    using ran that map_le_lookup [OF base, of j x] by (auto dest: map_le_lookup split: if_splits)
  with laws show ?thesis by (fastforce simp: redis_states_ok_def redis_held_def r')
qed

interpretation red_states: one_time_cache redis_states redis_held redis_states_ok
proof (unfold_locales, goal_cases)
  case (1 s k v s') then show ?case using redis_Take_law [of s k "Inr v" s'] by (auto simp: redis_states_def)
next
  case (2 s k v s') then show ?case using redis_Take_law [of s k "Inr v" s'] by (auto simp: redis_states_def)
next
  case (3 s k e s') then show ?case using redis_Take_law [of s k "Inl e" s'] by (auto simp: redis_states_def)
next
  case (4 s k x s') then show ?case using redis_Take_law [of s k x s'] by (auto simp: redis_states_def)
next
  case (5 s k v e s' j x) then show ?case using redis_Set_law [of s k v e s'] by (auto simp: redis_states_def)
next
  case (6 s k v e s') then show ?case using redis_Set_law [of s k v e s'] by (auto simp: redis_states_def)
qed

section \<open>Properties\<close>

text \<open>
  A login state can be redeemed once. After \<^verbatim>\<open>Take\<close> answered for a state, whatever other requests the cache
  serves in between, except a new \<^verbatim>\<open>Set\<close> of the same state, a further \<^verbatim>\<open>Take\<close> that answers returns
  the empty text. This holds in memory and in Redis, with commands that fail, before or after taking
  effect, and entries that expire at any time.
\<close>

theorem login_state_single_use:
  assumes "memory_states_ok m" and "state_Take memory_states k m = (Inr v, m1)"
    and "state_Take memory_states k (run_states memory_states ops m1) = (Inr v', m2)"
    and "redis_states_ok r" and "state_Take redis_states k r = (Inr u, r1)"
    and "state_Take redis_states k (run_states redis_states ops r1) = (Inr u', r2)"
    and "list_all (\<lambda>op. \<not> sets_key k op) ops"
  shows "v' = '''' \<and> u' = ''''"
  using mem_states.taken_once [OF assms(1,2,7,3)] red_states.taken_once [OF assms(4,5,7,6)] by blast

theorem login_state_single_use_witness:
  "\<exists>m1 r1 m2 r2. state_Take memory_states ''s'' \<lparr>verifiers = \<lparr>otter_methods = map_otter '''', otter_state = [(''s'', ''v'')]\<rparr>\<rparr> = (Inr ''v'', m1)
    \<and> state_Take memory_states ''s'' m1 = (Inr '''', m2)
    \<and> state_Take redis_states ''s'' (newRedisCache (map_redis [(''oauth2:state:s'', ''v'')]) Minute) = (Inr ''v'', r1)
    \<and> state_Take redis_states ''s'' r1 = (Inr '''', r2)"
proof -
  let ?m = "\<lparr>verifiers = \<lparr>otter_methods = map_otter '''', otter_state = [(''s'', ''v'')]\<rparr>\<rparr>"
  let ?r = "newRedisCache (map_redis [(''oauth2:state:s'', ''v'')]) Minute"
  obtain m1 where m1: "state_Take memory_states ''s'' ?m = (Inr ''v'', m1)"
    by (simp add: memory_states_def memoryCache_Take_def cache_Compute_def map_otter_def Let_def)
  obtain r1 where r1: "state_Take redis_states ''s'' ?r = (Inr ''v'', r1)"
    by (simp add: redis_states_def redisCache_Take_def newRedisCache_def RedisClient_GetDel_def client_Do_def map_redis_def
        redisKeyPrefix_def answer_string_def)
  have ok: "memory_states_ok ?m" "redis_states_ok ?r"
    by (simp_all add: memory_states_ok_def cache_ok_def otter_retains_laws map_otter_retains redis_states_ok_def newRedisCache_def
        redis_reliable_laws map_redis_reliable)
  obtain v' m2 where m2: "state_Take memory_states ''s'' m1 = (Inr v', m2)"
    using m1 by (auto simp: memory_states_def memoryCache_Take_def cache_Compute_def map_otter_def Let_def)
  obtain u' r2 where r2: "state_Take redis_states ''s'' r1 = (Inr u', r2)"
    using r1 by (auto simp: redis_states_def redisCache_Take_def newRedisCache_def RedisClient_GetDel_def client_Do_def map_redis_def
        redisKeyPrefix_def answer_string_def IsRedisNil_def)
  from login_state_single_use [OF ok(1) m1 _ ok(2) r1, of "[]"] m1 r1 m2 r2 show ?thesis by auto
qed

end
