(* ===== verification/Json.thy ===== *)
theory Json
  imports Go_Strings
begin

text \<open>
  Decoding JSON documents into Go values the way \<^verbatim>\<open>encoding/json/v2\<close> does, for the types the repository decodes into:
  member names are matched exactly, unknown members are ignored, an absent member or a null
  leaves the zero value, and a value of another kind is an error. Reading the text itself (syntax, UTF-8,
  duplicate names) is the parameter \<open>json_parse\<close> of the functions that use it.
\<close>

datatype json =
    JNull
  | JBool bool
  | JNumber int
  | JFraction string
  | JString string
  | JArray "json list"
  | JObject "(string \<times> json) list"

text \<open>Sequencing of results that may be errors.\<close>

definition bind_result :: "'e + 'a \<Rightarrow> ('a \<Rightarrow> 'e + 'b) \<Rightarrow> 'e + 'b" where
  "bind_result r f = (case r of Inl e \<Rightarrow> Inl e | Inr x \<Rightarrow> f x)"

lemma bind_result_simps [simp]: "bind_result (Inl e) f = Inl e" "bind_result (Inr x) f = f x"
  by (simp_all add: bind_result_def)

lemma bind_result_Inr: "bind_result r f = Inr y \<longleftrightarrow> (\<exists>x. r = Inr x \<and> f x = Inr y)"
  by (cases r) simp_all

fun map_result :: "('a \<Rightarrow> 'e + 'b) \<Rightarrow> 'a list \<Rightarrow> 'e + 'b list" where
  "map_result f [] = Inr []"
| "map_result f (x # xs) = bind_result (f x) (\<lambda>y. bind_result (map_result f xs) (\<lambda>ys. Inr (y # ys)))"

definition json_mismatch :: go_error where
  "json_mismatch = Opaque ''cannot unmarshal JSON value''"

fun json_string :: "json \<Rightarrow> go_error + string" where
  "json_string (JString s) = Inr s"
| "json_string JNull = Inr ''''"
| "json_string _ = Inl json_mismatch"

fun json_bool :: "json \<Rightarrow> go_error + bool" where
  "json_bool (JBool b) = Inr b"
| "json_bool JNull = Inr False"
| "json_bool _ = Inl json_mismatch"

fun json_int64 :: "json \<Rightarrow> go_error + int" where
  "json_int64 (JNumber n) = (if MinInt64 \<le> n \<and> n \<le> MaxInt64 then Inr n else Inl json_mismatch)"
| "json_int64 JNull = Inr 0"
| "json_int64 _ = Inl json_mismatch"

fun json_strings :: "json \<Rightarrow> go_error + string list" where
  "json_strings (JArray js) = map_result json_string js"
| "json_strings JNull = Inr []"
| "json_strings _ = Inl json_mismatch"

text \<open>The members of an object; a null leaves every field of a struct zero.\<close>

fun json_members :: "json \<Rightarrow> go_error + (string \<times> json) list" where
  "json_members (JObject ms) = Inr ms"
| "json_members JNull = Inr []"
| "json_members _ = Inl json_mismatch"

definition json_field :: "(json \<Rightarrow> go_error + 'a) \<Rightarrow> 'a \<Rightarrow> (string \<times> json) list \<Rightarrow> string \<Rightarrow> go_error + 'a" where
  "json_field dec zero ms name = (case map_of ms name of None \<Rightarrow> Inr zero | Some j \<Rightarrow> dec j)"

abbreviation string_field :: "(string \<times> json) list \<Rightarrow> string \<Rightarrow> go_error + string" where
  "string_field \<equiv> json_field json_string ''''"

abbreviation bool_field :: "(string \<times> json) list \<Rightarrow> string \<Rightarrow> go_error + bool" where
  "bool_field \<equiv> json_field json_bool False"

abbreviation int_field :: "(string \<times> json) list \<Rightarrow> string \<Rightarrow> go_error + int" where
  "int_field \<equiv> json_field json_int64 0"

end
