(* ===== verification/Providers.thy ===== *)
theory Providers
  imports Json Encodings
begin

text \<open>
  Package \<^verbatim>\<open>oauth2/providers\<close>: the identity providers, each with \<^verbatim>\<open>GetUser\<close> and \<^verbatim>\<open>Revoke\<close>. The network is the record
  \<open>net\<close>: HTTP requests of the default client, requests of the client that \<^verbatim>\<open>oauth2.Config.Client\<close> makes for a token, the methods \<^verbatim>\<open>AuthCodeURL\<close> and \<^verbatim>\<open>Exchange\<close> of that configuration, the check of
  an URL in \<^verbatim>\<open>http.NewRequest\<close>, the reading of JSON text and the check that a text is valid UTF-8, which JSON encoding needs, and the current time; requests act on the state of the remote services. The library's
  endpoints (\<^verbatim>\<open>google.Endpoint\<close> and others) are parameters. A form is kept as its list of values. The
  constructors of the built-in providers overwrite the scopes and the endpoint of the configuration they are given, which they share
  with their caller, so they return it. Contexts are not modelled, except in \<^verbatim>\<open>FetchDiscovery\<close>, where they end a loop.
\<close>

section \<open>Tokens, configuration, network\<close>

record oauth2_Token =
  oauth_AccessToken :: string
  oauth_RefreshToken :: string
  oauth_id_token :: "string option"

record oauth2_Endpoint =
  Endpoint_AuthURL :: string
  Endpoint_TokenURL :: string

record oauth2_Config =
  config_ClientID :: string
  config_ClientSecret :: string
  config_RedirectURL :: string
  config_Scopes :: "string list"
  config_Endpoint :: oauth2_Endpoint

datatype AuthCodeOption = AccessTypeOffline | SetAuthURLParam string string | S256ChallengeOption string | VerifierOption string

datatype http_payload = NoPayload | Form "(string \<times> string) list" | Document json

record http_request =
  req_Method :: string
  req_URL :: string
  req_Header :: "(string \<times> string) list"
  req_Payload :: http_payload

record http_response =
  StatusCode :: int
  resp_Body :: "go_error + string"

type_synonym 'o http_client = "http_request \<Rightarrow> 'o \<Rightarrow> (go_error + http_response) \<times> 'o"

record 'o net =
  DefaultClient :: "'o http_client"
  Config_Client :: "oauth2_Config \<Rightarrow> oauth2_Token \<Rightarrow> 'o http_client"
  Config_AuthCodeURL :: "oauth2_Config \<Rightarrow> string \<Rightarrow> AuthCodeOption list \<Rightarrow> string"
  Config_Exchange :: "oauth2_Config \<Rightarrow> string \<Rightarrow> AuthCodeOption list \<Rightarrow> 'o \<Rightarrow> (go_error + oauth2_Token) \<times> 'o"
  url_error :: "string \<Rightarrow> go_error option"
  json_parse :: "string \<Rightarrow> go_error + json"
  json_utf8 :: "string \<Rightarrow> bool"
  time_Now :: "'o \<Rightarrow> time"
  discord_Endpoint :: oauth2_Endpoint
  discord_Scopes :: "string list"
  github_Endpoint :: oauth2_Endpoint
  google_Endpoint :: oauth2_Endpoint

definition client_Get :: "'o net \<Rightarrow> 'o http_client \<Rightarrow> string \<Rightarrow> 'o \<Rightarrow> (go_error + http_response) \<times> 'o" where
  "client_Get N c url o0 =
     (case url_error N url of
        Some err \<Rightarrow> (Inl err, o0)
      | None \<Rightarrow> c \<lparr>req_Method = ''GET'', req_URL = url, req_Header = [], req_Payload = NoPayload\<rparr> o0)"

text \<open>\<^verbatim>\<open>json.UnmarshalRead\<close> of a response.\<close>

definition read_json :: "'o net \<Rightarrow> http_response \<Rightarrow> go_error + json" where
  "read_json N resp = bind_result (resp_Body resp) (json_parse N)"

section \<open>\<^verbatim>\<open>providers.go\<close>\<close>

record Userinfo =
  Userinfo_ID :: string
  Userinfo_Email :: string
  Userinfo_Name :: string

record provider_Options =
  AllowUnverifiedEmail :: bool

definition WithAllowUnverifiedEmail :: "bool \<Rightarrow> provider_Options \<Rightarrow> provider_Options" where
  "WithAllowUnverifiedEmail allowed c = c\<lparr>AllowUnverifiedEmail := allowed\<rparr>"

definition provider_newOptions :: "(provider_Options \<Rightarrow> provider_Options) list \<Rightarrow> provider_Options" where
  "provider_newOptions opts = fold (\<lambda>opt c. opt c) opts \<lparr>AllowUnverifiedEmail = False\<rparr>"

definition checkEmail :: "provider_Options \<Rightarrow> string \<Rightarrow> bool \<Rightarrow> go_error option" where
  "checkEmail c em verified =
     (if em = '''' then Some ErrMissingEmail
      else if \<not> verified \<and> \<not> AllowUnverifiedEmail c then Some ErrUnverifiedEmail
      else None)"

definition revocableToken :: "oauth2_Token \<Rightarrow> string" where
  "revocableToken tok = (if oauth_RefreshToken tok \<noteq> '''' then oauth_RefreshToken tok else oauth_AccessToken tok)"

record 'o Provider =
  provider_GetUser :: "oauth2_Token \<Rightarrow> 'o \<Rightarrow> (go_error + Userinfo) \<times> 'o"
  provider_Revoke :: "oauth2_Token \<Rightarrow> 'o \<Rightarrow> go_error option \<times> 'o"

definition DiscordName :: string where "DiscordName = ''discord''"
definition GitHubName :: string where "GitHubName = ''github''"
definition GoogleName :: string where "GoogleName = ''google''"

definition IsBuiltin :: "string \<Rightarrow> bool" where
  "IsBuiltin name = (name = DiscordName \<or> name = GitHubName \<or> name = GoogleName)"

text \<open>What the \<^verbatim>\<open>Revoke\<close> methods share: a form posted with the default client, and how they wrap its two errors.\<close>

definition post_form ::
  "'o net \<Rightarrow> (go_error \<Rightarrow> go_error) \<Rightarrow> (go_error \<Rightarrow> go_error) \<Rightarrow> string \<Rightarrow> (string \<times> string) list \<Rightarrow> 'o \<Rightarrow> (go_error + http_response) \<times> 'o" where
  "post_form N notCreated notSent url data o0 =
     (case url_error N url of
        Some err \<Rightarrow> (Inl (notCreated err), o0)
      | None \<Rightarrow>
          (case DefaultClient N \<lparr>req_Method = ''POST'', req_URL = url,
              req_Header = [(''Content-Type'', ''application/x-www-form-urlencoded'')], req_Payload = Form data\<rparr> o0 of
             (Inl err, o1) \<Rightarrow> (Inl (notSent err), o1)
           | (Inr resp, o1) \<Rightarrow> (Inr resp, o1)))"

text \<open>\<^verbatim>\<open>Request.SetBasicAuth\<close>; the header's base64 text is kept as its content.\<close>

definition basic_auth :: "string \<Rightarrow> string \<Rightarrow> string" where
  "basic_auth user password = ''Basic '' @ user @ '':'' @ password"

section \<open>\<^verbatim>\<open>generic.go\<close>\<close>

text \<open>\<^verbatim>\<open>flexibleBool\<close>: a boolean, or the text \<^verbatim>\<open>true\<close>.\<close>

definition flexibleBool_Unmarshal :: "json \<Rightarrow> go_error + bool" where
  "flexibleBool_Unmarshal j =
     (case json_bool j of
        Inr b \<Rightarrow> Inr b
      | Inl _ \<Rightarrow> bind_result (json_string j) (\<lambda>str. Inr (str = ''true'')))"

abbreviation flexible_field :: "(string \<times> json) list \<Rightarrow> string \<Rightarrow> go_error + bool" where
  "flexible_field \<equiv> json_field flexibleBool_Unmarshal False"

record GenericUser =
  generic_ID :: string
  generic_Email :: string
  generic_EmailVerified :: bool
  generic_Name :: string

definition decode_GenericUser :: "json \<Rightarrow> go_error + GenericUser" where
  "decode_GenericUser j = bind_result (json_members j) (\<lambda>ms.
     bind_result (string_field ms ''id'') (\<lambda>i. bind_result (string_field ms ''email'') (\<lambda>em.
     bind_result (flexible_field ms ''email_verified'') (\<lambda>v. bind_result (string_field ms ''name'') (\<lambda>nm.
     Inr \<lparr>generic_ID = i, generic_Email = em, generic_EmailVerified = v, generic_Name = nm\<rparr>)))))"

record GenericProvider =
  generic_config :: oauth2_Config
  generic_options :: provider_Options
  userinfoURL :: string
  revokeURL :: string

definition NewGenericProvider ::
  "oauth2_Config \<Rightarrow> string \<Rightarrow> string \<Rightarrow> (provider_Options \<Rightarrow> provider_Options) list \<Rightarrow> GenericProvider" where
  "NewGenericProvider config uURL rURL opts =
     \<lparr>generic_config = config, generic_options = provider_newOptions opts, userinfoURL = uURL, revokeURL = rURL\<rparr>"

definition generic_GetUser :: "'o net \<Rightarrow> GenericProvider \<Rightarrow> oauth2_Token \<Rightarrow> 'o \<Rightarrow> (go_error + Userinfo) \<times> 'o" where
  "generic_GetUser N p tok o0 =
     (case client_Get N (Config_Client N (generic_config p) tok) (userinfoURL p) o0 of
        (Inl err, o1) \<Rightarrow> (Inl (Wrapped ''failed to get user info'' err), o1)
      | (Inr resp, o1) \<Rightarrow>
          if StatusCode resp \<noteq> 200 then (Inl (Opaque ''provider api returned status''), o1)
          else (case bind_result (read_json N resp) decode_GenericUser of
             Inl err \<Rightarrow> (Inl (Wrapped ''failed to decode user info'' err), o1)
           | Inr user \<Rightarrow>
               (case checkEmail (generic_options p) (generic_Email user) (generic_EmailVerified user) of
                  Some err \<Rightarrow> (Inl err, o1)
                | None \<Rightarrow> (Inr \<lparr>Userinfo_ID = generic_ID user, Userinfo_Email = generic_Email user, Userinfo_Name = generic_Name user\<rparr>, o1))))"

definition generic_Revoke :: "'o net \<Rightarrow> GenericProvider \<Rightarrow> oauth2_Token \<Rightarrow> 'o \<Rightarrow> go_error option \<times> 'o" where
  "generic_Revoke N p tok o0 =
     (if revokeURL p = '''' then (Some (Opaque ''revocation URL is not configured for this provider''), o0)
      else case post_form N (Wrapped ''failed to create revoke request'') (Wrapped ''failed to send revoke request'') (revokeURL p) [(''token'', revocableToken tok), (''client_id'', config_ClientID (generic_config p)),
             (''client_secret'', config_ClientSecret (generic_config p))] o0 of
        (Inl err, o1) \<Rightarrow> (Some err, o1)
      | (Inr resp, o1) \<Rightarrow>
          if StatusCode resp < 200 \<or> StatusCode resp \<ge> 300 then (Some (Opaque ''revoke failed with status''), o1)
          else (None, o1))"

definition generic_Provider :: "'o net \<Rightarrow> GenericProvider \<Rightarrow> 'o Provider" where
  "generic_Provider N p = \<lparr>provider_GetUser = generic_GetUser N p, provider_Revoke = generic_Revoke N p\<rparr>"

section \<open>\<^verbatim>\<open>google.go\<close>\<close>

record GoogleUser =
  google_Sub :: string
  google_Email :: string
  google_EmailVerified :: bool
  google_Name :: string
  google_GivenName :: string
  google_FamilyName :: string
  google_Picture :: string
  google_Locale :: string

definition decode_GoogleUser :: "json \<Rightarrow> go_error + GoogleUser" where
  "decode_GoogleUser j = bind_result (json_members j) (\<lambda>ms.
     bind_result (string_field ms ''sub'') (\<lambda>i. bind_result (string_field ms ''email'') (\<lambda>em.
     bind_result (bool_field ms ''email_verified'') (\<lambda>v. bind_result (string_field ms ''name'') (\<lambda>nm.
     bind_result (string_field ms ''given_name'') (\<lambda>gn. bind_result (string_field ms ''family_name'') (\<lambda>fn.
     bind_result (string_field ms ''picture'') (\<lambda>pc. bind_result (string_field ms ''locale'') (\<lambda>lc.
     Inr \<lparr>google_Sub = i, google_Email = em, google_EmailVerified = v, google_Name = nm, google_GivenName = gn, google_FamilyName = fn,
       google_Picture = pc, google_Locale = lc\<rparr>)))))))))"

record GoogleProvider =
  google_config :: oauth2_Config
  google_options :: provider_Options

definition NewGoogleProvider ::
  "'o net \<Rightarrow> oauth2_Config \<Rightarrow> (provider_Options \<Rightarrow> provider_Options) list \<Rightarrow> GoogleProvider \<times> oauth2_Config" where
  "NewGoogleProvider N config opts =
     (let c = config\<lparr>config_Scopes := [''openid'', ''email'', ''profile''], config_Endpoint := google_Endpoint N\<rparr>
      in (\<lparr>google_config = c, google_options = provider_newOptions opts\<rparr>, c))"

definition google_GetUser :: "'o net \<Rightarrow> GoogleProvider \<Rightarrow> oauth2_Token \<Rightarrow> 'o \<Rightarrow> (go_error + Userinfo) \<times> 'o" where
  "google_GetUser N p tok o0 =
     (case client_Get N (Config_Client N (google_config p) tok) ''https://openidconnect.googleapis.com/v1/userinfo'' o0 of
        (Inl err, o1) \<Rightarrow> (Inl (Wrapped ''failed to get user info'' err), o1)
      | (Inr resp, o1) \<Rightarrow>
          if StatusCode resp \<noteq> 200 then (Inl (Opaque ''google api returned status''), o1)
          else (case bind_result (read_json N resp) decode_GoogleUser of
             Inl err \<Rightarrow> (Inl (Wrapped ''failed to decode user info'' err), o1)
           | Inr user \<Rightarrow>
               (case checkEmail (google_options p) (google_Email user) (google_EmailVerified user) of
                  Some err \<Rightarrow> (Inl err, o1)
                | None \<Rightarrow> (Inr \<lparr>Userinfo_ID = google_Sub user, Userinfo_Email = google_Email user, Userinfo_Name = google_Name user\<rparr>, o1))))"

definition google_Revoke :: "'o net \<Rightarrow> GoogleProvider \<Rightarrow> oauth2_Token \<Rightarrow> 'o \<Rightarrow> go_error option \<times> 'o" where
  "google_Revoke N p tok o0 =
     (case post_form N id id ''https://oauth2.googleapis.com/revoke'' [(''token'', revocableToken tok)] o0 of
        (Inl err, o1) \<Rightarrow> (Some err, o1)
      | (Inr resp, o1) \<Rightarrow> if StatusCode resp \<noteq> 200 then (Some (Opaque ''google revoke failed with status''), o1) else (None, o1))"

definition google_Provider :: "'o net \<Rightarrow> GoogleProvider \<Rightarrow> 'o Provider" where
  "google_Provider N p = \<lparr>provider_GetUser = google_GetUser N p, provider_Revoke = google_Revoke N p\<rparr>"

section \<open>\<^verbatim>\<open>github.go\<close>\<close>

record GitHubUser =
  github_ID :: int
  github_Login :: string
  github_Name :: string
  github_Email :: string

definition decode_GitHubUser :: "json \<Rightarrow> go_error + GitHubUser" where
  "decode_GitHubUser j = bind_result (json_members j) (\<lambda>ms.
     bind_result (int_field ms ''id'') (\<lambda>i. bind_result (string_field ms ''login'') (\<lambda>lg.
     bind_result (string_field ms ''name'') (\<lambda>nm. bind_result (string_field ms ''email'') (\<lambda>em.
     Inr \<lparr>github_ID = i, github_Login = lg, github_Name = nm, github_Email = em\<rparr>)))))"

record GitHubEmail =
  mail_Email :: string
  mail_Primary :: bool
  mail_Verified :: bool

definition decode_GitHubEmail :: "json \<Rightarrow> go_error + GitHubEmail" where
  "decode_GitHubEmail j = bind_result (json_members j) (\<lambda>ms.
     bind_result (string_field ms ''email'') (\<lambda>em. bind_result (bool_field ms ''primary'') (\<lambda>pr.
     bind_result (bool_field ms ''verified'') (\<lambda>v. Inr \<lparr>mail_Email = em, mail_Primary = pr, mail_Verified = v\<rparr>))))"

fun decode_GitHubEmails :: "json \<Rightarrow> go_error + GitHubEmail list" where
  "decode_GitHubEmails (JArray js) = map_result decode_GitHubEmail js"
| "decode_GitHubEmails JNull = Inr []"
| "decode_GitHubEmails _ = Inl json_mismatch"

record GitHubProvider =
  github_config :: oauth2_Config
  github_options :: provider_Options

definition NewGitHubProvider ::
  "'o net \<Rightarrow> oauth2_Config \<Rightarrow> (provider_Options \<Rightarrow> provider_Options) list \<Rightarrow> GitHubProvider \<times> oauth2_Config" where
  "NewGitHubProvider N config opts =
     (let c = config\<lparr>config_Scopes := [''read:user'', ''user:email''], config_Endpoint := github_Endpoint N\<rparr>
      in (\<lparr>github_config = c, github_options = provider_newOptions opts\<rparr>, c))"

definition github_request :: "string \<Rightarrow> http_request" where
  "github_request url = \<lparr>req_Method = ''GET'', req_URL = url, req_Header = [(''Accept'', ''application/vnd.github+json'')], req_Payload = NoPayload\<rparr>"

text \<open>The loop over the addresses of the account: the first primary one decides.\<close>

fun primaryEmail :: "provider_Options \<Rightarrow> GitHubEmail list \<Rightarrow> go_error + string" where
  "primaryEmail opts [] = Inl ErrMissingEmail"
| "primaryEmail opts (e # es) =
     (if \<not> mail_Primary e then primaryEmail opts es
      else case checkEmail opts (mail_Email e) (mail_Verified e) of Some err \<Rightarrow> Inl err | None \<Rightarrow> Inr (mail_Email e))"

definition fetchPrimaryEmail :: "'o net \<Rightarrow> GitHubProvider \<Rightarrow> 'o http_client \<Rightarrow> 'o \<Rightarrow> (go_error + string) \<times> 'o" where
  "fetchPrimaryEmail N p client o0 =
     (let url = ''https://api.github.com/user/emails''
      in case url_error N url of
        Some err \<Rightarrow> (Inl (Wrapped ''failed to create emails request'' err), o0)
      | None \<Rightarrow>
          (case client (github_request url) o0 of
             (Inl err, o1) \<Rightarrow> (Inl (Wrapped ''failed to get GitHub emails'' err), o1)
           | (Inr resp, o1) \<Rightarrow>
               if StatusCode resp \<noteq> 200 then (Inl (Opaque ''GitHub emails API returned status''), o1)
               else (case bind_result (read_json N resp) decode_GitHubEmails of
                  Inl err \<Rightarrow> (Inl (Wrapped ''failed to decode GitHub emails'' err), o1)
                | Inr emails \<Rightarrow> (primaryEmail (github_options p) emails, o1))))"

definition github_GetUser :: "'o net \<Rightarrow> GitHubProvider \<Rightarrow> oauth2_Token \<Rightarrow> 'o \<Rightarrow> (go_error + Userinfo) \<times> 'o" where
  "github_GetUser N p tok o0 =
     (let client = Config_Client N (github_config p) tok; url = ''https://api.github.com/user''
      in case url_error N url of
        Some err \<Rightarrow> (Inl (Wrapped ''failed to create user request'' err), o0)
      | None \<Rightarrow>
          (case client (github_request url) o0 of
             (Inl err, o1) \<Rightarrow> (Inl (Wrapped ''failed to get GitHub user'' err), o1)
           | (Inr resp, o1) \<Rightarrow>
               if StatusCode resp \<noteq> 200 then (Inl (Opaque ''GitHub API returned status''), o1)
               else (case bind_result (read_json N resp) decode_GitHubUser of
                  Inl err \<Rightarrow> (Inl (Wrapped ''failed to decode GitHub user'' err), o1)
                | Inr user \<Rightarrow>
                    (case (if github_Email user = '''' then fetchPrimaryEmail N p client o1 else (Inr (github_Email user), o1)) of
                       (Inl err, o2) \<Rightarrow> (Inl err, o2)
                     | (Inr em, o2) \<Rightarrow>
                         (Inr \<lparr>Userinfo_ID = strconv_Itoa (github_ID user), Userinfo_Email = em,
                            Userinfo_Name = (if github_Name user = '''' then github_Login user else github_Name user)\<rparr>, o2)))))"

definition github_Revoke :: "'o net \<Rightarrow> GitHubProvider \<Rightarrow> oauth2_Token \<Rightarrow> 'o \<Rightarrow> go_error option \<times> 'o" where
  "github_Revoke N p tok o0 =
     (let url = ''https://api.github.com/applications/'' @ config_ClientID (github_config p) @ ''/token''
      in if \<not> json_utf8 N (oauth_AccessToken tok) then (Some (Wrapped ''failed to marshal revoke body'' (Opaque ''invalid UTF-8'')), o0)
      else case url_error N url of
        Some err \<Rightarrow> (Some (Wrapped ''failed to create revoke request'' err), o0)
      | None \<Rightarrow>
          (case DefaultClient N \<lparr>req_Method = ''DELETE'', req_URL = url,
              req_Header = [(''Accept'', ''application/vnd.github+json''), (''Content-Type'', ''application/json''),
                (''Authorization'', basic_auth (config_ClientID (github_config p)) (config_ClientSecret (github_config p)))],
              req_Payload = Document (JObject [(''access_token'', JString (oauth_AccessToken tok))])\<rparr> o0 of
             (Inl err, o1) \<Rightarrow> (Some (Wrapped ''failed to send revoke request'' err), o1)
           | (Inr resp, o1) \<Rightarrow> if StatusCode resp \<noteq> 204 then (Some (Opaque ''GitHub revoke returned status''), o1) else (None, o1)))"

definition github_Provider :: "'o net \<Rightarrow> GitHubProvider \<Rightarrow> 'o Provider" where
  "github_Provider N p = \<lparr>provider_GetUser = github_GetUser N p, provider_Revoke = github_Revoke N p\<rparr>"

section \<open>\<^verbatim>\<open>discord.go\<close>\<close>

record DiscordUser =
  discord_ID :: string
  discord_Username :: string
  discord_Discriminator :: string
  discord_Avatar :: string
  discord_Bot :: bool
  discord_System :: bool
  discord_MFAEnabled :: bool
  discord_Locale :: string
  discord_Verified :: bool
  discord_Email :: string
  discord_Flags :: int
  discord_PremiumType :: int
  discord_PublicFlags :: int

definition decode_DiscordUser :: "json \<Rightarrow> go_error + DiscordUser" where
  "decode_DiscordUser j = bind_result (json_members j) (\<lambda>ms.
     bind_result (string_field ms ''id'') (\<lambda>i. bind_result (string_field ms ''username'') (\<lambda>un.
     bind_result (string_field ms ''discriminator'') (\<lambda>di. bind_result (string_field ms ''avatar'') (\<lambda>av.
     bind_result (bool_field ms ''bot'') (\<lambda>bo. bind_result (bool_field ms ''system'') (\<lambda>sy.
     bind_result (bool_field ms ''mfa_enabled'') (\<lambda>mf. bind_result (string_field ms ''locale'') (\<lambda>lc.
     bind_result (bool_field ms ''verified'') (\<lambda>v. bind_result (string_field ms ''email'') (\<lambda>em.
     bind_result (int_field ms ''flags'') (\<lambda>fl. bind_result (int_field ms ''premium_type'') (\<lambda>pt.
     bind_result (int_field ms ''public_flags'') (\<lambda>pf.
     Inr \<lparr>discord_ID = i, discord_Username = un, discord_Discriminator = di, discord_Avatar = av, discord_Bot = bo, discord_System = sy,
       discord_MFAEnabled = mf, discord_Locale = lc, discord_Verified = v, discord_Email = em, discord_Flags = fl,
       discord_PremiumType = pt, discord_PublicFlags = pf\<rparr>))))))))))))))"

record DiscordProvider =
  discord_config :: oauth2_Config
  discord_options :: provider_Options

definition NewDiscordProvider ::
  "'o net \<Rightarrow> oauth2_Config \<Rightarrow> (provider_Options \<Rightarrow> provider_Options) list \<Rightarrow> DiscordProvider \<times> oauth2_Config" where
  "NewDiscordProvider N config opts =
     (let c = config\<lparr>config_Scopes := discord_Scopes N, config_Endpoint := discord_Endpoint N\<rparr>
      in (\<lparr>discord_config = c, discord_options = provider_newOptions opts\<rparr>, c))"

definition discord_GetUser :: "'o net \<Rightarrow> DiscordProvider \<Rightarrow> oauth2_Token \<Rightarrow> 'o \<Rightarrow> (go_error + Userinfo) \<times> 'o" where
  "discord_GetUser N p tok o0 =
     (case client_Get N (Config_Client N (discord_config p) tok) ''https://discord.com/api/users/@me'' o0 of
        (Inl err, o1) \<Rightarrow> (Inl (Wrapped ''failed to get user info'' err), o1)
      | (Inr resp, o1) \<Rightarrow>
          if StatusCode resp \<noteq> 200 then (Inl (Opaque ''discord api returned status''), o1)
          else (case bind_result (read_json N resp) decode_DiscordUser of
             Inl err \<Rightarrow> (Inl (Wrapped ''failed to decode user info'' err), o1)
           | Inr user \<Rightarrow>
               (case checkEmail (discord_options p) (discord_Email user) (discord_Verified user) of
                  Some err \<Rightarrow> (Inl err, o1)
                | None \<Rightarrow> (Inr \<lparr>Userinfo_ID = discord_ID user, Userinfo_Email = discord_Email user, Userinfo_Name = discord_Username user\<rparr>, o1))))"

definition discord_Revoke :: "'o net \<Rightarrow> DiscordProvider \<Rightarrow> oauth2_Token \<Rightarrow> 'o \<Rightarrow> go_error option \<times> 'o" where
  "discord_Revoke N p tok o0 =
     (case post_form N id id ''https://discord.com/api/oauth2/token/revoke'' [(''client_id'', config_ClientID (discord_config p)),
             (''client_secret'', config_ClientSecret (discord_config p)), (''token'', oauth_AccessToken tok)] o0 of
        (Inl err, o1) \<Rightarrow> (Some err, o1)
      | (Inr resp, o1) \<Rightarrow> if StatusCode resp \<noteq> 200 then (Some (Opaque ''discord api returned status''), o1) else (None, o1))"

definition discord_Provider :: "'o net \<Rightarrow> DiscordProvider \<Rightarrow> 'o Provider" where
  "discord_Provider N p = \<lparr>provider_GetUser = discord_GetUser N p, provider_Revoke = discord_Revoke N p\<rparr>"

section \<open>Choosing a provider\<close>

definition providers_New ::
  "'o net \<Rightarrow> string \<Rightarrow> oauth2_Config \<Rightarrow> string \<Rightarrow> string \<Rightarrow> (provider_Options \<Rightarrow> provider_Options) list \<Rightarrow> 'o Provider \<times> oauth2_Config" where
  "providers_New N name config uURL rURL opts =
     (if name = DiscordName then apfst (discord_Provider N) (NewDiscordProvider N config opts)
      else if name = GitHubName then apfst (github_Provider N) (NewGitHubProvider N config opts)
      else if name = GoogleName then apfst (google_Provider N) (NewGoogleProvider N config opts)
      else (generic_Provider N (NewGenericProvider config uURL rURL opts), config))"

section \<open>The contract of a provider\<close>

text \<open>
  \<^verbatim>\<open>GetUser\<close> names a user only by an e-mail address that is not empty and, unless unverified addresses are allowed, that the provider's
  answers vouch for. What vouching means is the provider's \<open>vouched\<close>, in terms of the documents the services returned.
\<close>

locale vouching_provider =
  fixes P :: "'o Provider"
    and vouched :: "oauth2_Token \<Rightarrow> 'o \<Rightarrow> string \<Rightarrow> bool"
    and lenient :: bool
  assumes get_email: "provider_GetUser P tok o0 = (Inr u, o1) \<Longrightarrow> Userinfo_Email u \<noteq> ''''"
    and get_vouched: "provider_GetUser P tok o0 = (Inr u, o1) \<Longrightarrow> \<not> lenient \<Longrightarrow> vouched tok o0 (Userinfo_Email u)"

lemma checkEmail_None: "checkEmail c em v = None \<longleftrightarrow> em \<noteq> '''' \<and> (v \<or> AllowUnverifiedEmail c)"
  by (auto simp: checkEmail_def)

text \<open>The document a successful GET of an URL returned.\<close>

definition fetched :: "'o net \<Rightarrow> 'o http_client \<Rightarrow> http_request \<Rightarrow> (json \<Rightarrow> go_error + 'a) \<Rightarrow> 'o \<Rightarrow> 'a \<Rightarrow> bool" where
  "fetched N c req dec o0 doc \<longleftrightarrow>
     (\<exists>resp o1. c req o0 = (Inr resp, o1) \<and> StatusCode resp = 200 \<and> bind_result (read_json N resp) dec = Inr doc)"

definition plain_get :: "string \<Rightarrow> http_request" where
  "plain_get url = \<lparr>req_Method = ''GET'', req_URL = url, req_Header = [], req_Payload = NoPayload\<rparr>"

lemma client_Get_fetched:
  assumes "client_Get N c url o0 = (Inr resp, o1)" and "StatusCode resp = 200" and "bind_result (read_json N resp) dec = Inr doc"
  shows "fetched N c (plain_get url) dec o0 doc"
  using assms by (auto simp: client_Get_def fetched_def plain_get_def split: option.splits)

definition generic_vouched :: "'o net \<Rightarrow> GenericProvider \<Rightarrow> oauth2_Token \<Rightarrow> 'o \<Rightarrow> string \<Rightarrow> bool" where
  "generic_vouched N p tok o0 em \<longleftrightarrow>
     (\<exists>user. fetched N (Config_Client N (generic_config p) tok) (plain_get (userinfoURL p)) decode_GenericUser o0 user
       \<and> generic_Email user = em \<and> generic_EmailVerified user)"

definition google_vouched :: "'o net \<Rightarrow> GoogleProvider \<Rightarrow> oauth2_Token \<Rightarrow> 'o \<Rightarrow> string \<Rightarrow> bool" where
  "google_vouched N p tok o0 em \<longleftrightarrow>
     (\<exists>user. fetched N (Config_Client N (google_config p) tok) (plain_get ''https://openidconnect.googleapis.com/v1/userinfo'')
         decode_GoogleUser o0 user
       \<and> google_Email user = em \<and> google_EmailVerified user)"

definition discord_vouched :: "'o net \<Rightarrow> DiscordProvider \<Rightarrow> oauth2_Token \<Rightarrow> 'o \<Rightarrow> string \<Rightarrow> bool" where
  "discord_vouched N p tok o0 em \<longleftrightarrow>
     (\<exists>user. fetched N (Config_Client N (discord_config p) tok) (plain_get ''https://discord.com/api/users/@me'') decode_DiscordUser o0 user
       \<and> discord_Email user = em \<and> discord_Verified user)"

text \<open>GitHub: the address of the public profile, for which the code asks for no verification, or a verified primary address.\<close>

definition github_vouched :: "'o net \<Rightarrow> GitHubProvider \<Rightarrow> oauth2_Token \<Rightarrow> 'o \<Rightarrow> string \<Rightarrow> bool" where
  "github_vouched N p tok o0 em \<longleftrightarrow>
     (\<exists>user. fetched N (Config_Client N (github_config p) tok) (github_request ''https://api.github.com/user'') decode_GitHubUser o0 user
       \<and> github_Email user = em)
     \<or> (\<exists>o1 mails. fetched N (Config_Client N (github_config p) tok) (github_request ''https://api.github.com/user/emails'') decode_GitHubEmails o1 mails
       \<and> (\<exists>m\<in>set mails. mail_Email m = em \<and> mail_Primary m \<and> mail_Verified m))"

lemma generic_get:
  assumes "generic_GetUser N p tok o0 = (Inr u, o1)"
  shows "Userinfo_Email u \<noteq> '''' \<and> (generic_vouched N p tok o0 (Userinfo_Email u) \<or> AllowUnverifiedEmail (generic_options p))"
proof -
  let ?c = "Config_Client N (generic_config p) tok"
  obtain resp o1' where get: "client_Get N ?c (userinfoURL p) o0 = (Inr resp, o1')" and st: "StatusCode resp = 200"
    using assms by (auto simp: generic_GetUser_def split: prod.splits sum.splits if_splits)
  with assms obtain user where user: "bind_result (read_json N resp) decode_GenericUser = Inr user"
    by (auto simp: generic_GetUser_def split: sum.splits)
  with assms get st have "Userinfo_Email u = generic_Email user" "checkEmail (generic_options p) (generic_Email user) (generic_EmailVerified user) = None"
    by (auto simp: generic_GetUser_def split: option.splits)
  with client_Get_fetched [OF get st user] show ?thesis by (auto simp: checkEmail_None generic_vouched_def)
qed

lemma google_get:
  assumes "google_GetUser N p tok o0 = (Inr u, o1)"
  shows "Userinfo_Email u \<noteq> '''' \<and> (google_vouched N p tok o0 (Userinfo_Email u) \<or> AllowUnverifiedEmail (google_options p))"
proof -
  let ?c = "Config_Client N (google_config p) tok"
  obtain resp o1' where get: "client_Get N ?c ''https://openidconnect.googleapis.com/v1/userinfo'' o0 = (Inr resp, o1')" and st: "StatusCode resp = 200"
    using assms by (auto simp: google_GetUser_def split: prod.splits sum.splits if_splits)
  with assms obtain user where user: "bind_result (read_json N resp) decode_GoogleUser = Inr user"
    by (auto simp: google_GetUser_def split: sum.splits)
  with assms get st have "Userinfo_Email u = google_Email user" "checkEmail (google_options p) (google_Email user) (google_EmailVerified user) = None"
    by (auto simp: google_GetUser_def split: option.splits)
  with client_Get_fetched [OF get st user] show ?thesis by (auto simp: checkEmail_None google_vouched_def)
qed

lemma discord_get:
  assumes "discord_GetUser N p tok o0 = (Inr u, o1)"
  shows "Userinfo_Email u \<noteq> '''' \<and> (discord_vouched N p tok o0 (Userinfo_Email u) \<or> AllowUnverifiedEmail (discord_options p))"
proof -
  let ?c = "Config_Client N (discord_config p) tok"
  obtain resp o1' where get: "client_Get N ?c ''https://discord.com/api/users/@me'' o0 = (Inr resp, o1')" and st: "StatusCode resp = 200"
    using assms by (auto simp: discord_GetUser_def split: prod.splits sum.splits if_splits)
  with assms obtain user where user: "bind_result (read_json N resp) decode_DiscordUser = Inr user"
    by (auto simp: discord_GetUser_def split: sum.splits)
  with assms get st have "Userinfo_Email u = discord_Email user" "checkEmail (discord_options p) (discord_Email user) (discord_Verified user) = None"
    by (auto simp: discord_GetUser_def split: option.splits)
  with client_Get_fetched [OF get st user] show ?thesis by (auto simp: checkEmail_None discord_vouched_def)
qed

lemma primaryEmail_Inr:
  assumes "primaryEmail opts mails = Inr em"
  shows "em \<noteq> '''' \<and> (\<exists>m\<in>set mails. mail_Email m = em \<and> mail_Primary m \<and> (mail_Verified m \<or> AllowUnverifiedEmail opts))"
  using assms
proof (induction mails)
  case (Cons m mails)
  then show ?case
    by (auto simp: checkEmail_None split: if_splits option.splits)
qed simp

lemma fetchPrimaryEmail_Inr:
  assumes "fetchPrimaryEmail N p c o0 = (Inr em, o1)"
  shows "em \<noteq> '''' \<and> (\<exists>mails. fetched N c (github_request ''https://api.github.com/user/emails'') decode_GitHubEmails o0 mails
    \<and> (\<exists>m\<in>set mails. mail_Email m = em \<and> mail_Primary m \<and> (mail_Verified m \<or> AllowUnverifiedEmail (github_options p))))"
proof -
  obtain resp o1' where get: "c (github_request ''https://api.github.com/user/emails'') o0 = (Inr resp, o1')" and st: "StatusCode resp = 200"
    using assms by (auto simp: fetchPrimaryEmail_def Let_def split: option.splits prod.splits sum.splits if_splits)
  with assms obtain mails where mails: "bind_result (read_json N resp) decode_GitHubEmails = Inr mails"
    by (auto simp: fetchPrimaryEmail_def Let_def split: option.splits sum.splits)
  with assms get st have "primaryEmail (github_options p) mails = Inr em"
    by (auto simp: fetchPrimaryEmail_def Let_def split: option.splits)
  from primaryEmail_Inr [OF this] get st mails show ?thesis unfolding fetched_def by blast
qed

lemma github_get:
  assumes "github_GetUser N p tok o0 = (Inr u, o1)"
  shows "Userinfo_Email u \<noteq> '''' \<and> (github_vouched N p tok o0 (Userinfo_Email u) \<or> AllowUnverifiedEmail (github_options p))"
proof -
  let ?c = "Config_Client N (github_config p) tok"
  obtain resp o1' where get: "?c (github_request ''https://api.github.com/user'') o0 = (Inr resp, o1')" and st: "StatusCode resp = 200"
    using assms by (auto simp: github_GetUser_def Let_def split: option.splits prod.splits sum.splits if_splits)
  with assms obtain user where user: "bind_result (read_json N resp) decode_GitHubUser = Inr user"
    by (auto simp: github_GetUser_def Let_def split: option.splits sum.splits)
  have doc: "fetched N ?c (github_request ''https://api.github.com/user'') decode_GitHubUser o0 user"
    using get st user unfolding fetched_def by blast
  show ?thesis
  proof (cases "github_Email user = ''''")
    case True
    with assms get st user obtain em o2 where "fetchPrimaryEmail N p ?c o1' = (Inr em, o2)" "Userinfo_Email u = em"
      by (auto simp: github_GetUser_def Let_def split: option.splits prod.splits sum.splits)
    with fetchPrimaryEmail_Inr show ?thesis unfolding github_vouched_def by fastforce
  next
    case False
    with assms get st user have "Userinfo_Email u = github_Email user"
      by (auto simp: github_GetUser_def Let_def split: option.splits)
    with doc False show ?thesis unfolding github_vouched_def by auto
  qed
qed

interpretation generic: vouching_provider "generic_Provider N p" "generic_vouched N p" "AllowUnverifiedEmail (generic_options p)" for N p
  by unfold_locales (auto simp: generic_Provider_def dest: generic_get)

interpretation google: vouching_provider "google_Provider N p" "google_vouched N p" "AllowUnverifiedEmail (google_options p)" for N p
  by unfold_locales (auto simp: google_Provider_def dest: google_get)

interpretation discord: vouching_provider "discord_Provider N p" "discord_vouched N p" "AllowUnverifiedEmail (discord_options p)" for N p
  by unfold_locales (auto simp: discord_Provider_def dest: discord_get)

interpretation github: vouching_provider "github_Provider N p" "github_vouched N p" "AllowUnverifiedEmail (github_options p)" for N p
  by unfold_locales (auto simp: github_Provider_def dest: github_get)

end
