(* ===== verification/Login.thy ===== *)
theory Login
  imports Users_Store State_Cache Flight Http Demo Providers
begin

text \<open>
  \<^verbatim>\<open>server/internal/handlers/login/login.go\<close>: the handlers \<^verbatim>\<open>/login\<close> and \<^verbatim>\<open>/callback\<close>, which turn an
  authorization code of the OAuth2 provider into a device session. The interface
  \<^verbatim>\<open>OAuth2Client\<close> is a record of methods over the provider's state; random bytes are arguments. The
  function that \<^verbatim>\<open>handleExchange\<close> hands to the flight group is \<open>exchange\<close>, whose parts
  \<open>login_username\<close> and \<open>login_session\<close> are the stretches of the code that find the user and create the
  session. Contexts and deadlines are not modelled.
\<close>

section \<open>Random values\<close>

definition generateState :: "string \<Rightarrow> string" where
  "generateState b = base64_RawURLEncoding b"

definition generateDeviceSecret :: "string \<Rightarrow> string" where
  "generateDeviceSecret b = hex_EncodeToString b"

section \<open>The handler\<close>

definition login_flightKeyPrefix :: string where "login_flightKeyPrefix = ''exchange:''"
definition exchangeTimeout :: duration where "exchangeTimeout = 30 * Second"
definition initialDeviceGeneration :: int where "initialDeviceGeneration = 1"
definition DefaultDeviceName :: string where "DefaultDeviceName = ''Unknown Device''"

record 'o OAuth2Client =
  AuthURL :: "string \<Rightarrow> string \<Rightarrow> string"
  ValidateIssuer :: "string \<Rightarrow> go_error option"
  Exchange :: "string \<Rightarrow> string \<Rightarrow> 'o \<Rightarrow> (go_error + oauth2_Token) \<times> 'o"
  GetUser :: "oauth2_Token \<Rightarrow> 'o \<Rightarrow> (go_error + Userinfo) \<times> 'o"
  Revoke :: "oauth2_Token \<Rightarrow> 'o \<Rightarrow> go_error option \<times> 'o"

record ('d, 's, 'o) login_Handler =
  login_db :: "'d options_DB option"
  login_users :: "'d options_UsersDB"
  login_jwtManager :: "'d JWTManager"
  login_stateCache :: "'s state_Cache"
  login_oauth2Client :: "'o OAuth2Client"
  login_options :: Options

definition login_New ::
  "'d options_DB option \<Rightarrow> 'd options_UsersDB \<Rightarrow> 'd JWTManager \<Rightarrow> 's state_Cache \<Rightarrow> 'o OAuth2Client \<Rightarrow> Options \<Rightarrow> ('d, 's, 'o) login_Handler" where
  "login_New db us m st oc opts = \<lparr>login_db = db, login_users = us, login_jwtManager = m, login_stateCache = st,
     login_oauth2Client = oc, login_options = opts\<rparr>"

text \<open>The state behind the handler's interfaces.\<close>

record ('d, 's, 'o) login_world =
  lw_db :: 'd
  lw_states :: 's
  lw_oauth :: 'o

record ExchangeResponse =
  Success :: bool
  Message :: string
  State :: int
  OAuth2Token :: "TokenPair option"
  AuthToken :: "TokenPair option"

definition exchange_failure :: "string \<Rightarrow> int \<Rightarrow> ExchangeResponse" where
  "exchange_failure msg st = \<lparr>Success = False, Message = msg, State = st, OAuth2Token = None, AuthToken = None\<rparr>"

definition login_Login ::
  "('d, 's, 'o) login_Handler \<Rightarrow> string \<Rightarrow> string \<Rightarrow> ResponseWriter \<Rightarrow> ('d, 's, 'o) login_world
    \<Rightarrow> ResponseWriter \<times> ('d, 's, 'o) login_world" where
  "login_Login h verifier randomBytes w s =
     (let stateVal = generateState randomBytes
      in case state_Set (login_stateCache h) stateVal verifier (lw_states s) of
           (Some _, st) \<Rightarrow>
             (response_JSON False (MsgText ''Failed to initialize login session'') StatusInternalServerError w, s\<lparr>lw_states := st\<rparr>)
         | (None, st) \<Rightarrow>
             (let url = AuthURL (login_oauth2Client h) stateVal verifier;
                  resp = \<lparr>Verifier = (if ClientPKCE (login_options h) then verifier else ''''), URL = url\<rparr>
              in (NoStoreJSON True (MsgLogin resp) StatusOK w, s\<lparr>lw_states := st\<rparr>)))"

definition providerErrorStatus :: "string \<Rightarrow> int" where
  "providerErrorStatus providerError =
     (if providerError = ''access_denied'' then StatusForbidden
      else if providerError = ''server_error'' then StatusBadGateway
      else if providerError = ''temporarily_unavailable'' then StatusServiceUnavailable
      else StatusBadRequest)"

text \<open>The user's name, or the answer with which the login ends here.\<close>

definition login_username ::
  "'d options_UsersDB \<Rightarrow> Options \<Rightarrow> Userinfo \<Rightarrow> 'd \<Rightarrow> ((ExchangeResponse \<times> go_error option) + string) \<times> 'd" where
  "login_username us opts user d =
     (case GetUsername us (Userinfo_Email user) d of
        (Inr uname, d1) \<Rightarrow> (Inr uname, d1)
      | (Inl err, d1) \<Rightarrow>
          if errors_Is err ErrUserNotFound \<and> \<not> External us \<and> AllowRegistration opts
          then (case CreateUser us (Userinfo_Name user) (Userinfo_Email user) d1 of
                  (Inl createErr, d2) \<Rightarrow> (Inl (exchange_failure ''Failed to create user'' StatusInternalServerError, Some createErr), d2)
                | (Inr createdUser, d2) \<Rightarrow> (Inr (User_Username createdUser), d2))
          else if errors_Is err ErrUserNotFound then (Inl (exchange_failure ''User not found'' StatusUnauthorized, None), d1)
          else (Inl (exchange_failure ''Failed to fetch username'' StatusInternalServerError, Some err), d1))"

text \<open>The device session and its first tokens.\<close>

definition login_session ::
  "jwt_lib \<Rightarrow> 'd options_DB \<Rightarrow> 'd JWTManager \<Rightarrow> clock \<Rightarrow> string \<Rightarrow> string \<Rightarrow> string \<Rightarrow> string \<Rightarrow> 'd
    \<Rightarrow> ((ExchangeResponse \<times> go_error option) + TokenPair) \<times> 'd" where
  "login_session L db m clk randomBytes userEmail uname device d =
     (let sec = generateDeviceSecret randomBytes
      in case SaveDeviceSecret db userEmail device sec d of
        (Inl err, d1) \<Rightarrow>
          if errors_Is err ErrUserNotFound then (Inl (exchange_failure ''User not found'' StatusUnauthorized, None), d1)
          else (Inl (exchange_failure ''Failed to register device session'' StatusInternalServerError, Some err), d1)
      | (Inr deviceID, d1) \<Rightarrow>
          (case GenerateRefresh L m clk userEmail deviceID sec initialDeviceGeneration of
             Inl err \<Rightarrow>
               (case DeleteDevice db userEmail deviceID d1 of
                  (delErr, d2) \<Rightarrow>
                    (Inl (exchange_failure ''Refresh token generation failed'' StatusInternalServerError, errors_Join [Some err, delErr]), d2))
           | Inr refreshToken \<Rightarrow>
               (case GenerateAccess L m (later 2 clk) refreshToken uname d1 of
                  (Inl err, d2) \<Rightarrow>
                    (case DeleteDevice db userEmail deviceID d2 of
                       (delErr, d3) \<Rightarrow>
                         (Inl (exchange_failure ''Access token generation failed'' StatusInternalServerError, errors_Join [Some err, delErr]), d3))
                | (Inr accessToken, d2) \<Rightarrow> (Inr \<lparr>AccessToken = accessToken, RefreshToken = refreshToken\<rparr>, d2))))"

definition exchange ::
  "jwt_lib \<Rightarrow> ('d, 's, 'o) login_Handler \<Rightarrow> clock \<Rightarrow> string \<Rightarrow> string \<Rightarrow> string \<Rightarrow> string \<Rightarrow> string \<Rightarrow> ('d, 's, 'o) login_world
    \<Rightarrow> (ExchangeResponse \<times> go_error option) \<times> ('d, 's, 'o) login_world" where
  "exchange L h clk randomBytes code state device headerVerifier w =
     (case state_Take (login_stateCache h) state (lw_states w) of
        (Inl err, s1) \<Rightarrow>
          ((exchange_failure ''Failed to retrieve login session'' StatusInternalServerError, Some err), w\<lparr>lw_states := s1\<rparr>)
      | (Inr verifier, s1) \<Rightarrow>
          (let w1 = w\<lparr>lw_states := s1\<rparr>
           in if verifier = '''' then ((exchange_failure ''Invalid or expired state'' StatusBadRequest, None), w1)
           else if ClientPKCE (login_options h) \<and> headerVerifier \<noteq> verifier
             then ((exchange_failure ''Invalid PKCE verifier'' StatusBadRequest, None), w1)
           else case Exchange (login_oauth2Client h) code verifier (lw_oauth w1) of
             (Inl err, o1) \<Rightarrow>
               if err = DeadlineExceeded
               then ((exchange_failure ''OAuth2 provider timeout'' StatusGatewayTimeout, Some err), w1\<lparr>lw_oauth := o1\<rparr>)
               else ((exchange_failure ''Code exchange failed'' StatusInternalServerError, Some err), w1\<lparr>lw_oauth := o1\<rparr>)
           | (Inr oauth2Token, o1) \<Rightarrow>
               (let w2 = w1\<lparr>lw_oauth := o1\<rparr>;
                    oauthPair = \<lparr>AccessToken = oauth_AccessToken oauth2Token, RefreshToken = oauth_RefreshToken oauth2Token\<rparr>
                in case login_db h of
                  None \<Rightarrow>
                    ((\<lparr>Success = True, Message = ''Login successful'', State = StatusOK, OAuth2Token = Some oauthPair, AuthToken = None\<rparr>, None), w2)
                | Some db \<Rightarrow>
                    (case GetUser (login_oauth2Client h) oauth2Token (lw_oauth w2) of
                       (Inl err, o2) \<Rightarrow>
                         ((exchange_failure ''Failed to fetch user info'' StatusInternalServerError, Some err), w2\<lparr>lw_oauth := o2\<rparr>)
                     | (Inr user, o2) \<Rightarrow>
                         (let w3 = w2\<lparr>lw_oauth := o2\<rparr>
                          in case login_username (login_users h) (login_options h) user (lw_db w3) of
                               (Inl res, d1) \<Rightarrow> (res, w3\<lparr>lw_db := d1\<rparr>)
                             | (Inr uname, d1) \<Rightarrow>
                                 (case login_session L db (login_jwtManager h) clk randomBytes (Userinfo_Email user) uname device d1 of
                                    (Inl res, d2) \<Rightarrow> (res, w3\<lparr>lw_db := d2\<rparr>)
                                  | (Inr authPair, d2) \<Rightarrow>
                                      (let o3 = (if \<not> PassOAuthToken (login_options h)
                                                 then snd (Revoke (login_oauth2Client h) oauth2Token o2) else o2)
                                       in ((\<lparr>Success = True, Message = ''Login successful'', State = StatusOK,
                                              OAuth2Token = Some oauthPair, AuthToken = Some authPair\<rparr>, None),
                                           w3\<lparr>lw_db := d2, lw_oauth := o3\<rparr>))))))))"

definition handleExchange ::
  "jwt_lib \<Rightarrow> (ExchangeResponse, 'a) result_type \<Rightarrow> (string \<Rightarrow> string) \<Rightarrow> ('r, ('d, 's, 'o) login_world) locker \<Rightarrow> ('d, 's, 'o) login_Handler \<Rightarrow> clock
    \<Rightarrow> string \<Rightarrow> string \<Rightarrow> string \<Rightarrow> string \<Rightarrow> string \<Rightarrow> ('r, 'm, 'a) Group \<Rightarrow> ('d, 's, 'o) login_world
    \<Rightarrow> (ExchangeResponse \<times> go_error option) \<times> ('r, 'm, 'a) Group \<times> ('d, 's, 'o) login_world" where
  "handleExchange L T sum256 lock h clk randomBytes code state device headerVerifier g w =
     (let key = login_flightKeyPrefix @ code @ ''|'' @ state @ ''|'' @ headerVerifier
      in flight_Do T sum256 lock key [InFlightOnly] (exchange L h clk randomBytes code state device headerVerifier) g w)"

definition forward_oauth :: "TokenPair \<Rightarrow> ResponseWriter \<Rightarrow> ResponseWriter" where
  "forward_oauth pair w =
     header_Set ''X-Forwarded-Access-Token'' (AccessToken pair) (header_Set ''X-Forwarded-Refresh-Token'' (RefreshToken pair) w)"

definition login_Callback ::
  "jwt_lib \<Rightarrow> (ExchangeResponse, 'a) result_type \<Rightarrow> (string \<Rightarrow> string) \<Rightarrow> ('r, ('d, 's, 'o) login_world) locker \<Rightarrow> ('d, 's, 'o) login_Handler \<Rightarrow> clock
    \<Rightarrow> string \<Rightarrow> Request \<Rightarrow> ResponseWriter \<Rightarrow> ('r, 'm, 'a) Group \<Rightarrow> ('d, 's, 'o) login_world
    \<Rightarrow> ResponseWriter \<times> ('r, 'm, 'a) Group \<times> ('d, 's, 'o) login_world" where
  "login_Callback L T sum256 lock h clk randomBytes r w g s =
     (let code = FormValue r ''code''; state = FormValue r ''state''
      in if state = '''' then (response_JSON False (MsgText ''Missing state parameter'') StatusBadRequest w, g, s)
      else if ValidateIssuer (login_oauth2Client h) (FormValue r ''iss'') \<noteq> None
        then (response_JSON False (MsgText ''Invalid issuer'') StatusBadRequest w, g, s)
      else if FormValue r ''error'' \<noteq> ''''
        then (response_JSON False (MsgText ''Authorization failed at provider'') (providerErrorStatus (FormValue r ''error'')) w, g,
              s\<lparr>lw_states := snd (state_Take (login_stateCache h) state (lw_states s))\<rparr>)
      else if code = '''' then (response_JSON False (MsgText ''Missing code parameter'') StatusBadRequest w, g, s)
      else
        (let deviceName = (if header_Get r ''X-Device-Name'' = '''' then DefaultDeviceName else header_Get r ''X-Device-Name'')
         in case handleExchange L T sum256 lock h clk randomBytes code state deviceName (header_Get r ''X-PKCE-Verifier'') g s of
              ((res, err), g1, s1) \<Rightarrow>
                if err \<noteq> None \<or> \<not> Success res then (response_JSON (Success res) (MsgText (Message res)) (State res) w, g1, s1)
                else (case AuthToken res of
                   Some authPair \<Rightarrow>
                     (let w1 = refreshtoken_SetCookie L (RefreshToken authPair) (\<not> DevMode (login_options h)) w;
                          w2 = (case OAuth2Token res of
                                  Some p \<Rightarrow> if PassOAuthToken (login_options h) then forward_oauth p w1 else w1
                                | None \<Rightarrow> w1)
                      in (NoStoreJSON (Success res) (MsgTokens authPair) (State res) w2, g1, s1))
                 | None \<Rightarrow>
                     (case OAuth2Token res of
                        Some p \<Rightarrow>
                          if PassOAuthToken (login_options h)
                          then (NoStoreJSON (Success res) (MsgText ''Logged in'') (State res) (forward_oauth p w), g1, s1)
                          else (NoStoreJSON (Success res) (MsgTokens p) (State res) w, g1, s1)
                      | None \<Rightarrow> (response_JSON False (MsgText '''') StatusInternalServerError w, g1, s1)))))"

section \<open>The session a login creates\<close>

lemma hex_nonempty: "b \<noteq> '''' \<Longrightarrow> generateDeviceSecret b \<noteq> ''''"
  by (cases b) (simp_all add: generateDeviceSecret_def hex_EncodeToString_def)

lemma hex_length: "length (generateDeviceSecret b) = 2 * length b"
  by (induction b) (simp_all add: generateDeviceSecret_def hex_EncodeToString_def)

context session_store begin

lemma session_created:
  assumes L: "jwt_laws L" and m: "manager_db m = DB" "config_encodable L m" and d: "store_invar d" "up d"
    and b: "b \<noteq> ''''" and encs: "lib_text L em" "lib_text L u" "\<And>k. named d k \<Longrightarrow> lib_text L k"
    and run: "login_session L ODB m clk b em u name d = (Inr pair, d')"
  shows "\<exists>k r a. named d k \<and> dev d k = None \<and> dev d' = (dev d)(k \<mapsto> (generateDeviceSecret b, 1))
    \<and> owner d' em k \<and> store_invar d' \<and> up d'
    \<and> carries L (RefreshToken pair) (RefreshClaimsOf r) (generateDeviceSecret b)
    \<and> r = newRefreshClaims L m clk em k 1
    \<and> carries L (AccessToken pair) (AccessClaimsOf a) (generateDeviceSecret b)
    \<and> a = access_claims_for L m (later 2 clk) u r"
proof -
  let ?sec = "generateDeviceSecret b"
  have sec: "?sec \<noteq> ''''" by (rule hex_nonempty [OF b])
  obtain k d1 where save: "SaveDeviceSecret ODB em name ?sec d = (Inr k, d1)"
    and ref: "GenerateRefresh L m clk em k ?sec initialDeviceGeneration = Inr (RefreshToken pair)"
    and acc: "GenerateAccess L m (later 2 clk) (RefreshToken pair) u d1 = (Inr (AccessToken pair), d')"
    using run by (auto simp: login_session_def Let_def split: prod.splits sum.splits if_splits)
  note sv = save_done [OF d(1) sec save] save_state [OF d(1) sec save]
  let ?r = "newRefreshClaims L m clk em k 1"
  have r: "signToken L RefreshTokenType (RefreshClaimsOf ?r) ?sec = Inr (RefreshToken pair)"
    using ref by (simp add: GenerateRefresh_def initialDeviceGeneration_def)
  have "carries L (RefreshToken pair) (RefreshClaimsOf ?r) ?sec"
    by (rule signToken_carries [OF L r encodable_refresh [OF L m(2) encs(1)]]) (use encs(3) sv in simp_all)
  moreover from this have parse: "fst (lib_ParseUnverified L (RefreshToken pair) (RefreshClaimsOf zero_refresh)) = RefreshClaimsOf ?r"
    by (auto simp: carries_def)
  have nm: "named d1 (rf_DeviceID ?r)" using sv by (simp add: newRefreshClaims_def)
  obtain key where a: "store_invar d'" "up d'" "dev d' = dev d1" "dev d1 (rf_DeviceID ?r) = Some (key, rf_Generation ?r)"
    "carries L (AccessToken pair) (AccessClaimsOf (access_claims_for L m (later 2 clk) u ?r)) key"
    using access_done [OF L m _ encs(2) acc parse nm] sv d(2) by blast
  have "key = ?sec" using a(4) sv by (simp add: newRefreshClaims_def)
  moreover have "owner d' = owner d1"
  proof -
    obtain r0 key0 where "verifyToken L m (later 2 clk 0) (RefreshToken pair) (RefreshClaimsOf zero_refresh) d1 = ((RefreshClaimsOf r0, Inr key0), d')"
      using acc by (rule GenerateAccess_shape [OF L])
    then show ?thesis using verify_keeps [OF m(1)] sv by blast
  qed
  ultimately show ?thesis using a sv by (intro exI [of _ k]) auto
qed

text \<open>A login that fails leaves no session behind.\<close>

lemma session_failed:
  assumes m: "manager_db m = DB" and d: "store_invar d" "up d" and b: "b \<noteq> ''''"
    and run: "login_session L ODB m clk b em u name d = (Inl res, d')"
  shows "dev d' = dev d \<and> store_invar d'"
proof -
  let ?sec = "generateDeviceSecret b"
  have sec: "?sec \<noteq> ''''" by (rule hex_nonempty [OF b])
  obtain x d1 where save: "SaveDeviceSecret ODB em name ?sec d = (x, d1)" by fastforce
  note st = save_state [OF d(1) sec save]
  show ?thesis
  proof (cases x)
    case (Inl e)
    with run save have "d' = d1" by (auto simp: login_session_def Let_def split: if_splits)
    with st save_failed [OF d(1) sec save [unfolded Inl]] show ?thesis by simp
  next
    case (Inr k)
    note sv = save_done [OF d(1) sec save [unfolded Inr]]
    have undo: "dev d'' = dev d \<and> store_invar d''"
      if "store_invar d2" "up d2" "dev d2 = dev d1" "named d2 = named d1" "owner d2 = owner d1" "DeleteDevice ODB em k d2 = (z, d'')" for d2 z d''
    proof -
      have nm: "named d2 k" using that st sv by simp
      have "z = None" using del_up [OF that(1) nm that(2), of em] that(6) by simp
      with del_done [OF that(1) nm] that sv have "dev d'' = (dev d1)(k := None)" by simp
      moreover have "(dev d1)(k := None) = dev d" using sv by auto
      ultimately show ?thesis using del_state [OF that(1) nm that(6)] by simp
    qed
    show ?thesis
    proof (cases "GenerateRefresh L m clk em k ?sec initialDeviceGeneration")
      case (Inl e)
      with run save Inr obtain z where "DeleteDevice ODB em k d1 = (z, d')"
        by (auto simp: login_session_def Let_def split: prod.splits)
      with undo [of d1 z d'] st d(2) show ?thesis by simp
    next
      case rt: (Inr t)
      obtain y d2 where acc: "GenerateAccess L m (later 2 clk) t u d1 = (y, d2)" by fastforce
      with run save Inr rt obtain z where del: "DeleteDevice ODB em k d2 = (z, d')"
        by (auto simp: login_session_def Let_def split: prod.splits sum.splits)
      obtain v where "verifyToken L m (later 2 clk 0) t (RefreshClaimsOf zero_refresh) d1 = (v, d2)"
        using acc by (auto simp: GenerateAccess_def Let_def split: prod.splits sum.splits)
      from verify_keeps [OF m _ this] undo [OF _ _ _ _ _ del] st d(2) show ?thesis by simp
    qed
  qed
qed

end

text \<open>What an exchange that succeeded went through.\<close>

lemma exchange_success:
  assumes run: "exchange L h clk b code state device hv w = ((res, err), w')" and ok: "Success res"
  obtains v s1 tok o1 where "state_Take (login_stateCache h) state (lw_states w) = (Inr v, s1)" "v \<noteq> ''''"
    "ClientPKCE (login_options h) \<Longrightarrow> hv = v" "Exchange (login_oauth2Client h) code v (lw_oauth w) = (Inr tok, o1)"
    "lw_states w' = s1" "err = None" "State res = StatusOK"
    "case login_db h of None \<Rightarrow> AuthToken res = None \<and> lw_db w' = lw_db w
     | Some db \<Rightarrow> \<exists>user o2 uname d1 pair. GetUser (login_oauth2Client h) tok o1 = (Inr user, o2)
         \<and> login_username (login_users h) (login_options h) user (lw_db w) = (Inr uname, d1)
         \<and> login_session L db (login_jwtManager h) clk b (Userinfo_Email user) uname device d1 = (Inr pair, lw_db w')
         \<and> AuthToken res = Some pair"
proof -
  obtain x s1 where take: "state_Take (login_stateCache h) state (lw_states w) = (x, s1)" by fastforce
  with run ok obtain v where v: "x = Inr v" "v \<noteq> ''''" "ClientPKCE (login_options h) \<Longrightarrow> hv = v"
    by (cases x) (auto simp: exchange_def exchange_failure_def Let_def split: if_splits)
  obtain y o1 where ex: "Exchange (login_oauth2Client h) code v (lw_oauth w) = (y, o1)" by fastforce
  with run ok take v obtain tok where tok: "y = Inr tok"
    by (cases y) (auto simp: exchange_def exchange_failure_def Let_def split: if_splits)
  note start = take [unfolded v(1)] v(2,3) ex [unfolded tok]
  have "lw_states w' = s1 \<and> err = None \<and> State res = StatusOK
    \<and> (case login_db h of None \<Rightarrow> AuthToken res = None \<and> lw_db w' = lw_db w
     | Some db \<Rightarrow> \<exists>user o2 uname d1 pair. GetUser (login_oauth2Client h) tok o1 = (Inr user, o2)
         \<and> login_username (login_users h) (login_options h) user (lw_db w) = (Inr uname, d1)
         \<and> login_session L db (login_jwtManager h) clk b (Userinfo_Email user) uname device d1 = (Inr pair, lw_db w')
         \<and> AuthToken res = Some pair)"
  proof (cases "login_db h")
    case None
    with run start show ?thesis by (auto simp: exchange_def Let_def split: if_splits)
  next
    case (Some db)
    obtain u o2 where gu: "GetUser (login_oauth2Client h) tok o1 = (u, o2)" by fastforce
    with run ok start Some obtain user where user: "u = Inr user"
      by (cases u) (auto simp: exchange_def exchange_failure_def Let_def split: if_splits)
    obtain n d1 where un: "login_username (login_users h) (login_options h) user (lw_db w) = (n, d1)" by fastforce
    have "\<not> Success (fst rs)" if "n = Inl rs" for rs
      using un that by (auto simp: login_username_def exchange_failure_def split: prod.splits sum.splits if_splits)
    with run ok start Some gu user un obtain uname where uname: "n = Inr uname"
      by (cases n) (auto simp: exchange_def Let_def split: if_splits)
    obtain z d2 where se: "login_session L db (login_jwtManager h) clk b (Userinfo_Email user) uname device d1 = (z, d2)" by fastforce
    have "\<not> Success (fst rs)" if "z = Inl rs" for rs
      using se that by (auto simp: login_session_def exchange_failure_def Let_def split: prod.splits sum.splits if_splits)
    with run ok start Some gu user un uname se obtain pair where "z = Inr pair"
      by (cases z) (auto simp: exchange_def Let_def split: if_splits)
    with run start Some gu user un uname se show ?thesis
      by (auto simp: exchange_def Let_def split: if_splits)
  qed
  with start show thesis by (intro that) auto
qed

text \<open>An exchange that does not succeed ends with one of the failure answers.\<close>

lemma exchange_failed:
  assumes run: "exchange L h clk b code state device hv w = ((res, err), w')" and fail: "\<not> Success res"
    and db: "login_db h = Some db"
  shows "lw_db w' = lw_db w
    \<or> (\<exists>user x. login_username (login_users h) (login_options h) user (lw_db w) = (x, lw_db w'))
    \<or> (\<exists>user uname d1 x. login_username (login_users h) (login_options h) user (lw_db w) = (Inr uname, d1)
         \<and> login_session L db (login_jwtManager h) clk b (Userinfo_Email user) uname device d1 = (Inl x, lw_db w'))"
proof (rule ccontr)
  assume none: "\<not> ?thesis"
  obtain x s1 where take: "state_Take (login_stateCache h) state (lw_states w) = (x, s1)" by fastforce
  with run none obtain v where v: "x = Inr v" "v \<noteq> ''''" "\<not> (ClientPKCE (login_options h) \<and> hv \<noteq> v)"
    by (cases x) (auto simp: exchange_def Let_def split: if_splits)
  obtain y o1 where ex: "Exchange (login_oauth2Client h) code v (lw_oauth w) = (y, o1)" by fastforce
  with run none take v obtain tok where tok: "y = Inr tok"
    by (cases y) (auto simp: exchange_def Let_def split: if_splits)
  obtain u o2 where gu: "GetUser (login_oauth2Client h) tok o1 = (u, o2)" by fastforce
  note start = take [unfolded v(1)] v(2,3) ex [unfolded tok] gu
  with run none db obtain user where user: "u = Inr user"
    by (cases u) (auto simp: exchange_def Let_def split: if_splits)
  obtain n d1 where un: "login_username (login_users h) (login_options h) user (lw_db w) = (n, d1)" by fastforce
  with run none start db user obtain uname where uname: "n = Inr uname"
    by (cases n) (auto simp: exchange_def Let_def split: if_splits)
  obtain z d2 where se: "login_session L db (login_jwtManager h) clk b (Userinfo_Email user) uname device d1 = (z, d2)" by fastforce
  with run none start db user un uname obtain pair where "z = Inr pair"
    by (cases z) (auto simp: exchange_def Let_def split: if_splits)
  with run fail start db user un uname se show False
    by (auto simp: exchange_def Let_def split: if_splits)
qed

text \<open>The statuses of a failed exchange.\<close>

definition failure_statuses :: "int set" where
  "failure_statuses = {StatusBadRequest, StatusUnauthorized, StatusInternalServerError, StatusGatewayTimeout}"

lemma exchange_failure_status [simp]:
  "State (exchange_failure m st) = st" "\<not> Success (exchange_failure m st)" "Message (exchange_failure m st) = m"
  by (simp_all add: exchange_failure_def)

lemma username_status: "login_username us opts user d = (Inl (res, err), d') \<Longrightarrow> \<not> Success res \<and> State res \<in> failure_statuses"
  by (auto simp: login_username_def failure_statuses_def split: prod.splits sum.splits if_splits)

lemma session_status: "login_session L db m clk b em u name d = (Inl (res, err), d') \<Longrightarrow> \<not> Success res \<and> State res \<in> failure_statuses"
  by (auto simp: login_session_def failure_statuses_def Let_def split: prod.splits sum.splits if_splits)

lemma exchange_status:
  assumes run: "exchange L h clk b code state device hv w = ((res, err), w')"
  shows "if Success res then err = None \<and> State res = StatusOK \<and> OAuth2Token res \<noteq> None \<and> (AuthToken res = None \<longleftrightarrow> login_db h = None)
    else State res \<in> failure_statuses"
proof -
  obtain x s1 where take: "state_Take (login_stateCache h) state (lw_states w) = (x, s1)" by fastforce
  obtain v where v: "x = Inr v \<or> (\<exists>e. x = Inl e)" by (cases x) auto
  obtain y o1 where ex: "Exchange (login_oauth2Client h) code v (lw_oauth w) = (y, o1)" by fastforce
  note start = take v ex
  show ?thesis
  proof (cases y)
    case (Inl e)
    with run start show ?thesis
      by (auto simp: exchange_def failure_statuses_def Let_def split: if_splits)
  next
    case tok: (Inr tok)
    obtain u o2 where gu: "GetUser (login_oauth2Client h) tok o1 = (u, o2)" by fastforce
    show ?thesis
    proof (cases "login_db h")
      case None
      with run start tok show ?thesis by (auto simp: exchange_def failure_statuses_def Let_def split: if_splits)
    next
      case db: (Some db)
      show ?thesis
      proof (cases u)
        case (Inl e)
        with run start tok db gu show ?thesis by (auto simp: exchange_def failure_statuses_def Let_def split: if_splits)
      next
        case user: (Inr user)
        obtain n d1 where un: "login_username (login_users h) (login_options h) user (lw_db w) = (n, d1)" by fastforce
        show ?thesis
        proof (cases n)
          case (Inl rs)
          with run start tok db gu user un username_status [of "login_users h" "login_options h" user "lw_db w" "fst rs" "snd rs" d1] show ?thesis
            by (cases rs) (auto simp: exchange_def failure_statuses_def Let_def split: if_splits)
        next
          case name: (Inr uname)
          obtain z d2 where se: "login_session L db (login_jwtManager h) clk b (Userinfo_Email user) uname device d1 = (z, d2)" by fastforce
          show ?thesis
          proof (cases z)
            case (Inl rs)
            with run start tok db gu user un name se session_status [of L db "login_jwtManager h" clk b "Userinfo_Email user" uname device d1 "fst rs" "snd rs" d2]
            show ?thesis by (cases rs) (auto simp: exchange_def failure_statuses_def Let_def split: if_splits)
          next
            case (Inr pair)
            with run start tok db gu user un name se show ?thesis
              by (auto simp: exchange_def failure_statuses_def Let_def split: if_splits)
          qed
        qed
      qed
    qed
  qed
qed

section \<open>Logins over a session store\<close>

text \<open>The e-mails the provider returns and the names in the users table are texts the token library can encode.\<close>

definition login_texts :: "jwt_lib \<Rightarrow> ('d, 's, 'o) login_Handler \<Rightarrow> 'd \<Rightarrow> bool" where
  "login_texts L h d \<longleftrightarrow> (\<forall>tok o1 user o2. GetUser (login_oauth2Client h) tok o1 = (Inr user, o2) \<longrightarrow>
     lib_text L (Userinfo_Email user) \<and>
     (\<forall>uname d'. login_username (login_users h) (login_options h) user d = (Inr uname, d') \<longrightarrow> lib_text L uname))"

context session_users begin

lemma username_state:
  assumes "store_invar d" and "login_username UDB opts user d = (x, d')"
  shows "store_invar d' \<and> dev d' = dev d \<and> named d' = named d \<and> owner d' = owner d \<and> (up d \<longrightarrow> up d')"
proof -
  obtain y d1 where name: "GetUsername UDB (Userinfo_Email user) d = (y, d1)" by fastforce
  note d1 = name_state [OF assms(1) name]
  have "d' = d1 \<or> (\<exists>z. CreateUser UDB (Userinfo_Name user) (Userinfo_Email user) d1 = (z, d'))"
    using assms(2) name by (auto simp: login_username_def split: prod.splits sum.splits if_splits)
  then show ?thesis
  proof
    assume "\<exists>z. CreateUser UDB (Userinfo_Name user) (Userinfo_Email user) d1 = (z, d')"
    then obtain z where "CreateUser UDB (Userinfo_Name user) (Userinfo_Email user) d1 = (z, d')" by blast
    with d1 create_state [of d1] show ?thesis by auto
  qed (use d1 in simp)
qed

lemma login_created:
  assumes L: "jwt_laws L" and h: "login_db h = Some ODB" "login_users h = UDB" "manager_db (login_jwtManager h) = DB"
      "config_encodable L (login_jwtManager h)"
    and d: "store_invar (lw_db w)" "up (lw_db w)" and b: "b \<noteq> ''''"
    and txts: "login_texts L h (lw_db w)" "\<And>k. named (lw_db w) k \<Longrightarrow> lib_text L k"
    and run: "exchange L h clk b code state device hv w = ((res, err), w')" and ok: "Success res"
  obtains v s1 tok o1 user o2 uname d1 k r a pair where "state_Take (login_stateCache h) state (lw_states w) = (Inr v, s1)"
    "Exchange (login_oauth2Client h) code v (lw_oauth w) = (Inr tok, o1)"
    "GetUser (login_oauth2Client h) tok o1 = (Inr user, o2)"
    "login_username UDB (login_options h) user (lw_db w) = (Inr uname, d1)" "dev (lw_db w) k = None" "named (lw_db w) k"
    "dev (lw_db w') = (dev (lw_db w))(k \<mapsto> (generateDeviceSecret b, 1))"
    "owner (lw_db w') (Userinfo_Email user) k" "store_invar (lw_db w')" "up (lw_db w')" "AuthToken res = Some pair"
    "r = newRefreshClaims L (login_jwtManager h) clk (Userinfo_Email user) k 1"
    "a = access_claims_for L (login_jwtManager h) (later 2 clk) uname r"
    "carries L (RefreshToken pair) (RefreshClaimsOf r) (generateDeviceSecret b)"
    "carries L (AccessToken pair) (AccessClaimsOf a) (generateDeviceSecret b)"
proof -
  from run ok obtain v s1 tok o1 user o2 uname d1 pair
    where took: "state_Take (login_stateCache h) state (lw_states w) = (Inr v, s1)"
      "Exchange (login_oauth2Client h) code v (lw_oauth w) = (Inr tok, o1)"
      and user: "GetUser (login_oauth2Client h) tok o1 = (Inr user, o2)"
      and name: "login_username UDB (login_options h) user (lw_db w) = (Inr uname, d1)"
      and sess: "login_session L ODB (login_jwtManager h) clk b (Userinfo_Email user) uname device d1 = (Inr pair, lw_db w')"
      and pair: "AuthToken res = Some pair"
    by (rule exchange_success) (auto simp: h)
  from txts(1) user name have t: "lib_text L (Userinfo_Email user)" "lib_text L uname"
    unfolding login_texts_def h(2) by blast+
  note d1 = username_state [OF d(1) name]
  have nm: "lib_text L k" if "named d1 k" for k using that d1 txts(2) by simp
  from d1 d(2) have d1': "store_invar d1" "up d1" by simp_all
  obtain k where k: "named d1 k" "dev d1 k = None" "dev (lw_db w') = (dev d1)(k \<mapsto> (generateDeviceSecret b, 1))"
    "owner (lw_db w') (Userinfo_Email user) k" "store_invar (lw_db w')" "up (lw_db w')"
    and c: "carries L (RefreshToken pair) (RefreshClaimsOf (newRefreshClaims L (login_jwtManager h) clk (Userinfo_Email user) k 1)) (generateDeviceSecret b)"
      "carries L (AccessToken pair) (AccessClaimsOf (access_claims_for L (login_jwtManager h) (later 2 clk) uname
        (newRefreshClaims L (login_jwtManager h) clk (Userinfo_Email user) k 1))) (generateDeviceSecret b)"
    using session_created [OF L h(3,4) d1' b t nm sess] by blast
  from d1 have same: "named d1 = named (lw_db w)" "dev d1 = dev (lw_db w)" by simp_all
  show thesis by (rule that [OF took user name _ _ _ k(4-6) pair refl refl c]) (use k same in simp_all)
qed

lemma login_failed:
  assumes h: "login_db h = Some ODB" "login_users h = UDB" "manager_db (login_jwtManager h) = DB"
    and d: "store_invar (lw_db w)" "up (lw_db w)" and b: "b \<noteq> ''''"
    and run: "exchange L h clk b code state device hv w = ((res, err), w')" and "\<not> Success res"
  shows "store_invar (lw_db w') \<and> dev (lw_db w') = dev (lw_db w)"
  using exchange_failed [OF run assms(8) h(1)] unfolding h(2)
proof (elim disjE exE conjE)
  fix user uname d1 x
  assume name: "login_username UDB (login_options h) user (lw_db w) = (Inr uname, d1)"
    and sess: "login_session L ODB (login_jwtManager h) clk b (Userinfo_Email user) uname device d1 = (Inl x, lw_db w')"
  note d1 = username_state [OF d(1) name]
  with d(2) have "store_invar d1" "up d1" by simp_all
  from session_failed [OF h(3) this b sess] d1 show ?thesis by simp
qed (use d username_state in auto)

end

end
