(* ===== verification/Login_Sessions.thy ===== *)
theory Login_Sessions
  imports Login Refresh
begin

text \<open>
  What a login gives and what it cannot give: the properties of \<^verbatim>\<open>/login\<close> and \<^verbatim>\<open>/callback\<close> over the
  caches and the database the server uses, through the interpretations \<open>mem\<close>, \<open>red_up\<close>,
  \<open>mem_states\<close> and \<open>red_states\<close>.
\<close>

section \<open>The state parameter\<close>

context one_time_cache begin

lemma exchange_redeems:
  assumes h: "login_stateCache h = ST" and inv: "state_invar (lw_states w)"
    and run: "exchange L h clk b code state device hv w = ((res, err), w1)" and ok: "Success res"
    and ops: "list_all (\<lambda>op. \<not> sets_key state op) ops" and w2: "lw_states w2 = run_states ST ops (lw_states w1)"
    and again: "exchange L h clk2 b2 code2 state device2 hv2 w2 = ((res2, err2), w3)"
  shows "(\<exists>v tok o1. held (lw_states w) state = Some v \<and> v \<noteq> '''' \<and> (ClientPKCE (login_options h) \<longrightarrow> hv = v)
      \<and> Exchange (login_oauth2Client h) code v (lw_oauth w) = (Inr tok, o1))
    \<and> \<not> Success res2"
proof -
  obtain v tok o1 where v: "state_Take ST state (lw_states w) = (Inr v, lw_states w1)" "v \<noteq> ''''"
    "ClientPKCE (login_options h) \<Longrightarrow> hv = v" "Exchange (login_oauth2Client h) code v (lw_oauth w) = (Inr tok, o1)"
    using run ok by (rule exchange_success) (simp add: h)
  have "\<not> Success res2"
  proof
    assume "Success res2"
    with again obtain u s2 where "state_Take ST state (run_states ST ops (lw_states w1)) = (Inr u, s2)" "u \<noteq> ''''"
      by (rule exchange_success) (simp add: h w2)
    with taken_once [OF inv v(1) ops] show False by simp
  qed
  with v take_known [OF inv v(1,2)] show ?thesis by blast
qed

end

text \<open>
  C9. A login state is redeemed once, and only by who started the login. When an exchange over the
  Redis state cache succeeds, a verifier was pending for the state parameter, the caller presented
  that verifier where \<^verbatim>\<open>ClientPKCE\<close> asks for it, and the provider accepted the code with that verifier; and a second exchange
  with the same state, whatever its code, device and header, and whatever other requests the
  cache served in between except a login started with the same state, does not succeed.
\<close>

theorem login_redeems_state_once:
  assumes "login_stateCache h = redis_states" and "redis_states_ok (lw_states w)"
    and "exchange L h clk b code state device hv w = ((res, err), w1)" and "Success res"
    and "list_all (\<lambda>op. \<not> sets_key state op) ops" and "lw_states w2 = run_states redis_states ops (lw_states w1)"
    and "exchange L h clk2 b2 code2 state device2 hv2 w2 = ((res2, err2), w3)"
  shows "(\<exists>v tok o1. redis_held (lw_states w) state = Some v \<and> v \<noteq> '''' \<and> (ClientPKCE (login_options h) \<longrightarrow> hv = v)
      \<and> Exchange (login_oauth2Client h) code v (lw_oauth w) = (Inr tok, o1))
    \<and> \<not> Success res2"
  by (rule red_states.exchange_redeems [OF assms])

text \<open>A provider that accepts one code, with the verifier \<^verbatim>\<open>v\<close>.\<close>

definition demo_oauth :: "unit OAuth2Client" where
  "demo_oauth = \<lparr>AuthURL = (\<lambda>st v. ''https://p/'' @ st), ValidateIssuer = (\<lambda>_. None),
     Exchange = (\<lambda>code v u. if code = ''c'' \<and> v = ''v'' then (Inr \<lparr>oauth_AccessToken = ''oa'', oauth_RefreshToken = ''or'', oauth_id_token = None\<rparr>, u)
       else (Inl (Opaque ''invalid_grant''), u)),
     GetUser = (\<lambda>tok u. (Inr \<lparr>Userinfo_ID = ''1'', Userinfo_Email = ''a@x'', Userinfo_Name = ''ann''\<rparr>, u)),
     Revoke = (\<lambda>tok u. (None, u))\<rparr>"

definition demo_states :: "(string \<rightharpoonup> string) redisCache" where
  "demo_states = newRedisCache (map_redis [(''oauth2:state:s'', ''v'')]) Minute"

lemma demo_states_ok: "redis_states_ok demo_states"
  by (simp add: demo_states_def redis_states_ok_def newRedisCache_def redis_reliable_laws map_redis_reliable)

lemma demo_take:
  obtains r1 where "redisCache_Take ''s'' demo_states = (Inr ''v'', r1)"
  by (auto simp: demo_states_def redisCache_Take_def newRedisCache_def RedisClient_GetDel_def client_Do_def map_redis_def
      redisKeyPrefix_def answer_string_def)

definition demo_login ::
  "(('c CachedDB) options_DB) option \<Rightarrow> 'c SecretCache \<Rightarrow> 'o OAuth2Client \<Rightarrow> ('c CachedDB, (string \<rightharpoonup> string) redisCache, 'o) login_Handler" where
  "demo_login db SC oc = login_New db (Store_UsersDB \<lparr>external = False, selectUsernameQuery = ''q''\<rparr>) (demo_manager SC) redis_states
     oc (options_New [WithClientPKCE True])"

lemma demo_login_facts [simp]:
  "login_db (demo_login db SC oc) = db" "login_users (demo_login db SC oc) = Store_UsersDB \<lparr>external = False, selectUsernameQuery = ''q''\<rparr>"
  "login_jwtManager (demo_login db SC oc) = demo_manager SC" "login_stateCache (demo_login db SC oc) = redis_states"
  "login_oauth2Client (demo_login db SC oc) = oc" "ClientPKCE (login_options (demo_login db SC oc))"
  "\<not> PassOAuthToken (login_options (demo_login db SC oc))" "\<not> AllowRegistration (login_options (demo_login db SC oc))"
  by (simp_all add: demo_login_def login_New_def options_New_def WithClientPKCE_def)

theorem login_redeems_state_once_witness:
  "\<exists>res err w1. exchange demo_lib (demo_login None memory_SecretCache demo_oauth) (\<lambda>_. 0) ''b'' ''c'' ''s'' ''dev'' ''v''
      \<lparr>lw_db = NewCachedDB demo_pg demo_memory, lw_states = demo_states, lw_oauth = ()\<rparr> = ((res, err), w1) \<and> Success res
    \<and> \<not> Success (fst (fst (exchange demo_lib (demo_login None memory_SecretCache demo_oauth) (\<lambda>_. 0) ''b'' ''c'' ''s'' ''dev'' ''v'' w1)))"
proof -
  let ?h = "demo_login None memory_SecretCache demo_oauth"
  let ?w = "\<lparr>lw_db = NewCachedDB demo_pg demo_memory, lw_states = demo_states, lw_oauth = ()\<rparr>"
  obtain r1 where "redisCache_Take ''s'' demo_states = (Inr ''v'', r1)" by (rule demo_take)
  then obtain res err w1 where run: "exchange demo_lib ?h (\<lambda>_. 0) ''b'' ''c'' ''s'' ''dev'' ''v'' ?w = ((res, err), w1)" "Success res"
    by (auto simp: exchange_def redis_states_def demo_oauth_def)
  obtain res2 err2 w3 where again: "exchange demo_lib ?h (\<lambda>_. 0) ''b'' ''c'' ''s'' ''dev'' ''v'' w1 = ((res2, err2), w3)"
    by (metis prod.collapse)
  have ok: "redis_states_ok (lw_states ?w)" by (simp add: demo_states_ok)
  from login_redeems_state_once [OF _ ok run, of "[]" w1, OF _ _ _ again] run again show ?thesis by auto
qed

section \<open>The session of a login\<close>

text \<open>
  C8. A login opens a working session for the user the provider names. When an exchange succeeds, the provider accepted the code with the pending
  verifier, and there is one new device, of generation 1, that belongs to the e-mail of the user \<^verbatim>\<open>GetUser\<close> returned for the provider's token; every
  other session is as before. The refresh token of the answer is accepted until its life time is over, with that
  e-mail, device and generation, and so is the access token, which also carries the name \<open>login_username\<close> found or registered for that user.
  The dates of tokens are whole seconds, so a life time may end up to a second early. The cache is either of the two; the database can be
  reached, and so can Redis, if it is the cache. The random source gives bytes, and the e-mail, the name, issuer and audience are valid UTF-8
  (\<open>lib_text\<close>).
\<close>

theorem login_opens_working_session:
  assumes "jwt_laws L" and "login_db h = Some (CachedDB_DB any_SecretCache)" and "login_users h = Store_UsersDB st"
    and "manager_db (login_jwtManager h) = CachedDB_methods any_SecretCache" and "config_encodable L (login_jwtManager h)"
    and "any_invar (lw_db w)" and "cdb_up (lw_db w)" and "b \<noteq> ''''"
    and "login_texts L h (lw_db w)" and "\<And>k. cdb_named (lw_db w) k \<Longrightarrow> lib_text L k"
    and "exchange L h clk b code state device hv w = ((res, err), w')" and "Success res"
    and "now \<le> clk 0 + RefreshTokenDuration (manager_config (login_jwtManager h)) - Second"
    and "now' \<le> clk 3 + AccessTokenDuration (manager_config (login_jwtManager h)) - Second"
  shows "\<exists>v s1 tok o1 user o2 uname d1 k pair r a. state_Take (login_stateCache h) state (lw_states w) = (Inr v, s1)
    \<and> Exchange (login_oauth2Client h) code v (lw_oauth w) = (Inr tok, o1)
    \<and> GetUser (login_oauth2Client h) tok o1 = (Inr user, o2)
    \<and> login_username (login_users h) (login_options h) user (lw_db w) = (Inr uname, d1)
    \<and> cdb_dev (lw_db w) k = None
    \<and> cdb_dev (lw_db w') = (cdb_dev (lw_db w))(k \<mapsto> (generateDeviceSecret b, 1)) \<and> cdb_owner (lw_db w') (Userinfo_Email user) k
    \<and> AuthToken res = Some pair
    \<and> fst (VerifyRefresh L (login_jwtManager h) now (RefreshToken pair) (lw_db w')) = (r, None)
    \<and> rf_DeviceID r = k \<and> rf_Generation r = 1 \<and> Subject (rf_Registered r) = Userinfo_Email user
    \<and> fst (VerifyAccess L (login_jwtManager h) now' (AccessToken pair) (lw_db w')) = (a, None)
    \<and> ac_DeviceID a = k \<and> ac_Generation a = 1 \<and> ac_UserEmail a = Userinfo_Email user \<and> ac_Username a = uname"
proof -
  let ?m = "login_jwtManager h" and ?sec = "generateDeviceSecret b"
  obtain v s1 tok o1 user o2 uname d1 k r a pair where steps: "state_Take (login_stateCache h) state (lw_states w) = (Inr v, s1)"
    "Exchange (login_oauth2Client h) code v (lw_oauth w) = (Inr tok, o1)" "GetUser (login_oauth2Client h) tok o1 = (Inr user, o2)"
    "login_username (login_users h) (login_options h) user (lw_db w) = (Inr uname, d1)"
    and dv: "cdb_dev (lw_db w) k = None" "cdb_dev (lw_db w') = (cdb_dev (lw_db w))(k \<mapsto> (?sec, 1))"
    and own: "cdb_owner (lw_db w') (Userinfo_Email user) k"
    and inv: "any_invar (lw_db w')" "cdb_up (lw_db w')" and pair: "AuthToken res = Some pair"
    and r: "r = newRefreshClaims L ?m clk (Userinfo_Email user) k 1" and a: "a = access_claims_for L ?m (later 2 clk) uname r"
    and c: "carries L (RefreshToken pair) (RefreshClaimsOf r) ?sec" "carries L (AccessToken pair) (AccessClaimsOf a) ?sec"
    unfolding assms(3) by (rule any.handlers.login_created [OF assms(1-12)])
  have f: "rf_DeviceID r = k" "rf_Generation r = 1" "Subject (rf_Registered r) = Userinfo_Email user"
    "ac_DeviceID a = k" "ac_Generation a = 1" "ac_UserEmail a = Userinfo_Email user" "ac_Username a = uname"
    by (simp_all add: r a newRefreshClaims_def access_claims_for_def)
  have dev: "cdb_dev (lw_db w') k = Some (?sec, 1)" using dv by simp
  have vr: "claims_valid (parserOptions ?m) now (rf_Registered r)"
    using lib_date(2) [OF assms(1), of "clk 0 + RefreshTokenDuration (manager_config ?m)"] assms(13)
    by (simp add: r refresh_claims_valid)
  have va: "claims_valid (parserOptions ?m) now' (ac_Registered a)"
    using lib_date(2) [OF assms(1), of "clk 3 + AccessTokenDuration (manager_config ?m)"] assms(14)
    by (simp add: a access_claims_valid numeral_eq_Suc)
  note v = any.cached.verify_carried [OF assms(1,4) inv]
  have "fst (VerifyRefresh L ?m now (RefreshToken pair) (lw_db w')) = (r, None)"
    using v [OF c(1) _ dev, of RefreshTokenType 1 "RefreshClaimsOf zero_refresh" now] f vr by (auto simp: VerifyRefresh_def)
  moreover have "fst (VerifyAccess L ?m now' (AccessToken pair) (lw_db w')) = (a, None)"
    using v [OF c(2) _ dev, of AccessTokenType 1 "AccessClaimsOf zero_access" now'] f va by (auto simp: VerifyAccess_def)
  ultimately show ?thesis
    using steps dv own pair f
    by (intro exI [of _ v] exI [of _ s1] exI [of _ tok] exI [of _ o1] exI [of _ user] exI [of _ o2] exI [of _ uname] exI [of _ d1]
        exI [of _ k] exI [of _ pair] exI [of _ r] exI [of _ a] conjI) assumption+
qed

text \<open>The provider's user logs in at the demo database: the session and its tokens.\<close>

definition login_refresh :: RefreshClaims where
  "login_refresh = (demo_refresh 1)\<lparr>rf_DeviceID := ''dd''\<rparr>"

definition login_access :: AccessClaims where
  "login_access = (demo_access 1)\<lparr>ac_DeviceID := ''dd''\<rparr>"

definition login_lib :: jwt_lib where
  "login_lib = table_jwt
     [(''lr'', demo_token RefreshTokenType (RefreshClaimsOf login_refresh), ''61''),
      (''la'', demo_token AccessTokenType (AccessClaimsOf login_access), ''61'')]"

lemma login_lib_laws: "jwt_laws login_lib"
  unfolding login_lib_def
  by (rule table_jwt_laws)
    (simp_all add: demo_token_def whole_claims_def login_refresh_def login_access_def demo_refresh_def demo_access_def
      demo_registered_def registered_dates_def map_filter_def demo_dates)

lemma login_sign:
  "signToken login_lib RefreshTokenType (RefreshClaimsOf login_refresh) ''61'' = Inr ''lr''"
  "signToken login_lib AccessTokenType (AccessClaimsOf login_access) ''61'' = Inr ''la''"
  by (simp_all add: signToken_def login_lib_def table_jwt_def demo_token_def NewWithClaims_def set_header_def
      login_refresh_def login_access_def AccessTokenType_def RefreshTokenType_def Let_def)

lemma login_carries: "carries login_lib ''lr'' (RefreshClaimsOf login_refresh) ''61''"
proof (rule signToken_carries [OF login_lib_laws login_sign(1)])
  show "encodable login_lib (RefreshClaimsOf login_refresh)"
    by (simp add: encodable_def list_all_iff login_lib_def login_refresh_def demo_refresh_def demo_registered_def registered_dates_def
        map_filter_def demo_dates)
qed simp

definition demo_logged_in :: pg where
  "demo_logged_in = demo_pg\<lparr>auth_user_devices := [demo_row\<lparr>device_id := ''dd'', device_name := ''dev'', secret := ''61'', updated_at := Hour\<rparr>],
     pg_calls := 2\<rparr>"

lemma demo_secret: "generateDeviceSecret ''a'' = ''61''"
  by (simp add: generateDeviceSecret_def hex_EncodeToString_def hex_digit_def byte_of_def char_of_def bit_0)

lemma demo_login_steps:
  "GetUsername (Store_UsersDB \<lparr>external = False, selectUsernameQuery = ''q''\<rparr>) ''a@x'' (NewCachedDB demo_pg c)
     = (Inr ''ann'', NewCachedDB (demo_pg\<lparr>pg_calls := Suc 0\<rparr>) c)"
  "SaveDeviceSecret (CachedDB_DB SC) ''a@x'' ''dev'' ''61'' (NewCachedDB (demo_pg\<lparr>pg_calls := Suc 0\<rparr>) c) = (Inr ''dd'', NewCachedDB demo_logged_in c)"
proof -
  show "GetUsername (Store_UsersDB \<lparr>external = False, selectUsernameQuery = ''q''\<rparr>) ''a@x'' (NewCachedDB demo_pg c)
     = (Inr ''ann'', NewCachedDB (demo_pg\<lparr>pg_calls := Suc 0\<rparr>) c)"
    by (simp add: Store_UsersDB_def on_db_def Store_GetUsername_def pg_exec_def select_username_def demo_pg_def NewCachedDB_def)
  show "SaveDeviceSecret (CachedDB_DB SC) ''a@x'' ''dev'' ''61'' (NewCachedDB (demo_pg\<lparr>pg_calls := Suc 0\<rparr>) c) = (Inr ''dd'', NewCachedDB demo_logged_in c)"
    by (simp add: CachedDB_DB_def CachedDB_SaveDeviceSecret_def NewCachedDB_def Database_SaveDeviceSecret_def pg_exec_def
        insert_device_def demo_pg_def demo_logged_in_def demo_row_def pg_now_def Let_def)
qed

context reliable_secret_cache begin

lemma demo_opened_with:
  assumes inv00: "cdb_invar live cache_invar (NewCachedDB demo_pg c)" and ex: "Exchange oc ''c'' ''v'' o0 = (Inr tok, o1)"
    and gu: "GetUser oc tok o1 = (Inr \<lparr>Userinfo_ID = i, Userinfo_Email = ''a@x'', Userinfo_Name = ''ann''\<rparr>, o2)"
  shows "\<exists>pair w'. exchange login_lib (demo_login (Some (CachedDB_DB SC)) SC oc) (\<lambda>_. 0) ''a'' ''c'' ''s'' ''dev'' ''v''
      \<lparr>lw_db = NewCachedDB demo_pg c, lw_states = demo_states, lw_oauth = o0\<rparr>
    = ((\<lparr>Success = True, Message = ''Login successful'', State = StatusOK,
         OAuth2Token = Some \<lparr>AccessToken = oauth_AccessToken tok, RefreshToken = oauth_RefreshToken tok\<rparr>, AuthToken = Some pair\<rparr>, None), w')"
proof -
  let ?m = "demo_manager SC" and ?d = "NewCachedDB demo_logged_in c"
  let ?h = "demo_login (Some (CachedDB_DB SC)) SC oc"
  have inv0: "cdb_invar live cache_invar (NewCachedDB (demo_pg\<lparr>pg_calls := Suc 0\<rparr>) c)"
    using handlers.name_state [OF inv00 demo_login_steps(1)] by blast
  have inv: "cdb_invar live cache_invar ?d"
    using sessions.save_state [OF inv0 _ demo_login_steps(2) ] by simp
  have fs: "cdb_up ?d" "cdb_dev ?d ''dd'' = Some (''61'', 1)"
    by (simp_all add: cdb_up_def cdb_dev_def NewCachedDB_def demo_logged_in_def demo_pg_def pg_up_def device_at_def demo_row_def)
  have l: "later n (\<lambda>_. 0) = (\<lambda>_. 0)" for n by (simp add: later_def)
  have rc: "newRefreshClaims login_lib ?m (\<lambda>_. 0) ''a@x'' ''dd'' 1 = login_refresh"
    by (simp add: newRefreshClaims_def demo_manager_def NewJWTManager_def jwt_defaultOptions_def login_refresh_def demo_refresh_def
        demo_registered_def login_lib_def demo_dates)
  have ac: "access_claims_for login_lib ?m (\<lambda>_. 0) ''ann'' login_refresh = login_access"
    by (simp add: access_claims_for_def login_refresh_def login_access_def demo_refresh_def demo_access_def demo_registered_def
        demo_manager_def NewJWTManager_def jwt_defaultOptions_def login_lib_def demo_dates)
  have ref: "GenerateRefresh login_lib ?m (\<lambda>_. 0) ''a@x'' ''dd'' ''61'' 1 = Inr ''lr''"
    by (simp add: GenerateRefresh_def rc login_sign(1))
  have ident: "token_identity (RefreshClaimsOf login_refresh) = Some (RefreshTokenType, ''dd'', 1)"
    by (simp add: login_refresh_def demo_refresh_def)
  have valid: "claims_valid (parserOptions ?m) 0 (claims_registered (RefreshClaimsOf login_refresh))"
    using demo_valid_now(2) [of SC 1] by (simp add: login_refresh_def)
  obtain d' where v: "verifyToken login_lib ?m 0 ''lr'' (RefreshClaimsOf zero_refresh) ?d = ((RefreshClaimsOf login_refresh, Inr ''61''), d')"
    by (rule cached.verify_current [OF login_lib_laws demo_manager_facts(1) inv fs(1) login_carries ident fs(2) _ valid]) simp_all
  have acc: "GenerateAccess login_lib ?m (\<lambda>_. 0) ''lr'' ''ann'' ?d = (Inr ''la'', d')"
    using GenerateAccess_verified [of login_lib ?m "\<lambda>_. 0", OF v, of "''ann''"] by (simp add: ac login_sign(2))
  have name: "login_username (Store_UsersDB \<lparr>external = False, selectUsernameQuery = ''q''\<rparr>) opts
      \<lparr>Userinfo_ID = i, Userinfo_Email = ''a@x'', Userinfo_Name = ''ann''\<rparr> (NewCachedDB demo_pg c) = (Inr ''ann'', NewCachedDB (demo_pg\<lparr>pg_calls := Suc 0\<rparr>) c)" for opts
    by (simp add: login_username_def demo_login_steps(1))
  have sess: "login_session login_lib (CachedDB_DB SC) ?m (\<lambda>_. 0) ''a'' ''a@x'' ''ann'' ''dev''
      (NewCachedDB (demo_pg\<lparr>pg_calls := Suc 0\<rparr>) c) = (Inr \<lparr>AccessToken = ''la'', RefreshToken = ''lr''\<rparr>, d')"
    by (simp add: login_session_def demo_secret demo_login_steps(2) initialDeviceGeneration_def ref acc l Let_def)
  obtain r1 where "redisCache_Take ''s'' demo_states = (Inr ''v'', r1)" by (rule demo_take)
  with name sess ex gu show ?thesis
    by (simp add: exchange_def redis_states_def Let_def)
qed

end

lemma demo_opened:
  "\<exists>pair w'. exchange login_lib (demo_login (Some (CachedDB_DB demo_cache)) demo_cache demo_oauth) (\<lambda>_. 0) ''a'' ''c'' ''s'' ''dev'' ''v''
      \<lparr>lw_db = demo_start, lw_states = demo_states, lw_oauth = ()\<rparr>
    = ((\<lparr>Success = True, Message = ''Login successful'', State = StatusOK,
         OAuth2Token = Some \<lparr>AccessToken = ''oa'', RefreshToken = ''or''\<rparr>, AuthToken = Some pair\<rparr>, None), w')"
proof -
  let ?tok = "\<lparr>oauth_AccessToken = ''oa'', oauth_RefreshToken = ''or'', oauth_id_token = None\<rparr>"
  have "Exchange demo_oauth ''c'' ''v'' () = (Inr ?tok, ())"
    "GetUser demo_oauth ?tok () = (Inr \<lparr>Userinfo_ID = ''1'', Userinfo_Email = ''a@x'', Userinfo_Name = ''ann''\<rparr>, ())"
    by (simp_all add: demo_oauth_def)
  from any.demo_opened_with [OF demo_any_invar(1) this] show ?thesis by simp
qed

theorem login_opens_working_session_witness:
  "\<exists>res err w' k pair r. exchange login_lib (demo_login (Some (CachedDB_DB demo_cache)) demo_cache demo_oauth) (\<lambda>_. 0) ''a'' ''c'' ''s'' ''dev'' ''v''
      \<lparr>lw_db = demo_start, lw_states = demo_states, lw_oauth = ()\<rparr> = ((res, err), w')
    \<and> AuthToken res = Some pair
    \<and> fst (VerifyRefresh login_lib (demo_manager demo_cache) Minute (RefreshToken pair) (lw_db w')) = (r, None) \<and> rf_DeviceID r = k"
proof -
  let ?h = "demo_login (Some (CachedDB_DB demo_cache)) demo_cache demo_oauth"
  let ?w = "\<lparr>lw_db = demo_start, lw_states = demo_states, lw_oauth = ()\<rparr>"
  obtain res w' where run: "exchange login_lib ?h (\<lambda>_. 0) ''a'' ''c'' ''s'' ''dev'' ''v'' ?w = ((res, None), w')" "Success res"
    using demo_opened by (metis ExchangeResponse.select_convs(1))
  have utf8: "lib_text login_lib x" for x by (simp add: login_lib_def)
  have facts: "login_db ?h = Some (CachedDB_DB demo_cache)"
    "login_users ?h = Store_UsersDB \<lparr>external = False, selectUsernameQuery = ''q''\<rparr>"
    "manager_db (login_jwtManager ?h) = CachedDB_methods demo_cache" "config_encodable login_lib (login_jwtManager ?h)"
    "any_invar (lw_db ?w)" "cdb_up (lw_db ?w)" "''a'' \<noteq> ''''" "login_texts login_lib ?h (lw_db ?w)"
    using demo_any_invar(1) demo_pg_ok(2)
    by (simp_all add: demo_manager_facts config_encodable_def login_texts_def utf8 cdb_up_def NewCachedDB_def)
  have "Minute \<le> (\<lambda>_. 0) (0::nat) + RefreshTokenDuration (manager_config (login_jwtManager ?h)) - Second"
    "Minute \<le> (\<lambda>_. 0) (3::nat) + AccessTokenDuration (manager_config (login_jwtManager ?h)) - Second"
    by (simp_all add: demo_manager_def NewJWTManager_def jwt_defaultOptions_def time_units)
  from login_opens_working_session [OF login_lib_laws facts utf8 run this] run(1) show ?thesis by auto
qed

text \<open>
  C20. A login that fails leaves no session behind: when an exchange over the Redis device cache, with reachable
  services, does not succeed, the sessions are exactly those before it, also when a device had already been
  saved and a later step failed; and the caches stay coherent with the database.
\<close>

theorem failed_login_leaves_no_session:
  assumes "login_db h = Some (CachedDB_DB redis_SecretCache)" and "login_users h = Store_UsersDB st"
    and "manager_db (login_jwtManager h) = CachedDB_methods redis_SecretCache"
    and "cdb_invar redis_live redis_invar_up (lw_db w)" and "cdb_up (lw_db w)" and "b \<noteq> ''''"
    and "exchange L h clk b code state device hv w = ((res, err), w')" and "\<not> Success res"
  shows "cdb_dev (lw_db w') = cdb_dev (lw_db w) \<and> cdb_invar redis_live redis_invar_up (lw_db w')"
  using red_up.handlers.login_failed [OF assms] by blast

text \<open>With a library that signs nothing, the demo login fails after its device was saved.\<close>

theorem failed_login_leaves_no_session_witness:
  "\<exists>res err w'. exchange (table_jwt []) (demo_login (Some (CachedDB_DB redis_SecretCache)) redis_SecretCache demo_oauth) (\<lambda>_. 0) ''a'' ''c'' ''s'' ''dev'' ''v''
      \<lparr>lw_db = NewCachedDB demo_pg demo_redis, lw_states = demo_states, lw_oauth = ()\<rparr> = ((res, err), w')
    \<and> Message res = ''Refresh token generation failed'' \<and> cdb_dev (lw_db w') = (\<lambda>_. None)"
proof -
  let ?h = "demo_login (Some (CachedDB_DB redis_SecretCache)) redis_SecretCache demo_oauth"
  let ?w = "\<lparr>lw_db = NewCachedDB demo_pg demo_redis, lw_states = demo_states, lw_oauth = ()\<rparr>"
  obtain e where ref: "GenerateRefresh (table_jwt []) (demo_manager redis_SecretCache :: (((string \<rightharpoonup> string) redisSecretCache) CachedDB) JWTManager) (\<lambda>_. 0) ''a@x'' ''dd'' ''61'' 1 = Inl e"
    by (simp add: GenerateRefresh_def signToken_def table_jwt_def)
  obtain z d' where del: "DeleteDevice (CachedDB_DB redis_SecretCache) ''a@x'' ''dd'' (NewCachedDB demo_logged_in demo_redis) = (z, d')"
    by fastforce
  have name: "login_username (Store_UsersDB \<lparr>external = False, selectUsernameQuery = ''q''\<rparr>) opts
      \<lparr>Userinfo_ID = ''1'', Userinfo_Email = ''a@x'', Userinfo_Name = ''ann''\<rparr> (NewCachedDB demo_pg demo_redis) = (Inr ''ann'', NewCachedDB (demo_pg\<lparr>pg_calls := Suc 0\<rparr>) demo_redis)" for opts
    by (simp add: login_username_def demo_login_steps(1))
  obtain res0 where sess: "login_session (table_jwt []) (CachedDB_DB redis_SecretCache) (demo_manager redis_SecretCache) (\<lambda>_. 0) ''a'' ''a@x'' ''ann'' ''dev''
      (NewCachedDB (demo_pg\<lparr>pg_calls := Suc 0\<rparr>) demo_redis) = (Inl (exchange_failure ''Refresh token generation failed'' StatusInternalServerError, res0), d')"
    by (simp add: login_session_def demo_secret demo_login_steps(2) initialDeviceGeneration_def ref del Let_def)
  obtain r1 where "redisCache_Take ''s'' demo_states = (Inr ''v'', r1)" by (rule demo_take)
  with name sess obtain res err w' where run: "exchange (table_jwt []) ?h (\<lambda>_. 0) ''a'' ''c'' ''s'' ''dev'' ''v'' ?w = ((res, err), w')"
    and msg: "Message res = ''Refresh token generation failed''" "\<not> Success res"
    by (simp add: exchange_def redis_states_def demo_oauth_def exchange_failure_def Let_def)
  have facts: "login_db ?h = Some (CachedDB_DB redis_SecretCache)"
    "login_users ?h = Store_UsersDB \<lparr>external = False, selectUsernameQuery = ''q''\<rparr>"
    "manager_db (login_jwtManager ?h) = CachedDB_methods redis_SecretCache"
    "cdb_invar redis_live redis_invar_up (lw_db ?w)" "cdb_up (lw_db ?w)" "''a'' \<noteq> ''''"
    using demo_redis_invar demo_pg_ok(2) by (simp_all add: demo_manager_facts cdb_up_def NewCachedDB_def)
  have none: "cdb_dev (lw_db ?w) = (\<lambda>_. None)"
    by (simp add: fun_eq_iff cdb_dev_def NewCachedDB_def demo_pg_def device_at_def)
  from failed_login_leaves_no_session [OF facts run msg(2)] have "cdb_dev (lw_db w') = (\<lambda>_. None)" unfolding none by blast
  with run msg(1) show ?thesis by blast
qed

section \<open>The answer of the callback\<close>

lemma lookup_cookie [simp]: "w_lookup (refreshtoken_SetCookie L t secure w) k = w_lookup w k"
  by simp

lemma forward_oauth_simps [simp]:
  "w_status (forward_oauth p w) = w_status w" "w_cookies (forward_oauth p w) = w_cookies w"
  "w_status w = None \<Longrightarrow> w_lookup (forward_oauth p w) ''X-Forwarded-Access-Token'' = Some (AccessToken p)"
  "w_status w = None \<Longrightarrow> w_lookup (forward_oauth p w) ''X-Forwarded-Refresh-Token'' = Some (RefreshToken p)"
  by (simp_all add: forward_oauth_def)

lemma NoStoreJSON_lookup [simp]:
  "k \<noteq> ''Content-Type'' \<Longrightarrow> k \<noteq> ''Cache-Control'' \<Longrightarrow> w_lookup (NoStoreJSON ok msg code w) k = w_lookup w k"
  by (simp add: NoStoreJSON_def)

lemma providerErrorStatus_range:
  "providerErrorStatus e \<in> {StatusForbidden, StatusBadGateway, StatusServiceUnavailable, StatusBadRequest}"
  by (simp add: providerErrorStatus_def)

lemma callback_early:
  assumes "login_Callback L T sum256 lock h clk b r new_writer g s = (w, g', s')"
    and "FormValue r ''state'' = '''' \<or> ValidateIssuer (login_oauth2Client h) (FormValue r ''iss'') \<noteq> None
      \<or> FormValue r ''error'' \<noteq> '''' \<or> FormValue r ''code'' = ''''"
  shows "\<exists>m st. st \<in> {StatusForbidden, StatusBadGateway, StatusServiceUnavailable, StatusBadRequest}
    \<and> w = response_JSON False (MsgText m) st new_writer"
  using assms providerErrorStatus_range [of "FormValue r ''error''"]
  by (auto simp: login_Callback_def Let_def split: if_splits)

text \<open>
  The results \<^verbatim>\<open>handleExchange\<close> may get from elsewhere for a code, a state and a verifier are those of exchanges with them. Without Redis and with no call in flight
  this is no condition.
\<close>

definition shares_exchanges ::
  "jwt_lib \<Rightarrow> (ExchangeResponse, 'a) result_type \<Rightarrow> (string \<Rightarrow> string) \<Rightarrow> ('r, ('d, 's, 'o) login_world) locker \<Rightarrow> ('d, 's, 'o) login_Handler
    \<Rightarrow> string \<Rightarrow> string \<Rightarrow> string \<Rightarrow> ('r, 'm, 'a) Group \<Rightarrow> ('d, 's, 'o) login_world \<Rightarrow> bool" where
  "shares_exchanges L T sum256 lock h code state hv g s \<longleftrightarrow>
     flight_shares T sum256 lock (\<lambda>res err. \<exists>clk b device w w'. exchange L h clk b code state device hv w = ((res, err), w'))
       g (login_flightKeyPrefix @ code @ ''|'' @ state @ ''|'' @ hv) s"

lemma alone_shares_exchanges:
  "group g = (\<lambda>_. None) \<Longrightarrow> redis g = None \<Longrightarrow> shares_exchanges L T sum256 lock h code state hv g s"
  by (simp add: shares_exchanges_def flight_shares_alone)

lemma handleExchange_result:
  assumes "shares_exchanges L T sum256 lock h code state hv g s"
    and "handleExchange L T sum256 lock h clk b code state device hv g s = ((res, err), g1, s1)"
  shows "\<exists>clk b device w w'. exchange L h clk b code state device hv w = ((res, err), w')"
  using flight_result [OF assms(1) [unfolded shares_exchanges_def] assms(2) [unfolded handleExchange_def Let_def]] by blast

text \<open>
  C21. \<^verbatim>\<open>/callback\<close> gives out tokens only when the login succeeded. An answer of status 200 forbids caching; with a
  database its body holds the session's tokens, and its one cookie the same refresh token, \<^verbatim>\<open>HttpOnly\<close>,
  \<^verbatim>\<open>SameSite=Lax\<close>, and \<^verbatim>\<open>Secure\<close> except in development mode; without one there is no cookie, and the body holds the provider's tokens
  unless they are forwarded; the provider's access and refresh token are forwarded, both, exactly when
  \<^verbatim>\<open>PassOAuthToken\<close> is set. Every other answer has an error status, a text, no cookie and neither forwarded token. This holds with and
  without Redis: results that come from a call in flight in this process, or from another process while the lock is waited for, are those of exchanges
  with the same code, state and verifier (\<open>shares_exchanges\<close>).
\<close>

theorem Callback_response:
  assumes "login_Callback L T sum256 lock h clk b r new_writer g s = (w, g', s')"
    and "shares_exchanges L T sum256 lock h (FormValue r ''code'') (FormValue r ''state'') (header_Get r ''X-PKCE-Verifier'') g s"
  shows "if w_status w = Some StatusOK
    then w_lookup w ''Cache-Control'' = Some ''no-store''
      \<and> (w_lookup w ''X-Forwarded-Access-Token'' \<noteq> None \<longleftrightarrow> PassOAuthToken (login_options h))
      \<and> (w_lookup w ''X-Forwarded-Refresh-Token'' \<noteq> None \<longleftrightarrow> PassOAuthToken (login_options h))
      \<and> (login_db h \<noteq> None \<longrightarrow> (\<exists>pair c. w_body w = Some (JsonBody True (MsgTokens pair)) \<and> w_cookies w = [c]
          \<and> Cookie_Value c = RefreshToken pair \<and> Cookie_HttpOnly c \<and> Cookie_SameSite c = SameSiteLaxMode
          \<and> Cookie_Secure c = (\<not> DevMode (login_options h))))
      \<and> (login_db h = None \<longrightarrow> w_cookies w = [] \<and> (\<exists>p. w_body w = Some (JsonBody True
          (if PassOAuthToken (login_options h) then MsgText ''Logged in'' else MsgTokens p))))
    else (\<exists>st\<ge>400. w_status w = Some st) \<and> w_cookies w = [] \<and> (\<exists>m. w_body w = Some (JsonBody False (MsgText m)))
      \<and> w_lookup w ''X-Forwarded-Access-Token'' = None \<and> w_lookup w ''X-Forwarded-Refresh-Token'' = None"
proof (cases "FormValue r ''state'' = '''' \<or> ValidateIssuer (login_oauth2Client h) (FormValue r ''iss'') \<noteq> None
      \<or> FormValue r ''error'' \<noteq> '''' \<or> FormValue r ''code'' = ''''")
  case True
  from callback_early [OF assms(1) True] show ?thesis by (auto simp: status_codes)
next
  case False
  let ?dev = "if header_Get r ''X-Device-Name'' = '''' then DefaultDeviceName else header_Get r ''X-Device-Name''"
  obtain res err g1 s1 where he: "handleExchange L T sum256 lock h clk b (FormValue r ''code'') (FormValue r ''state'') ?dev (header_Get r ''X-PKCE-Verifier'') g s
      = ((res, err), g1, s1)" by (metis prod.collapse)
  obtain clk2 b2 dev2 w2 w3 where ex: "exchange L h clk2 b2 (FormValue r ''code'') (FormValue r ''state'') dev2 (header_Get r ''X-PKCE-Verifier'') w2 = ((res, err), w3)"
    using handleExchange_result [OF assms(2) he] by blast
  note st = exchange_status [OF ex]
  show ?thesis
  proof (cases "Success res")
    case ok: True
    from st ok obtain p where res: "err = None" "State res = StatusOK" "OAuth2Token res = Some p"
      "AuthToken res = None \<longleftrightarrow> login_db h = None" by auto
    show ?thesis
    proof (cases "AuthToken res")
      case None
      with assms(1) False he ok res have "w = (if PassOAuthToken (login_options h)
          then NoStoreJSON True (MsgText ''Logged in'') StatusOK (forward_oauth p new_writer)
          else NoStoreJSON True (MsgTokens p) StatusOK new_writer)"
        by (auto simp: login_Callback_def Let_def)
      with None res show ?thesis by auto
    next
      case (Some pair)
      let ?w = "refreshtoken_SetCookie L (RefreshToken pair) (\<not> DevMode (login_options h)) new_writer"
      from Some assms(1) False he ok res have "w = NoStoreJSON True (MsgTokens pair) StatusOK
          (if PassOAuthToken (login_options h) then forward_oauth p ?w else ?w)"
        by (auto simp: login_Callback_def Let_def)
      with Some res(4) refresh_cookie [of L "RefreshToken pair" "\<not> DevMode (login_options h)"] show ?thesis by auto
    qed
  next
    case no: False
    with assms(1) False he have "w = response_JSON False (MsgText (Message res)) (State res) new_writer"
      by (auto simp: login_Callback_def Let_def)
    with no st show ?thesis by (auto simp: failure_statuses_def status_codes)
  qed
qed

text \<open>A callback of the demo provider, in a server without Redis, where results need no encoding.\<close>

definition exchange_result :: "(ExchangeResponse, ExchangeResponse) result_type" where
  "exchange_result = \<lparr>zero_result = exchange_failure '''' 0, to_any = id, from_any = Some,
     json_Marshal = (\<lambda>_. Inl (Opaque ''not encoded'')), json_Unmarshal = (\<lambda>_. Inl (Opaque ''not encoded''))\<rparr>"

definition exchange_group :: "(string \<rightharpoonup> string, (string \<times> ExchangeResponse) list, ExchangeResponse) Group" where
  "exchange_group = \<lparr>group = (\<lambda>_. None), redis = None,
     memory = Some \<lparr>otter_methods = map_otter (exchange_failure '''' 0), otter_state = []\<rparr>\<rparr>"

definition callback_request :: Request where
  "callback_request = \<lparr>r_Cookies = [], r_Header = [(''X-Device-Name'', ''dev''), (''X-PKCE-Verifier'', ''v'')], r_Body = Inl ErrNoRows,
     r_Query = [(''code'', ''c''), (''state'', ''s'')], r_UserAgent = ''''\<rparr>"

theorem Callback_response_witness:
  "\<exists>w g' s' c. login_Callback login_lib exchange_result id free_locker
      (demo_login (Some (CachedDB_DB demo_cache)) demo_cache demo_oauth) (\<lambda>_. 0) ''a'' callback_request new_writer exchange_group
      \<lparr>lw_db = demo_start, lw_states = demo_states, lw_oauth = ()\<rparr> = (w, g', s')
    \<and> w_cookies w = [c] \<and> Cookie_HttpOnly c"
proof -
  let ?h = "demo_login (Some (CachedDB_DB demo_cache)) demo_cache demo_oauth"
  let ?s = "\<lparr>lw_db = demo_start, lw_states = demo_states, lw_oauth = ()\<rparr>"
  obtain pair s' where ex: "exchange login_lib ?h (\<lambda>_. 0) ''a'' ''c'' ''s'' ''dev'' ''v'' ?s
    = ((\<lparr>Success = True, Message = ''Login successful'', State = StatusOK,
         OAuth2Token = Some \<lparr>AccessToken = ''oa'', RefreshToken = ''or''\<rparr>, AuthToken = Some pair\<rparr>, None), s')"
    using demo_opened by blast
  obtain w g' s'' where run: "login_Callback login_lib exchange_result id free_locker ?h (\<lambda>_. 0) ''a'' callback_request
      new_writer exchange_group ?s = (w, g', s'')" by (metis prod.collapse)
  have "w_status w = Some StatusOK"
    using run ex by (auto simp: login_Callback_def handleExchange_def flight_Do_def exchange_group_def callback_request_def FormValue_def
        header_Get_def demo_oauth_def)
  moreover have "shares_exchanges login_lib exchange_result id free_locker ?h (FormValue callback_request ''code'') (FormValue callback_request ''state'')
      (header_Get callback_request ''X-PKCE-Verifier'') exchange_group ?s"
    by (rule alone_shares_exchanges) (simp_all add: exchange_group_def)
  ultimately show ?thesis using Callback_response [OF run] run by auto
qed

end
