(* ===== verification/Oidc.thy ===== *)
theory Oidc
  imports Providers
begin

text \<open>
  \<^verbatim>\<open>oauth2/providers/oidc.go\<close>: OpenID Connect. The discovery document is fetched in a loop that ends only with an answer or with
  its context; the loop is a \<^verbatim>\<open>partial_function\<close> of the context's state at each look at it, so that a loop that never ends has
  no result. The user comes from the claims of the ID token, or from the userinfo endpoint.
\<close>

record OIDCDiscovery =
  discovery_Issuer :: string
  AuthorizationEndpoint :: string
  TokenEndpoint :: string
  UserinfoEndpoint :: string
  RevocationEndpoint :: string
  AuthorizationResponseIssParameterSupported :: bool

definition decode_OIDCDiscovery :: "json \<Rightarrow> go_error + OIDCDiscovery" where
  "decode_OIDCDiscovery j = bind_result (json_members j) (\<lambda>ms.
     bind_result (string_field ms ''issuer'') (\<lambda>is. bind_result (string_field ms ''authorization_endpoint'') (\<lambda>au.
     bind_result (string_field ms ''token_endpoint'') (\<lambda>tk. bind_result (string_field ms ''userinfo_endpoint'') (\<lambda>ui.
     bind_result (string_field ms ''revocation_endpoint'') (\<lambda>rv.
     bind_result (bool_field ms ''authorization_response_iss_parameter_supported'') (\<lambda>sup.
     Inr \<lparr>discovery_Issuer = is, AuthorizationEndpoint = au, TokenEndpoint = tk, UserinfoEndpoint = ui, RevocationEndpoint = rv,
       AuthorizationResponseIssParameterSupported = sup\<rparr>)))))))"

text \<open>\<^verbatim>\<open>audienceClaim\<close>: one text or an array of texts.\<close>

definition audienceClaim_Unmarshal :: "json \<Rightarrow> go_error + string list" where
  "audienceClaim_Unmarshal j = (case json_string j of Inr s \<Rightarrow> Inr [s] | Inl _ \<Rightarrow> json_strings j)"

record idTokenClaims =
  claim_Sub :: string
  claim_Email :: string
  claim_EmailVerified :: bool
  claim_Name :: string
  claim_Iss :: string
  claim_Aud :: "string list"
  claim_Exp :: int

definition decode_idTokenClaims :: "json \<Rightarrow> go_error + idTokenClaims" where
  "decode_idTokenClaims j = bind_result (json_members j) (\<lambda>ms.
     bind_result (string_field ms ''sub'') (\<lambda>sb. bind_result (string_field ms ''email'') (\<lambda>em.
     bind_result (flexible_field ms ''email_verified'') (\<lambda>v. bind_result (string_field ms ''name'') (\<lambda>nm.
     bind_result (string_field ms ''iss'') (\<lambda>is. bind_result (json_field audienceClaim_Unmarshal [] ms ''aud'') (\<lambda>au.
     bind_result (int_field ms ''exp'') (\<lambda>ex.
     Inr \<lparr>claim_Sub = sb, claim_Email = em, claim_EmailVerified = v, claim_Name = nm, claim_Iss = is, claim_Aud = au, claim_Exp = ex\<rparr>))))))))"

section \<open>Discovery\<close>

definition strings_TrimRight :: "string \<Rightarrow> char \<Rightarrow> string" where
  "strings_TrimRight s c = rev (dropWhile (\<lambda>x. x = c) (rev s))"

text \<open>The document, or whether to try again and the error.\<close>

definition tryFetchDiscovery :: "'o net \<Rightarrow> string \<Rightarrow> 'o \<Rightarrow> ((bool \<times> go_error) + string) \<times> 'o" where
  "tryFetchDiscovery N discoveryURL o0 =
     (case url_error N discoveryURL of
        Some err \<Rightarrow> (Inl (False, Wrapped ''failed to create discovery request'' err), o0)
      | None \<Rightarrow>
          (case DefaultClient N \<lparr>req_Method = ''GET'', req_URL = discoveryURL, req_Header = [], req_Payload = NoPayload\<rparr> o0 of
             (Inl err, o1) \<Rightarrow> (Inl (True, Wrapped ''failed to fetch discovery document'' err), o1)
           | (Inr resp, o1) \<Rightarrow>
               if StatusCode resp \<noteq> 200
               then (Inl (StatusCode resp \<ge> 500 \<or> StatusCode resp = 429, Opaque ''discovery endpoint returned status''), o1)
               else (case resp_Body resp of
                  Inl err \<Rightarrow> (Inl (True, Wrapped ''failed to read discovery response body'' err), o1)
                | Inr body \<Rightarrow> (Inr body, o1))))"

definition checkDiscovery :: "'o net \<Rightarrow> string \<Rightarrow> go_error + OIDCDiscovery" where
  "checkDiscovery N body =
     (case bind_result (json_parse N body) decode_OIDCDiscovery of
        Inl err \<Rightarrow> Inl (Wrapped ''failed to decode discovery document'' err)
      | Inr doc \<Rightarrow>
          if AuthorizationEndpoint doc = '''' \<or> TokenEndpoint doc = '''' then Inl (Opaque ''discovery document missing required endpoints'')
          else if discovery_Issuer doc = '''' then Inl (Opaque ''discovery document missing issuer'')
          else Inr doc)"

text \<open>\<open>ctx i\<close>: the error of the context when the loop looks at it for the \<open>i\<close>-th time, if it is done by then.\<close>

partial_function (option) fetchLoop ::
  "'o net \<Rightarrow> (nat \<Rightarrow> go_error option) \<Rightarrow> string \<Rightarrow> nat \<Rightarrow> 'o \<Rightarrow> ((go_error + OIDCDiscovery) \<times> 'o) option" where
  "fetchLoop N ctx discoveryURL i o0 =
     (case ctx i of
        Some err \<Rightarrow> Some (Inl (Wrapped ''context canceled while fetching discovery document'' err), o0)
      | None \<Rightarrow>
          (case tryFetchDiscovery N discoveryURL o0 of
             (Inr body, o1) \<Rightarrow> Some (checkDiscovery N body, o1)
           | (Inl e, o1) \<Rightarrow> if \<not> fst e then Some (Inl (snd e), o1) else fetchLoop N ctx discoveryURL (Suc i) o1))"

definition FetchDiscovery :: "'o net \<Rightarrow> (nat \<Rightarrow> go_error option) \<Rightarrow> string \<Rightarrow> 'o \<Rightarrow> ((go_error + OIDCDiscovery) \<times> 'o) option" where
  "FetchDiscovery N ctx issuerURL o0 = fetchLoop N ctx (strings_TrimRight issuerURL CHR ''/'' @ ''/.well-known/openid-configuration'') 0 o0"

section \<open>The provider\<close>

record OIDCProvider =
  oidc_config :: oauth2_Config
  oidc_options :: provider_Options
  oidc_discovery :: OIDCDiscovery

definition NewOIDCProvider :: "oauth2_Config \<Rightarrow> OIDCDiscovery \<Rightarrow> (provider_Options \<Rightarrow> provider_Options) list \<Rightarrow> OIDCProvider" where
  "NewOIDCProvider config discovery opts =
     \<lparr>oidc_config = config, oidc_options = provider_newOptions opts, oidc_discovery = discovery\<rparr>"

definition parseIDTokenClaims :: "'o net \<Rightarrow> time \<Rightarrow> string \<Rightarrow> go_error + idTokenClaims" where
  "parseIDTokenClaims N now idToken =
     (let parts = strings_Split idToken CHR ''.''
      in if length parts \<noteq> 3 then Inl (Opaque ''invalid id_token format'')
         else case base64_DecodeString (parts ! 1) of
           Inl err \<Rightarrow> Inl (Wrapped ''failed to decode id_token payload'' err)
         | Inr payload \<Rightarrow>
             (case bind_result (json_parse N payload) decode_idTokenClaims of
                Inl err \<Rightarrow> Inl (Wrapped ''failed to unmarshal id_token claims'' err)
              | Inr claims \<Rightarrow>
                  if claim_Exp claims > 0 \<and> now div Second > claim_Exp claims then Inl (Opaque ''id_token is expired'')
                  else Inr claims))"

definition validateIDTokenClaims :: "OIDCProvider \<Rightarrow> idTokenClaims \<Rightarrow> go_error option" where
  "validateIDTokenClaims p claims =
     (if claim_Iss claims \<noteq> discovery_Issuer (oidc_discovery p) then Some (Opaque ''id_token issuer mismatch'')
      else if config_ClientID (oidc_config p) \<notin> set (claim_Aud claims) then Some (Opaque ''id_token audience does not contain client_id'')
      else None)"

definition claims_user :: "idTokenClaims \<Rightarrow> Userinfo" where
  "claims_user c = \<lparr>Userinfo_ID = claim_Sub c, Userinfo_Email = claim_Email c, Userinfo_Name = claim_Name c\<rparr>"

definition fetchUserinfo :: "'o net \<Rightarrow> OIDCProvider \<Rightarrow> oauth2_Token \<Rightarrow> 'o \<Rightarrow> (go_error + Userinfo) \<times> 'o" where
  "fetchUserinfo N p tok o0 =
     (case client_Get N (Config_Client N (oidc_config p) tok) (UserinfoEndpoint (oidc_discovery p)) o0 of
        (Inl err, o1) \<Rightarrow> (Inl (Wrapped ''failed to fetch userinfo'' err), o1)
      | (Inr resp, o1) \<Rightarrow>
          if StatusCode resp \<noteq> 200 then (Inl (Opaque ''userinfo endpoint returned status''), o1)
          else (case bind_result (read_json N resp) decode_idTokenClaims of
             Inl err \<Rightarrow> (Inl (Wrapped ''failed to decode userinfo'' err), o1)
           | Inr claims \<Rightarrow>
               if claim_Sub claims = '''' then (Inl (Opaque ''userinfo response missing required claim: sub''), o1)
               else (case checkEmail (oidc_options p) (claim_Email claims) (claim_EmailVerified claims) of
                  Some err \<Rightarrow> (Inl err, o1)
                | None \<Rightarrow> (Inr (claims_user claims), o1))))"

definition oidc_GetUser :: "'o net \<Rightarrow> OIDCProvider \<Rightarrow> oauth2_Token \<Rightarrow> 'o \<Rightarrow> (go_error + Userinfo) \<times> 'o" where
  "oidc_GetUser N p tok o0 =
     (let fallback =
        (if UserinfoEndpoint (oidc_discovery p) = ''''
         then (Inl (Opaque ''no userinfo endpoint available and id_token claims insufficient''), o0)
         else fetchUserinfo N p tok o0)
      in case oauth_id_token tok of
           None \<Rightarrow> fallback
         | Some idToken \<Rightarrow>
             if idToken = '''' then fallback
             else (case parseIDTokenClaims N (time_Now N o0) idToken of
                Inl _ \<Rightarrow> fallback
              | Inr claims \<Rightarrow>
                  (case validateIDTokenClaims p claims of
                     Some err \<Rightarrow> (Inl err, o0)
                   | None \<Rightarrow>
                       if claim_Sub claims \<noteq> '''' \<and> checkEmail (oidc_options p) (claim_Email claims) (claim_EmailVerified claims) = None
                       then (Inr (claims_user claims), o0)
                       else fallback)))"

definition oidc_Revoke :: "'o net \<Rightarrow> OIDCProvider \<Rightarrow> oauth2_Token \<Rightarrow> 'o \<Rightarrow> go_error option \<times> 'o" where
  "oidc_Revoke N p tok o0 =
     (let url = RevocationEndpoint (oidc_discovery p)
      in if url = '''' then (Some (Opaque ''revocation endpoint not available for this provider''), o0)
      else case post_form N (Wrapped ''failed to create revoke request'') (Wrapped ''failed to send revoke request'') url
             [(''token'', revocableToken tok), (''client_id'', config_ClientID (oidc_config p)),
              (''client_secret'', config_ClientSecret (oidc_config p))] o0 of
        (Inl err, o1) \<Rightarrow> (Some err, o1)
      | (Inr resp, o1) \<Rightarrow>
          if StatusCode resp < 200 \<or> StatusCode resp \<ge> 300 then (Some (Opaque ''revoke failed with status''), o1)
          else (None, o1))"

definition oidc_Provider :: "'o net \<Rightarrow> OIDCProvider \<Rightarrow> 'o Provider" where
  "oidc_Provider N p = \<lparr>provider_GetUser = oidc_GetUser N p, provider_Revoke = oidc_Revoke N p\<rparr>"

section \<open>Discovery ends\<close>

text \<open>A document that passed the checks names the endpoints the client uses and its issuer.\<close>

lemma checkDiscovery_Inr:
  "checkDiscovery N body = Inr doc \<Longrightarrow> AuthorizationEndpoint doc \<noteq> '''' \<and> TokenEndpoint doc \<noteq> '''' \<and> discovery_Issuer doc \<noteq> ''''"
  by (auto simp: checkDiscovery_def split: sum.splits if_splits)

lemma fetchLoop_returns:
  assumes "ctx (i + k) \<noteq> None"
  shows "\<exists>res o1. fetchLoop N ctx url i o0 = Some (res, o1)
    \<and> (\<forall>doc. res = Inr doc \<longrightarrow> AuthorizationEndpoint doc \<noteq> '''' \<and> TokenEndpoint doc \<noteq> '''' \<and> discovery_Issuer doc \<noteq> '''')"
  using assms
proof (induction k arbitrary: i o0)
  case 0
  then show ?case by (subst fetchLoop.simps) auto
next
  case (Suc k)
  have IH: "\<exists>res o2. fetchLoop N ctx url (Suc i) o1 = Some (res, o2)
    \<and> (\<forall>doc. res = Inr doc \<longrightarrow> AuthorizationEndpoint doc \<noteq> '''' \<and> TokenEndpoint doc \<noteq> '''' \<and> discovery_Issuer doc \<noteq> '''')" for o1
    using Suc.IH [of "Suc i"] Suc.prems by simp
  obtain r o1 where attempt: "tryFetchDiscovery N url o0 = (r, o1)" by fastforce
  show ?case
  proof (cases r)
    case (Inl e)
    with attempt IH [of o1] show ?thesis by (subst fetchLoop.simps) (auto split: option.splits)
  next
    case (Inr body)
    with attempt checkDiscovery_Inr [of N body] show ?thesis by (subst fetchLoop.simps) (auto split: option.splits)
  qed
qed

text \<open>
  C27. \<^verbatim>\<open>FetchDiscovery\<close> ends with its context: when the context is done at some look at it, as one with a deadline is, the
  loop returns, however long the endpoint keeps failing; and a document it returns has an issuer and both endpoints.
\<close>

theorem FetchDiscovery_returns:
  assumes "ctx n \<noteq> None"
  shows "\<exists>res o1. FetchDiscovery N ctx issuerURL o0 = Some (res, o1)
    \<and> (\<forall>doc. res = Inr doc \<longrightarrow> AuthorizationEndpoint doc \<noteq> '''' \<and> TokenEndpoint doc \<noteq> '''' \<and> discovery_Issuer doc \<noteq> '''')"
  unfolding FetchDiscovery_def by (rule fetchLoop_returns [of ctx 0 n]) (simp add: assms)

text \<open>A network where every request fails.\<close>

definition down_net :: "nat net" where
  "down_net = \<lparr>DefaultClient = (\<lambda>req n. (Inl (Opaque ''connection refused''), Suc n)),
     Config_Client = (\<lambda>_ _ req n. (Inl (Opaque ''connection refused''), Suc n)), Config_AuthCodeURL = (\<lambda>_ st _. st),
     Config_Exchange = (\<lambda>_ _ _ n. (Inl (Opaque ''connection refused''), Suc n)), url_error = (\<lambda>_. None),
     json_parse = (\<lambda>_. Inl (Opaque ''syntax'')), json_utf8 = (\<lambda>_. True), time_Now = (\<lambda>_. 0),
     discord_Endpoint = \<lparr>Endpoint_AuthURL = '''', Endpoint_TokenURL = ''''\<rparr>, discord_Scopes = [],
     github_Endpoint = \<lparr>Endpoint_AuthURL = '''', Endpoint_TokenURL = ''''\<rparr>,
     google_Endpoint = \<lparr>Endpoint_AuthURL = '''', Endpoint_TokenURL = ''''\<rparr>\<rparr>"

theorem FetchDiscovery_returns_witness:
  "\<exists>res o1. FetchDiscovery down_net (\<lambda>i. if i < 15 then None else Some DeadlineExceeded) ''https://idp/'' 0 = Some (res, o1)"
proof -
  let ?ctx = "\<lambda>i. if i < (15 :: nat) then None else Some DeadlineExceeded"
  have "?ctx 15 \<noteq> None" by simp
  from FetchDiscovery_returns [of ?ctx 15, OF this, of down_net "''https://idp/''" 0] show ?thesis by blast
qed

text \<open>Without assuming that the context ends: what the loop returned, if it did.\<close>

lemma fetchLoop_issuer:
  assumes "fetchLoop N ctx url i o0 = Some (Inr doc, o1)"
  shows "discovery_Issuer doc \<noteq> ''''"
proof -
  have "\<forall>doc o1. r = (Inr doc, o1) \<longrightarrow> discovery_Issuer doc \<noteq> ''''" if "fetchLoop N ctx url i o0 = Some r" for r
    using that
  proof (induction rule: fetchLoop.raw_induct [rotated, consumes 1])
    case (1 loop N ctx url i o0 r)
    from 1(2) show ?case
      by (auto dest: 1(1) checkDiscovery_Inr split: option.splits prod.splits sum.splits if_splits)
  qed
  with assms show ?thesis by blast
qed

section \<open>The contract of the provider\<close>

definition oidc_vouched :: "'o net \<Rightarrow> OIDCProvider \<Rightarrow> oauth2_Token \<Rightarrow> 'o \<Rightarrow> string \<Rightarrow> bool" where
  "oidc_vouched N p tok o0 em \<longleftrightarrow>
     (\<exists>t c. oauth_id_token tok = Some t \<and> parseIDTokenClaims N (time_Now N o0) t = Inr c
       \<and> claim_Iss c = discovery_Issuer (oidc_discovery p) \<and> config_ClientID (oidc_config p) \<in> set (claim_Aud c)
       \<and> claim_Email c = em \<and> claim_EmailVerified c)
     \<or> (\<exists>c. fetched N (Config_Client N (oidc_config p) tok) (plain_get (UserinfoEndpoint (oidc_discovery p))) decode_idTokenClaims o0 c
       \<and> claim_Email c = em \<and> claim_EmailVerified c)"

lemma fetchUserinfo_Inr:
  assumes "fetchUserinfo N p tok o0 = (Inr u, o1)"
  shows "Userinfo_Email u \<noteq> '''' \<and> (oidc_vouched N p tok o0 (Userinfo_Email u) \<or> AllowUnverifiedEmail (oidc_options p))"
proof -
  let ?c = "Config_Client N (oidc_config p) tok"
  obtain resp o1' where get: "client_Get N ?c (UserinfoEndpoint (oidc_discovery p)) o0 = (Inr resp, o1')" and st: "StatusCode resp = 200"
    using assms by (auto simp: fetchUserinfo_def split: prod.splits sum.splits if_splits)
  with assms obtain c where c: "bind_result (read_json N resp) decode_idTokenClaims = Inr c"
    by (auto simp: fetchUserinfo_def split: sum.splits)
  with assms get st have "u = claims_user c" "checkEmail (oidc_options p) (claim_Email c) (claim_EmailVerified c) = None"
    by (auto simp: fetchUserinfo_def split: option.splits if_splits)
  with client_Get_fetched [OF get st c] show ?thesis by (auto simp: checkEmail_None oidc_vouched_def claims_user_def)
qed

lemma oidc_get:
  assumes "oidc_GetUser N p tok o0 = (Inr u, o1)"
  shows "Userinfo_Email u \<noteq> '''' \<and> (oidc_vouched N p tok o0 (Userinfo_Email u) \<or> AllowUnverifiedEmail (oidc_options p))"
proof (cases "fetchUserinfo N p tok o0 = (Inr u, o1)")
  case True
  then show ?thesis by (rule fetchUserinfo_Inr)
next
  case False
  with assms obtain t c where t: "oauth_id_token tok = Some t" and c: "parseIDTokenClaims N (time_Now N o0) t = Inr c"
    and v: "validateIDTokenClaims p c = None" "checkEmail (oidc_options p) (claim_Email c) (claim_EmailVerified c) = None" "u = claims_user c"
    by (auto simp: oidc_GetUser_def Let_def split: option.splits sum.splits if_splits)
  from v(1) have "claim_Iss c = discovery_Issuer (oidc_discovery p)" "config_ClientID (oidc_config p) \<in> set (claim_Aud c)"
    by (auto simp: validateIDTokenClaims_def split: if_splits)
  with t c v show ?thesis by (auto simp: checkEmail_None oidc_vouched_def claims_user_def)
qed

interpretation oidc: vouching_provider "oidc_Provider N p" "oidc_vouched N p" "AllowUnverifiedEmail (oidc_options p)" for N p
  by unfold_locales (auto simp: oidc_Provider_def dest: oidc_get)

section \<open>ID tokens\<close>

lemma parseIDTokenClaims_encoded:
  assumes "CHR ''.'' \<notin> set hdr" and "CHR ''.'' \<notin> set sig" and "json_parse N payload = Inr j" and "decode_idTokenClaims j = Inr c"
    and "claim_Exp c \<le> 0 \<or> now div Second \<le> claim_Exp c"
  shows "parseIDTokenClaims N now (hdr @ ''.'' @ base64_RawURLEncoding payload @ ''.'' @ sig) = Inr c"
proof -
  have "strings_Split (hdr @ ''.'' @ base64_RawURLEncoding payload @ ''.'' @ sig) CHR ''.'' = [hdr, base64_RawURLEncoding payload, sig]"
    using assms(1,2) base64_no_dot [of payload] by (simp add: strings_Split_append strings_Split_absent)
  with assms(3-5) show ?thesis by (auto simp: parseIDTokenClaims_def base64_roundtrip Let_def)
qed

text \<open>
  C28. An ID token decides who logs in, and only for this client. When the token response carries an ID token
  whose payload encodes claims that have not expired, \<^verbatim>\<open>GetUser\<close> refuses it, without asking the userinfo endpoint, if it was
  issued by another issuer or not for this client; otherwise it returns exactly the subject, e-mail and name of the claims when they
  are complete and the e-mail is acceptable, and only else falls back to the userinfo endpoint.
\<close>

theorem GetUser_reads_id_token:
  assumes "oauth_id_token tok = Some (hdr @ ''.'' @ base64_RawURLEncoding payload @ ''.'' @ sig)"
    and "CHR ''.'' \<notin> set hdr" and "CHR ''.'' \<notin> set sig" and "json_parse N payload = Inr j" and "decode_idTokenClaims j = Inr c"
    and "claim_Exp c \<le> 0 \<or> time_Now N o0 div Second \<le> claim_Exp c"
  shows "if claim_Iss c \<noteq> discovery_Issuer (oidc_discovery p) \<or> config_ClientID (oidc_config p) \<notin> set (claim_Aud c)
    then \<exists>e. oidc_GetUser N p tok o0 = (Inl e, o0)
    else if claim_Sub c \<noteq> '''' \<and> claim_Email c \<noteq> '''' \<and> (claim_EmailVerified c \<or> AllowUnverifiedEmail (oidc_options p))
    then oidc_GetUser N p tok o0 = (Inr \<lparr>Userinfo_ID = claim_Sub c, Userinfo_Email = claim_Email c, Userinfo_Name = claim_Name c\<rparr>, o0)
    else UserinfoEndpoint (oidc_discovery p) \<noteq> '''' \<longrightarrow> oidc_GetUser N p tok o0 = fetchUserinfo N p tok o0"
proof -
  note parse = parseIDTokenClaims_encoded [OF assms(2-6)]
  have ne: "hdr @ ''.'' @ base64_RawURLEncoding payload @ ''.'' @ sig \<noteq> ''''" by simp
  show ?thesis
    using parse ne assms(1)
    by (auto simp: oidc_GetUser_def Let_def validateIDTokenClaims_def checkEmail_None claims_user_def simp del: append_is_Nil_conv)
qed

definition demo_claims_json :: json where
  "demo_claims_json = JObject [(''sub'', JString ''42''), (''email'', JString ''a@x''), (''email_verified'', JString ''true''),
     (''name'', JString ''ann''), (''iss'', JString ''https://idp''), (''aud'', JArray [JString ''other'', JString ''me''])]"

definition demo_oidc :: OIDCProvider where
  "demo_oidc = NewOIDCProvider \<lparr>config_ClientID = ''me'', config_ClientSecret = ''x'', config_RedirectURL = '''', config_Scopes = [],
       config_Endpoint = \<lparr>Endpoint_AuthURL = '''', Endpoint_TokenURL = ''''\<rparr>\<rparr>
     \<lparr>discovery_Issuer = ''https://idp'', AuthorizationEndpoint = ''a'', TokenEndpoint = ''t'', UserinfoEndpoint = '''', RevocationEndpoint = '''',
       AuthorizationResponseIssParameterSupported = True\<rparr> []"

theorem GetUser_reads_id_token_witness:
  "oidc_GetUser (down_net\<lparr>json_parse := (\<lambda>_. Inr demo_claims_json)\<rparr>) demo_oidc
     \<lparr>oauth_AccessToken = ''at'', oauth_RefreshToken = '''', oauth_id_token = Some (''h.'' @ base64_RawURLEncoding ''{}'' @ ''.s'')\<rparr> 0
   = (Inr \<lparr>Userinfo_ID = ''42'', Userinfo_Email = ''a@x'', Userinfo_Name = ''ann''\<rparr>, 0)"
proof -
  let ?N = "down_net\<lparr>json_parse := (\<lambda>_. Inr demo_claims_json)\<rparr>"
  let ?tok = "\<lparr>oauth_AccessToken = ''at'', oauth_RefreshToken = '''', oauth_id_token = Some (''h.'' @ base64_RawURLEncoding ''{}'' @ ''.s'')\<rparr>"
  let ?c = "\<lparr>claim_Sub = ''42'', claim_Email = ''a@x'', claim_EmailVerified = True, claim_Name = ''ann'', claim_Iss = ''https://idp'',
    claim_Aud = [''other'', ''me''], claim_Exp = 0\<rparr>"
  have c: "decode_idTokenClaims demo_claims_json = Inr ?c"
    by (simp add: decode_idTokenClaims_def demo_claims_json_def json_field_def flexibleBool_Unmarshal_def audienceClaim_Unmarshal_def)
  from GetUser_reads_id_token [of ?tok "''h''" "''{}''" "''s''" ?N demo_claims_json ?c 0 demo_oidc] c
  show ?thesis by (simp add: demo_oidc_def NewOIDCProvider_def)
qed

end
