(* ===== verification/OAuth_Client.thy ===== *)
theory OAuth_Client
  imports Oidc
begin

text \<open>
  \<^verbatim>\<open>oauth2/oauthclient/client.go\<close>: the client the login handler uses, over one of the providers. The library
  \<^verbatim>\<open>golang.org/x/oauth2\<close> is the part of the record \<open>net\<close> that builds authorization URLs and exchanges codes.
\<close>

record oauthclient_Config =
  oc_Provider :: string
  oc_ClientID :: string
  oc_ClientSecret :: string
  oc_RedirectURL :: string
  oc_AuthURL :: string
  oc_TokenURL :: string
  oc_UserinfoURL :: string
  oc_RevokeURL :: string
  oc_Scopes :: "string list"

record OIDCConfig =
  oidc_IssuerURL :: string
  oidc_ClientID :: string
  oidc_ClientSecret :: string
  oidc_RedirectURL :: string
  oidc_Scopes :: "string list"

record 'o oauthclient_Client =
  client_config :: oauth2_Config
  client_provider :: "'o Provider"
  authOptions :: "AuthCodeOption list"
  issuer :: string
  requireIssuer :: bool

text \<open>The provider's constructor may overwrite the configuration, which the client shares with it.\<close>

definition oauthclient_New :: "'o net \<Rightarrow> oauthclient_Config \<Rightarrow> (provider_Options \<Rightarrow> provider_Options) list \<Rightarrow> 'o oauthclient_Client" where
  "oauthclient_New N cfg opts =
     (let config = \<lparr>config_ClientID = oc_ClientID cfg, config_ClientSecret = oc_ClientSecret cfg, config_RedirectURL = oc_RedirectURL cfg,
            config_Scopes = oc_Scopes cfg, config_Endpoint = \<lparr>Endpoint_AuthURL = oc_AuthURL cfg, Endpoint_TokenURL = oc_TokenURL cfg\<rparr>\<rparr>
      in case providers_New N (oc_Provider cfg) config (oc_UserinfoURL cfg) (oc_RevokeURL cfg) opts of
           (provider, config') \<Rightarrow>
             \<lparr>client_config = config', client_provider = provider,
              authOptions = (if oc_Provider cfg = GoogleName then [AccessTypeOffline] else []), issuer = '''', requireIssuer = False\<rparr>)"

definition oidc_client :: "'o net \<Rightarrow> OIDCConfig \<Rightarrow> (provider_Options \<Rightarrow> provider_Options) list \<Rightarrow> OIDCDiscovery \<Rightarrow> 'o oauthclient_Client" where
  "oidc_client N cfg opts discovery =
     (let scopes = (if ''openid'' \<in> set (oidc_Scopes cfg) then oidc_Scopes cfg else ''openid'' # oidc_Scopes cfg);
          config = \<lparr>config_ClientID = oidc_ClientID cfg, config_ClientSecret = oidc_ClientSecret cfg, config_RedirectURL = oidc_RedirectURL cfg,
            config_Scopes = scopes,
            config_Endpoint = \<lparr>Endpoint_AuthURL = AuthorizationEndpoint discovery, Endpoint_TokenURL = TokenEndpoint discovery\<rparr>\<rparr>
      in \<lparr>client_config = config, client_provider = oidc_Provider N (NewOIDCProvider config discovery opts),
          authOptions = (if ''offline_access'' \<in> set scopes then [SetAuthURLParam ''prompt'' ''consent''] else []),
          issuer = discovery_Issuer discovery, requireIssuer = AuthorizationResponseIssParameterSupported discovery\<rparr>)"

definition NewOIDC ::
  "'o net \<Rightarrow> (nat \<Rightarrow> go_error option) \<Rightarrow> OIDCConfig \<Rightarrow> (provider_Options \<Rightarrow> provider_Options) list \<Rightarrow> 'o
    \<Rightarrow> ((go_error + 'o oauthclient_Client) \<times> 'o) option" where
  "NewOIDC N ctx cfg opts o0 =
     (case FetchDiscovery N ctx (oidc_IssuerURL cfg) o0 of
        None \<Rightarrow> None
      | Some (Inl err, o1) \<Rightarrow> Some (Inl err, o1)
      | Some (Inr discovery, o1) \<Rightarrow> Some (Inr (oidc_client N cfg opts discovery), o1))"

definition Client_AuthURL :: "'o net \<Rightarrow> 'o oauthclient_Client \<Rightarrow> string \<Rightarrow> string \<Rightarrow> string" where
  "Client_AuthURL N c state verifier =
     Config_AuthCodeURL N (client_config c) state (authOptions c @ [S256ChallengeOption verifier])"

definition Client_ValidateIssuer :: "'o oauthclient_Client \<Rightarrow> string \<Rightarrow> go_error option" where
  "Client_ValidateIssuer c iss =
     (if iss = '''' then (if requireIssuer c then Some (Opaque ''authorization response missing iss parameter'') else None)
      else if issuer c \<noteq> '''' \<and> iss \<noteq> issuer c then Some (Opaque ''authorization response iss mismatch'')
      else None)"

definition Client_Exchange :: "'o net \<Rightarrow> 'o oauthclient_Client \<Rightarrow> string \<Rightarrow> string \<Rightarrow> 'o \<Rightarrow> (go_error + oauth2_Token) \<times> 'o" where
  "Client_Exchange N c code verifier = Config_Exchange N (client_config c) code [VerifierOption verifier]"

definition Client_GetUser :: "'o oauthclient_Client \<Rightarrow> oauth2_Token \<Rightarrow> 'o \<Rightarrow> (go_error + Userinfo) \<times> 'o" where
  "Client_GetUser c = provider_GetUser (client_provider c)"

definition Client_Revoke :: "'o oauthclient_Client \<Rightarrow> oauth2_Token \<Rightarrow> 'o \<Rightarrow> go_error option \<times> 'o" where
  "Client_Revoke c = provider_Revoke (client_provider c)"

section \<open>The contract the clients inherit\<close>

text \<open>What the provider chosen by a name vouches for, and its configuration.\<close>

definition vouched_by :: "'o net \<Rightarrow> string \<Rightarrow> oauth2_Config \<Rightarrow> string \<Rightarrow> oauth2_Token \<Rightarrow> 'o \<Rightarrow> string \<Rightarrow> bool" where
  "vouched_by N name config uURL tok o0 em \<longleftrightarrow>
     (if name = DiscordName then discord_vouched N (fst (NewDiscordProvider N config [])) tok o0 em
      else if name = GitHubName then github_vouched N (fst (NewGitHubProvider N config [])) tok o0 em
      else if name = GoogleName then google_vouched N (fst (NewGoogleProvider N config [])) tok o0 em
      else generic_vouched N (NewGenericProvider config uURL '''' []) tok o0 em)"

lemma providers_New_vouching:
  "vouching_provider (fst (providers_New N name config uURL rURL opts)) (vouched_by N name config uURL)
     (AllowUnverifiedEmail (provider_newOptions opts))"
proof -
  let ?ok = "AllowUnverifiedEmail (provider_newOptions opts)"
  consider "name = DiscordName" | "name = GitHubName" | "name = GoogleName" | "\<not> IsBuiltin name"
    by (auto simp: IsBuiltin_def)
  then show ?thesis
  proof cases
    case 1
    have "vouched_by N name config uURL = discord_vouched N (fst (NewDiscordProvider N config opts))"
      by (simp add: 1 vouched_by_def discord_vouched_def NewDiscordProvider_def Let_def fun_eq_iff)
    with discord.vouching_provider_axioms [of N "fst (NewDiscordProvider N config opts)"] 1 show ?thesis
      by (simp add: providers_New_def NewDiscordProvider_def Let_def)
  next
    case 2
    have "vouched_by N name config uURL = github_vouched N (fst (NewGitHubProvider N config opts))"
      by (simp add: 2 vouched_by_def github_vouched_def NewGitHubProvider_def Let_def fun_eq_iff DiscordName_def GitHubName_def)
    with github.vouching_provider_axioms [of N "fst (NewGitHubProvider N config opts)"] 2 show ?thesis
      by (simp add: providers_New_def NewGitHubProvider_def Let_def DiscordName_def GitHubName_def)
  next
    case 3
    have "vouched_by N name config uURL = google_vouched N (fst (NewGoogleProvider N config opts))"
      by (simp add: 3 vouched_by_def google_vouched_def NewGoogleProvider_def Let_def fun_eq_iff DiscordName_def GitHubName_def GoogleName_def)
    with google.vouching_provider_axioms [of N "fst (NewGoogleProvider N config opts)"] 3 show ?thesis
      by (simp add: providers_New_def NewGoogleProvider_def Let_def DiscordName_def GitHubName_def GoogleName_def)
  next
    case 4
    have "vouched_by N name config uURL = generic_vouched N (NewGenericProvider config uURL rURL opts)"
      using 4 by (simp add: vouched_by_def generic_vouched_def NewGenericProvider_def IsBuiltin_def fun_eq_iff)
    with generic.vouching_provider_axioms [of N "NewGenericProvider config uURL rURL opts"] 4 show ?thesis
      by (simp add: providers_New_def NewGenericProvider_def IsBuiltin_def)
  qed
qed

end
