(* ===== verification/Login_Providers.thy ===== *)
theory Login_Providers
  imports Login_Sessions OAuth_Client
begin

text \<open>
  The login handler over the clients of \<^verbatim>\<open>oauth2/oauthclient\<close>: which e-mail address a session is opened for, and which authorization
  responses are refused.
\<close>

definition Client_OAuth2Client :: "'o net \<Rightarrow> 'o oauthclient_Client \<Rightarrow> 'o OAuth2Client" where
  "Client_OAuth2Client N c = \<lparr>AuthURL = Client_AuthURL N c, ValidateIssuer = Client_ValidateIssuer c,
     Exchange = Client_Exchange N c, GetUser = Client_GetUser c, Revoke = Client_Revoke c\<rparr>"

context session_users begin

text \<open>The user whose session a login opened is the one the client returned for the exchanged token.\<close>

lemma login_user:
  assumes h: "login_db h = Some ODB" "login_users h = UDB" and d: "store_invar (lw_db w)" and b: "b \<noteq> ''''"
    and m: "manager_db (login_jwtManager h) = DB"
    and run: "exchange L h clk b code state device hv w = ((res, err), w')" and ok: "Success res"
  shows "\<exists>v tok o1 (user :: Userinfo) o2 k. Exchange (login_oauth2Client h) code v (lw_oauth w) = (Inr tok, o1)
    \<and> GetUser (login_oauth2Client h) tok o1 = (Inr user, o2)
    \<and> dev (lw_db w) k = None \<and> dev (lw_db w') = (dev (lw_db w))(k \<mapsto> (generateDeviceSecret b, 1))
    \<and> owner (lw_db w') (Userinfo_Email user) k"
proof -
  from run ok obtain v tok o1 user o2 uname d1 pair
    where ex: "Exchange (login_oauth2Client h) code v (lw_oauth w) = (Inr tok, o1)"
      and user: "GetUser (login_oauth2Client h) tok o1 = (Inr user, o2)"
      and name: "login_username UDB (login_options h) user (lw_db w) = (Inr uname, d1)"
      and sess: "login_session L ODB (login_jwtManager h) clk b (Userinfo_Email user) uname device d1 = (Inr pair, lw_db w')"
    by (rule exchange_success) (auto simp: h)
  let ?sec = "generateDeviceSecret b"
  have sec: "?sec \<noteq> ''''" by (rule hex_nonempty [OF b])
  note d1 = username_state [OF d name]
  obtain k d2 where save: "SaveDeviceSecret ODB (Userinfo_Email user) device ?sec d1 = (Inr k, d2)"
    and acc: "GenerateAccess L (login_jwtManager h) (later 2 clk) (RefreshToken pair) uname d2 = (Inr (AccessToken pair), lw_db w')"
    using sess by (auto simp: login_session_def Let_def split: prod.splits sum.splits if_splits)
  have inv1: "store_invar d1" using d1 by simp
  note sv = save_done [OF inv1 sec save] save_state [OF inv1 sec save]
  obtain x where "verifyToken L (login_jwtManager h) (later 2 clk 0) (RefreshToken pair) (RefreshClaimsOf zero_refresh) d2 = (x, lw_db w')"
    using acc by (auto simp: GenerateAccess_def Let_def split: prod.splits sum.splits)
  then have "dev (lw_db w') = dev d2 \<and> owner (lw_db w') = owner d2" using verify_keeps [OF m] sv by blast
  with sv d1 have "dev (lw_db w) k = None \<and> dev (lw_db w') = (dev (lw_db w))(k \<mapsto> (?sec, 1)) \<and> owner (lw_db w') (Userinfo_Email user) k" by simp
  with ex user show ?thesis by blast
qed

end

lemma oauthclient_New_vouching:
  assumes "c = oauthclient_New N cfg opts"
    and "config = \<lparr>config_ClientID = oc_ClientID cfg, config_ClientSecret = oc_ClientSecret cfg, config_RedirectURL = oc_RedirectURL cfg,
            config_Scopes = oc_Scopes cfg, config_Endpoint = \<lparr>Endpoint_AuthURL = oc_AuthURL cfg, Endpoint_TokenURL = oc_TokenURL cfg\<rparr>\<rparr>"
  shows "vouching_provider (client_provider c) (vouched_by N (oc_Provider cfg) config (oc_UserinfoURL cfg)) (AllowUnverifiedEmail (provider_newOptions opts))"
  using providers_New_vouching [of N "oc_Provider cfg" config "oc_UserinfoURL cfg" "oc_RevokeURL cfg" opts]
  by (auto simp: assms oauthclient_New_def Let_def split: prod.splits)

text \<open>What a client vouches for, in terms of its own configuration.\<close>

definition client_vouched :: "'o net \<Rightarrow> string \<Rightarrow> string \<Rightarrow> oauthclient_Config \<Rightarrow> oauth2_Token \<Rightarrow> 'o \<Rightarrow> string \<Rightarrow> bool" where
  "client_vouched N name uURL cfg = vouched_by N name
     \<lparr>config_ClientID = oc_ClientID cfg, config_ClientSecret = oc_ClientSecret cfg, config_RedirectURL = oc_RedirectURL cfg,
      config_Scopes = oc_Scopes cfg, config_Endpoint = \<lparr>Endpoint_AuthURL = oc_AuthURL cfg, Endpoint_TokenURL = oc_TokenURL cfg\<rparr>\<rparr> uURL"

definition oidc_client_provider :: "OIDCConfig \<Rightarrow> OIDCDiscovery \<Rightarrow> (provider_Options \<Rightarrow> provider_Options) list \<Rightarrow> 'o net \<Rightarrow> OIDCProvider" where
  "oidc_client_provider cfg doc opts N = NewOIDCProvider (client_config (oidc_client N cfg opts doc)) doc opts"

lemma oidc_client_vouching:
  "vouching_provider (client_provider (oidc_client N cfg opts doc)) (oidc_vouched N (oidc_client_provider cfg doc opts N))
    (AllowUnverifiedEmail (provider_newOptions opts))"
proof -
  have "client_provider (oidc_client N cfg opts doc) = oidc_Provider N (oidc_client_provider cfg doc opts N)"
    "oidc_options (oidc_client_provider cfg doc opts N) = provider_newOptions opts"
    by (simp_all add: oidc_client_provider_def oidc_client_def NewOIDCProvider_def Let_def)
  with oidc.vouching_provider_axioms [of N "oidc_client_provider cfg doc opts N"] show ?thesis by simp
qed

text \<open>
  C10. A session is opened only for an e-mail address the identity provider vouches for. With any client of the package, a built-in or generic provider
  or OpenID Connect, a login that succeeds opens its session for the address \<^verbatim>\<open>GetUser\<close> returned for the exchanged token, and the address is not empty,
  whether or not unverified addresses are allowed. Unless they are allowed, an answer of the provider for that token
  marks the address as verified, for every provider but GitHub: for GitHub the address is that of the public profile, which the code takes as it is although the
  documentation asks for a verified one, or the primary address of the account, which has to be verified. The random source gives bytes. The cache is either of the two; as everywhere under
  \<open>any_invar\<close>, a database call that reports an error took no effect, and Redis, if it is the cache, can be reached.
\<close>

theorem login_binds_vouched_email:
  assumes "c = oauthclient_New N cfg opts \<and> V = client_vouched N (oc_Provider cfg) (oc_UserinfoURL cfg) cfg
      \<or> c = oidc_client N ocfg opts doc \<and> V = oidc_vouched N (oidc_client_provider ocfg doc opts N)"
    and "login_oauth2Client h = Client_OAuth2Client N c"
    and "login_db h = Some (CachedDB_DB any_SecretCache)" and "login_users h = Store_UsersDB st"
    and "manager_db (login_jwtManager h) = CachedDB_methods any_SecretCache"
    and "any_invar (lw_db w)" and "b \<noteq> ''''"
    and "exchange L h clk b code state device hv w = ((res, err), w')" and "Success res"
  shows "\<exists>tok o1 user o2 k v. Client_Exchange N c code v (lw_oauth w) = (Inr tok, o1) \<and> Client_GetUser c tok o1 = (Inr user, o2)
    \<and> Userinfo_Email user \<noteq> '''' \<and> (V tok o1 (Userinfo_Email user) \<or> AllowUnverifiedEmail (provider_newOptions opts))
    \<and> cdb_dev (lw_db w) k = None \<and> cdb_dev (lw_db w') = (cdb_dev (lw_db w))(k \<mapsto> (generateDeviceSecret b, 1))
    \<and> cdb_owner (lw_db w') (Userinfo_Email user) k"
proof -
  have V: "vouching_provider (client_provider c) V (AllowUnverifiedEmail (provider_newOptions opts))"
    using assms(1) oauthclient_New_vouching [of c N cfg opts, OF _ refl] oidc_client_vouching [of N ocfg opts doc]
    by (auto simp: client_vouched_def)
  obtain v tok o1 user o2 k where e: "Exchange (login_oauth2Client h) code v (lw_oauth w) = (Inr tok, o1)"
    and u: "GetUser (login_oauth2Client h) tok o1 = (Inr user, o2)" and k: "cdb_dev (lw_db w) k = None"
      "cdb_dev (lw_db w') = (cdb_dev (lw_db w))(k \<mapsto> (generateDeviceSecret b, 1))" "cdb_owner (lw_db w') (Userinfo_Email user) k"
    using any.handlers.login_user [OF assms(3,4,6,7,5,8,9)] by blast
  have "provider_GetUser (client_provider c) tok o1 = (Inr user, o2)" "Client_Exchange N c code v (lw_oauth w) = (Inr tok, o1)"
    "Client_GetUser c tok o1 = (Inr user, o2)"
    using e u by (simp_all add: assms(2) Client_OAuth2Client_def Client_GetUser_def)
  with vouching_provider.get_email [OF V] vouching_provider.get_vouched [OF V] k show ?thesis by blast
qed

text \<open>A provider that answers the code \<^verbatim>\<open>c\<close> with an ID token and serves one discovery document.\<close>

definition idp_token :: oauth2_Token where
  "idp_token = \<lparr>oauth_AccessToken = ''at'', oauth_RefreshToken = '''', oauth_id_token = Some (''h.'' @ base64_RawURLEncoding ''{}'' @ ''.s'')\<rparr>"

definition idp_net :: "nat net" where
  "idp_net = down_net\<lparr>json_parse := (\<lambda>_. Inr demo_claims_json), Config_Exchange := (\<lambda>_ _ _ n. (Inr idp_token, n))\<rparr>"

definition idp_config :: OIDCConfig where
  "idp_config = \<lparr>oidc_IssuerURL = ''https://idp'', oidc_ClientID = ''me'', oidc_ClientSecret = ''x'', oidc_RedirectURL = '''', oidc_Scopes = []\<rparr>"

definition idp_document :: OIDCDiscovery where
  "idp_document = \<lparr>discovery_Issuer = ''https://idp'', AuthorizationEndpoint = ''a'', TokenEndpoint = ''t'', UserinfoEndpoint = '''',
     RevocationEndpoint = '''', AuthorizationResponseIssParameterSupported = True\<rparr>"

lemma idp_user:
  "provider_GetUser (client_provider (oidc_client idp_net idp_config [] idp_document)) idp_token n
    = (Inr \<lparr>Userinfo_ID = ''42'', Userinfo_Email = ''a@x'', Userinfo_Name = ''ann''\<rparr>, n)"
proof -
  let ?c = "\<lparr>claim_Sub = ''42'', claim_Email = ''a@x'', claim_EmailVerified = True, claim_Name = ''ann'', claim_Iss = ''https://idp'',
    claim_Aud = [''other'', ''me''], claim_Exp = 0\<rparr>"
  have c: "decode_idTokenClaims demo_claims_json = Inr ?c"
    by (simp add: decode_idTokenClaims_def demo_claims_json_def json_field_def flexibleBool_Unmarshal_def audienceClaim_Unmarshal_def)
  have "parseIDTokenClaims idp_net now (''h'' @ ''.'' @ base64_RawURLEncoding ''{}'' @ ''.'' @ ''s'') = Inr ?c" for now
    by (rule parseIDTokenClaims_encoded [OF _ _ _ c]) (simp_all add: idp_net_def)
  then show ?thesis
    by (simp add: oidc_client_def oidc_Provider_def oidc_GetUser_def idp_token_def NewOIDCProvider_def validateIDTokenClaims_def
        idp_config_def idp_document_def checkEmail_def claims_user_def Let_def)
qed

theorem login_binds_vouched_email_witness:
  "\<exists>res err w' k. exchange login_lib (demo_login (Some (CachedDB_DB demo_cache)) demo_cache
        (Client_OAuth2Client idp_net (oidc_client idp_net idp_config [] idp_document))) (\<lambda>_. 0) ''a'' ''c'' ''s'' ''dev'' ''v''
      \<lparr>lw_db = demo_start, lw_states = demo_states, lw_oauth = 0\<rparr> = ((res, err), w')
    \<and> (\<exists>em. em \<noteq> '''' \<and> cdb_owner (lw_db w') em k)"
proof -
  let ?c = "oidc_client idp_net idp_config [] idp_document"
  let ?h = "demo_login (Some (CachedDB_DB demo_cache)) demo_cache (Client_OAuth2Client idp_net ?c)"
  let ?w = "\<lparr>lw_db = demo_start, lw_states = demo_states, lw_oauth = 0\<rparr>"
  have cl: "Exchange (Client_OAuth2Client idp_net ?c) ''c'' ''v'' 0 = (Inr idp_token, 0)"
    "GetUser (Client_OAuth2Client idp_net ?c) idp_token 0 = (Inr \<lparr>Userinfo_ID = ''42'', Userinfo_Email = ''a@x'', Userinfo_Name = ''ann''\<rparr>, 0)"
    using idp_user by (simp_all add: Client_OAuth2Client_def Client_Exchange_def Client_GetUser_def idp_net_def)
  obtain res w' where run: "exchange login_lib ?h (\<lambda>_. 0) ''a'' ''c'' ''s'' ''dev'' ''v'' ?w = ((res, None), w')" "Success res"
    using any.demo_opened_with [OF demo_any_invar(1) cl] by (metis ExchangeResponse.select_convs(1))
  have facts: "login_oauth2Client ?h = Client_OAuth2Client idp_net ?c"
    "login_db ?h = Some (CachedDB_DB demo_cache)"
    "login_users ?h = Store_UsersDB \<lparr>external = False, selectUsernameQuery = ''q''\<rparr>"
    "manager_db (login_jwtManager ?h) = CachedDB_methods demo_cache"
    "any_invar (lw_db ?w)" "''a'' \<noteq> ''''"
    using demo_any_invar(1) by (simp_all add: demo_manager_facts)
  from login_binds_vouched_email [OF disjI2 [OF conjI [OF refl refl]] facts run] run(1) show ?thesis by blast
qed

text \<open>
  C22. An authorization response of another provider is refused before anything is redeemed: with an OpenID Connect client, a callback whose \<^verbatim>\<open>iss\<close>
  parameter is not the discovered issuer, or lacks it where the provider announces it, is answered with 400, and
  neither the pending logins nor the database, the provider or the flight group is touched.
\<close>

theorem Callback_refuses_other_issuer:
  assumes "NewOIDC N ctx cfg opts o0 = Some (Inr c, o1)" and "login_oauth2Client h = Client_OAuth2Client N c"
    and "FormValue r ''state'' \<noteq> ''''"
    and "FormValue r ''iss'' \<noteq> issuer c" and "FormValue r ''iss'' \<noteq> '''' \<or> requireIssuer c"
  shows "login_Callback L T sum256 lock h clk b r new_writer g s
    = (response_JSON False (MsgText ''Invalid issuer'') StatusBadRequest new_writer, g, s)"
proof -
  obtain doc where doc: "FetchDiscovery N ctx (oidc_IssuerURL cfg) o0 = Some (Inr doc, o1)" and c: "c = oidc_client N cfg opts doc"
    using assms(1) by (auto simp: NewOIDC_def split: option.splits sum.splits)
  have "discovery_Issuer doc \<noteq> ''''"
    using doc unfolding FetchDiscovery_def by (rule fetchLoop_issuer)
  then have "issuer c \<noteq> ''''" by (simp add: c oidc_client_def Let_def)
  with assms(4,5) have "ValidateIssuer (login_oauth2Client h) (FormValue r ''iss'') \<noteq> None"
    by (auto simp: assms(2) Client_OAuth2Client_def Client_ValidateIssuer_def)
  with assms(3) show ?thesis by (simp add: login_Callback_def Let_def)
qed

text \<open>A network that serves the discovery document of the provider.\<close>

definition discovery_net :: "nat net" where
  "discovery_net = down_net\<lparr>DefaultClient := (\<lambda>req n. (Inr \<lparr>StatusCode = 200, resp_Body = Inr ''{}''\<rparr>, Suc n)),
     json_parse := (\<lambda>_. Inr (JObject [(''issuer'', JString ''https://idp''), (''authorization_endpoint'', JString ''a''),
       (''token_endpoint'', JString ''t''), (''authorization_response_iss_parameter_supported'', JBool True)]))\<rparr>"

theorem Callback_refuses_other_issuer_witness:
  "\<exists>c. NewOIDC discovery_net (\<lambda>_. None) idp_config [] 0 = Some (Inr c, 1)
    \<and> (\<forall>L T sum256 lock clk b g s. login_Callback L T sum256 lock (demo_login None memory_SecretCache (Client_OAuth2Client discovery_net c)) clk b
        callback_request new_writer g s = (response_JSON False (MsgText ''Invalid issuer'') StatusBadRequest new_writer, g, s))"
proof -
  let ?c = "oidc_client discovery_net idp_config [] idp_document"
  have "FetchDiscovery discovery_net (\<lambda>_. None) ''https://idp'' 0 = Some (Inr idp_document, 1)"
    unfolding FetchDiscovery_def
    by (subst fetchLoop.simps) (simp add: tryFetchDiscovery_def checkDiscovery_def discovery_net_def down_net_def decode_OIDCDiscovery_def
        json_field_def idp_document_def)
  then have new: "NewOIDC discovery_net (\<lambda>_. None) idp_config [] 0 = Some (Inr ?c, 1)"
    by (simp add: NewOIDC_def idp_config_def)
  have "FormValue callback_request ''state'' \<noteq> ''''" "FormValue callback_request ''iss'' \<noteq> issuer ?c"
    "FormValue callback_request ''iss'' \<noteq> '''' \<or> requireIssuer ?c"
    by (simp_all add: callback_request_def FormValue_def oidc_client_def idp_document_def Let_def)
  from Callback_refuses_other_issuer [OF new demo_login_facts(5) this] new show ?thesis by blast
qed

end
