(* ===== verification/Durations.thy ===== *)
theory Durations
  imports Go_Strings
begin

text \<open>
  \<^verbatim>\<open>server/internal/config/duration.go\<close>: durations such as \<^verbatim>\<open>1d12h\<close> in the environment. The
  arithmetic on \<^verbatim>\<open>time.Duration\<close> is that of 64-bit integers, with the wrap-around written out
  (\<open>wrap64\<close>). The grammar of the accepted texts is \<open>segments\<close>, and \<open>duration_spec\<close> says what such a text denotes.
\<close>

definition wrap64 :: "int \<Rightarrow> int" where
  "wrap64 x = (x + 2 ^ 63) mod 2 ^ 64 - 2 ^ 63"

lemma wrap64_id: "MinInt64 \<le> x \<Longrightarrow> x \<le> MaxInt64 \<Longrightarrow> wrap64 x = x"
  by (simp add: wrap64_def int64_bounds)

section \<open>The code\<close>

definition durationUnits :: "char \<Rightarrow> duration option" where
  "durationUnits c =
     (if c = CHR ''d'' then Some (24 * Hour) else if c = CHR ''h'' then Some Hour
      else if c = CHR ''m'' then Some Minute else if c = CHR ''s'' then Some Second else None)"

definition isDigit :: "char \<Rightarrow> bool" where
  "isDigit c \<longleftrightarrow> byte_of CHR ''0'' \<le> byte_of c \<and> byte_of c \<le> byte_of CHR ''9''"

fun isDigits :: "string \<Rightarrow> bool" where
  "isDigits [] = True"
| "isDigits (c # s) = (if \<not> isDigit c then False else isDigits s)"

definition invalid_duration :: "string \<Rightarrow> go_error" where
  "invalid_duration what = Wrapped what ErrInvalidDuration"

definition multiplyDuration :: "string \<Rightarrow> duration \<Rightarrow> string \<Rightarrow> go_error + duration" where
  "multiplyDuration digits unit original =
     (case strconv_ParseInt digits of
        Inl _ \<Rightarrow> Inl (invalid_duration (original @ '' is out of range''))
      | Inr n \<Rightarrow>
          if n > MaxInt64 div unit then Inl (invalid_duration (original @ '' is out of range''))
          else Inr (wrap64 (n * unit)))"

text \<open>The inner loop: the index of the first character that is not a digit.\<close>

fun digitsEnd :: "string \<Rightarrow> nat" where
  "digitsEnd [] = 0"
| "digitsEnd (c # s) = (if isDigit c then Suc (digitsEnd s) else 0)"

function parseSegments :: "string \<Rightarrow> duration \<Rightarrow> string \<Rightarrow> go_error + duration" where
  "parseSegments val acc rest =
     (if rest = '''' then Inr acc
      else let e = digitsEnd rest
        in if e = 0 \<or> e = length rest then Inl (invalid_duration (val @ '' must be a sequence of <integer><unit>''))
           else case durationUnits (rest ! e) of
             None \<Rightarrow> Inl (invalid_duration (val @ '' has unknown unit''))
           | Some unit \<Rightarrow>
               (case multiplyDuration (take e rest) unit val of
                  Inl err \<Rightarrow> Inl err
                | Inr part \<Rightarrow>
                    if acc > wrap64 (MaxInt64 - part) then Inl (invalid_duration (val @ '' is out of range''))
                    else parseSegments val (wrap64 (acc + part)) (drop (e + 1) rest)))"
  by pat_completeness auto
termination
  by (relation "measure (\<lambda>(val, acc, rest). length rest)") auto

declare parseSegments.simps [simp del]

definition parseDuration :: "unicode \<Rightarrow> string \<Rightarrow> duration \<Rightarrow> go_error + duration" where
  "parseDuration U val bareUnit =
     (let normalized = strings_ToLower U (strings_TrimSpace U val)
      in if normalized = '''' then Inl (invalid_duration ''empty value'')
         else if isDigits normalized
           then (if bareUnit = 0 then Inl (invalid_duration (val @ '' is missing a unit''))
                 else multiplyDuration normalized bareUnit val)
         else parseSegments val 0 normalized)"

section \<open>The grammar\<close>

text \<open>A segment is a numeral and the character of its unit.\<close>

type_synonym segment = "string \<times> char"

definition segment_ok :: "segment \<Rightarrow> bool" where
  "segment_ok seg \<longleftrightarrow> fst seg \<noteq> '''' \<and> list_all is_digit (fst seg) \<and> durationUnits (snd seg) \<noteq> None"

definition segment_text :: "segment \<Rightarrow> string" where
  "segment_text seg = fst seg @ [snd seg]"

definition segment_value :: "segment \<Rightarrow> int" where
  "segment_value seg = int (digits_val (fst seg)) * the (durationUnits (snd seg))"

definition segments_value :: "segment list \<Rightarrow> int" where
  "segments_value segs = sum_list (map segment_value segs)"

lemma isDigit_is_digit [simp]: "isDigit c = is_digit c"
  by (auto simp: isDigit_def is_digit_def byte_of_def)

lemma isDigits_all: "isDigits s \<longleftrightarrow> list_all is_digit s"
  by (induction s) auto

lemma digitsEnd_takeWhile: "digitsEnd s = length (takeWhile is_digit s)"
  by (induction s) auto

lemma take_digitsEnd: "take (digitsEnd s) s = takeWhile is_digit s"
  by (induction s) auto

lemma unit_positive: "durationUnits c = Some u \<Longrightarrow> 0 < u \<and> u \<le> MaxInt64"
  by (auto simp: durationUnits_def time_units MaxInt64_def split: if_splits)

lemma unit_not_digit: "durationUnits c = Some u \<Longrightarrow> \<not> is_digit c"
  by (auto simp: durationUnits_def is_digit_def byte_of_def split: if_splits)

lemma digitsEnd_segment:
  assumes "segment_ok seg"
  shows "digitsEnd (segment_text seg @ rest) = length (fst seg)"
proof -
  have "takeWhile is_digit (fst seg @ snd seg # rest) = fst seg"
    using assms unit_not_digit by (auto simp: segment_ok_def list_all_iff takeWhile_append)
  then show ?thesis by (simp add: digitsEnd_takeWhile segment_text_def)
qed

lemma div_mult_le_int:
  assumes "0 < (u::int)" and "n \<le> m div u"
  shows "n * u \<le> m"
proof -
  have "n * u \<le> (m div u) * u" using assms by (simp add: mult_right_mono)
  also have "\<dots> \<le> m" using assms(1) pos_mod_sign [of u m] minus_mod_eq_div_mult [of m u] by linarith
  finally show ?thesis .
qed

text \<open>A numeral times a unit, when it fits; otherwise the error.\<close>

lemma multiplyDuration_exact:
  assumes "s \<noteq> ''''" and "list_all is_digit s" and "0 < u"
  shows "multiplyDuration s u val =
    (if int (digits_val s) * u \<le> MaxInt64 then Inr (int (digits_val s) * u) else Inl (invalid_duration (val @ '' is out of range'')))"
proof -
  let ?n = "int (digits_val s)"
  have fits: "?n * u \<le> MaxInt64 \<longleftrightarrow> ?n \<le> MaxInt64 div u"
    using zdiv_mono1 [of "?n * u" MaxInt64 u] assms(3) div_mult_le_int [of u ?n MaxInt64] by auto
  have small: "?n \<le> MaxInt64" if "?n * u \<le> MaxInt64"
    using that assms(3) mult_le_cancel_left1 [of ?n u] by (smt (verit) mult_less_cancel_left2 of_nat_0_le_iff)
  have "MinInt64 \<le> ?n * u" using assms(3) by (simp add: MinInt64_def order_trans [of _ 0])
  then show ?thesis
    using fits small wrap64_id [of "?n * u"] by (auto simp: multiplyDuration_def ParseInt_digits [OF assms(1,2)])
qed

lemma segment_value_nonneg: "segment_ok seg \<Longrightarrow> 0 \<le> segment_value seg"
  using unit_positive by (fastforce simp: segment_ok_def segment_value_def)

lemma segments_value_nonneg: "list_all segment_ok segs \<Longrightarrow> 0 \<le> segments_value segs"
  by (induction segs) (auto simp: segments_value_def dest: segment_value_nonneg)

lemma parseSegments_step:
  assumes "segment_ok seg" and "0 \<le> acc" and "acc \<le> MaxInt64"
  shows "parseSegments val acc (segment_text seg @ rest) =
    (if acc + segment_value seg \<le> MaxInt64 then parseSegments val (acc + segment_value seg) rest
     else Inl (invalid_duration (val @ '' is out of range'')))"
proof -
  let ?t = "segment_text seg @ rest"
  from assms(1) obtain u where u: "durationUnits (snd seg) = Some u" and num: "fst seg \<noteq> ''''" "list_all is_digit (fst seg)"
    by (auto simp: segment_ok_def)
  have e: "digitsEnd ?t = length (fst seg)" by (rule digitsEnd_segment [OF assms(1)])
  have parts: "?t ! length (fst seg) = snd seg" "take (length (fst seg)) ?t = fst seg" "drop (length (fst seg) + 1) ?t = rest"
    "length (fst seg) \<noteq> length ?t" "?t \<noteq> ''''"
    by (simp_all add: segment_text_def)
  have v: "segment_value seg = int (digits_val (fst seg)) * u" "0 \<le> segment_value seg"
    using segment_value_nonneg [OF assms(1)] by (simp_all add: segment_value_def u)
  have mult: "multiplyDuration (fst seg) u val =
      (if segment_value seg \<le> MaxInt64 then Inr (segment_value seg) else Inl (invalid_duration (val @ '' is out of range'')))"
    using multiplyDuration_exact [OF num, of u val] unit_positive [OF u] v(1) by simp
  have w1: "wrap64 (MaxInt64 - segment_value seg) = MaxInt64 - segment_value seg" if "segment_value seg \<le> MaxInt64"
    using that v(2) by (intro wrap64_id) (simp_all add: int64_bounds)
  have w2: "wrap64 (acc + segment_value seg) = acc + segment_value seg" if "acc + segment_value seg \<le> MaxInt64"
    using that v(2) assms(2) by (intro wrap64_id) (simp_all add: int64_bounds)
  have "parseSegments val acc ?t = (case multiplyDuration (fst seg) u val of Inl err \<Rightarrow> Inl err
      | Inr part \<Rightarrow> if acc > wrap64 (MaxInt64 - part) then Inl (invalid_duration (val @ '' is out of range''))
          else parseSegments val (wrap64 (acc + part)) rest)"
    using num(1) u by (subst parseSegments.simps) (simp only: e parts Let_def, simp)
  also have "\<dots> = (if acc + segment_value seg \<le> MaxInt64 then parseSegments val (acc + segment_value seg) rest
     else Inl (invalid_duration (val @ '' is out of range'')))"
    using mult w1 w2 v(2) assms(2,3) by auto
  finally show ?thesis .
qed

text \<open>On a sequence of segments the loop returns the sum of their values, or the range error.\<close>

lemma parseSegments_segments:
  assumes "list_all segment_ok segs" and "0 \<le> acc" and "acc \<le> MaxInt64"
  shows "parseSegments val acc (concat (map segment_text segs)) =
    (if acc + segments_value segs \<le> MaxInt64 then Inr (acc + segments_value segs)
     else Inl (invalid_duration (val @ '' is out of range'')))"
  using assms
proof (induction segs arbitrary: acc)
  case Nil
  then show ?case by (subst parseSegments.simps) (simp add: segments_value_def)
next
  case (Cons seg segs)
  have nn: "0 \<le> segment_value seg" "0 \<le> segments_value segs"
    using Cons.prems(1) segment_value_nonneg segments_value_nonneg by auto
  have "segments_value (seg # segs) = segment_value seg + segments_value segs" by (simp add: segments_value_def)
  with Cons nn show ?case by (auto simp: parseSegments_step)
qed

text \<open>A text the loop accepts is a sequence of segments.\<close>

lemma parseSegments_grammar:
  assumes "parseSegments val acc rest = Inr d"
  shows "\<exists>segs. list_all segment_ok segs \<and> rest = concat (map segment_text segs)"
  using assms
proof (induction val acc rest rule: parseSegments.induct)
  case (1 val acc rest)
  show ?case
  proof (cases "rest = ''''")
    case True
    then show ?thesis by (intro exI [of _ "[]"]) simp
  next
    case False
    let ?e = "digitsEnd rest"
    from 1(2) False obtain u part where e: "?e \<noteq> 0" "?e \<noteq> length rest" and u: "durationUnits (rest ! ?e) = Some u"
      and part: "multiplyDuration (take ?e rest) u val = Inr part" and le: "\<not> acc > wrap64 (MaxInt64 - part)"
      and rec: "parseSegments val (wrap64 (acc + part)) (drop (?e + 1) rest) = Inr d"
      by (subst (asm) parseSegments.simps) (auto simp: Let_def split: if_splits option.splits sum.splits)
    have "\<not> (?e = 0 \<or> ?e = length rest)" using e by blast
    from 1(1) [OF False refl this u part le rec] obtain segs
      where segs: "list_all segment_ok segs" "drop (?e + 1) rest = concat (map segment_text segs)" by blast
    have lt: "?e < length rest" using e(2) by (simp add: digitsEnd_takeWhile length_takeWhile_le le_neq_implies_less)
    have ne: "takeWhile is_digit rest \<noteq> []" using e(1) by (simp add: digitsEnd_takeWhile)
    have seg: "segment_ok (take ?e rest, rest ! ?e)"
      using ne u set_takeWhileD [of _ is_digit rest] by (auto simp: segment_ok_def list_all_iff take_digitsEnd)
    have "rest = segment_text (take ?e rest, rest ! ?e) @ concat (map segment_text segs)"
      using segs(2) id_take_nth_drop [OF lt] by (simp add: segment_text_def)
    with seg segs(1) show ?thesis by (intro exI [of _ "(take ?e rest, rest ! ?e) # segs"]) simp
  qed
qed

section \<open>Properties\<close>

text \<open>
  What a value of the environment denotes: a bare numeral counts in the unit of the setting, where
  there is one; otherwise the text is a non-empty sequence of numerals with units and denotes their sum.
  Values above the largest 64-bit integer denote nothing.
\<close>

definition duration_spec :: "string \<Rightarrow> duration \<Rightarrow> duration \<Rightarrow> bool" where
  "duration_spec t bareUnit d \<longleftrightarrow> d \<le> MaxInt64
     \<and> (t \<noteq> '''' \<and> list_all is_digit t \<and> bareUnit \<noteq> 0 \<and> d = int (digits_val t) * bareUnit
       \<or> (\<exists>segs. segs \<noteq> [] \<and> list_all segment_ok segs \<and> t = concat (map segment_text segs) \<and> d = segments_value segs))"

lemma segments_not_digits:
  assumes "list_all segment_ok segs" and "segs \<noteq> []"
  shows "concat (map segment_text segs) \<noteq> '''' \<and> \<not> list_all is_digit (concat (map segment_text segs))"
  using assms unit_not_digit by (cases segs) (auto simp: segment_text_def segment_ok_def)

lemma parseDuration_error: "parseDuration U val bareUnit = Inl e \<Longrightarrow> errors_Is e ErrInvalidDuration"
proof -
  have m: "multiplyDuration s u v = Inl e \<Longrightarrow> errors_Is e ErrInvalidDuration" for s u v
    by (auto simp: multiplyDuration_def invalid_duration_def split: sum.splits if_splits)
  have "parseSegments v acc rest = Inl e \<Longrightarrow> errors_Is e ErrInvalidDuration" for v acc rest
  proof (induction v acc rest rule: parseSegments.induct)
    case (1 v acc rest)
    from 1(2) show ?case
      by (subst (asm) parseSegments.simps)
        (auto simp: Let_def invalid_duration_def dest: m 1(1) split: if_splits option.splits sum.splits)
  qed
  with m show "parseDuration U val bareUnit = Inl e \<Longrightarrow> errors_Is e ErrInvalidDuration"
    by (auto simp: parseDuration_def Let_def invalid_duration_def split: if_splits)
qed

lemma parseDuration_exact:
  assumes "0 \<le> bareUnit"
  shows "parseDuration U val bareUnit = Inr d \<longleftrightarrow> duration_spec (strings_ToLower U (strings_TrimSpace U val)) bareUnit d"
proof -
  let ?t = "strings_ToLower U (strings_TrimSpace U val)"
  show ?thesis
  proof (cases "?t \<noteq> '''' \<and> \<not> list_all is_digit ?t")
    case True
    then have run: "parseDuration U val bareUnit = parseSegments val 0 ?t"
      by (simp add: parseDuration_def Let_def isDigits_all)
    show ?thesis
    proof (cases "\<exists>segs. list_all segment_ok segs \<and> ?t = concat (map segment_text segs)")
      case yes: True
      then obtain segs where segs: "list_all segment_ok segs" "?t = concat (map segment_text segs)" by blast
      have "parseSegments val 0 ?t = Inr d \<longleftrightarrow> d = segments_value segs \<and> d \<le> MaxInt64"
        unfolding segs(2) using parseSegments_segments [OF segs(1), of 0 val] by (auto simp: MaxInt64_def)
      moreover have "parseSegments val 0 ?t = Inr d" if sp: "duration_spec ?t bareUnit d"
      proof -
        from sp True obtain segs' where "list_all segment_ok segs'" "?t = concat (map segment_text segs')" "d = segments_value segs'" "d \<le> MaxInt64"
          unfolding duration_spec_def by blast
        with parseSegments_segments [of segs' 0 val] show ?thesis by (simp add: MaxInt64_def)
      qed
      moreover have "duration_spec ?t bareUnit d" if "d = segments_value segs" "d \<le> MaxInt64"
        unfolding duration_spec_def using that segs True by (intro conjI disjI2 exI [of _ segs]) auto
      ultimately show ?thesis unfolding run by blast
    next
      case False
      with True run parseSegments_grammar [of val 0 ?t d] show ?thesis by (auto simp: duration_spec_def)
    qed
  next
    case False
    have nosegs: "\<not> (\<exists>segs. segs \<noteq> [] \<and> list_all segment_ok segs \<and> ?t = concat (map segment_text segs))"
      using False segments_not_digits by metis
    show ?thesis
    proof (cases "?t = '''' \<or> bareUnit = 0")
      case True
      with False nosegs show ?thesis by (auto simp: parseDuration_def duration_spec_def Let_def isDigits_all)
    next
      case bare: False
      with False assms have "parseDuration U val bareUnit = multiplyDuration ?t bareUnit val" "0 < bareUnit"
        by (auto simp: parseDuration_def Let_def isDigits_all)
      with bare False nosegs multiplyDuration_exact [of ?t bareUnit val] show ?thesis by (auto simp: duration_spec_def)
    qed
  qed
qed

text \<open>
  C26. \<^verbatim>\<open>parseDuration\<close> implements the grammar of durations exactly: it returns a duration if and only if the
  trimmed, lower-cased text denotes it, and every failure is an \<^verbatim>\<open>ErrInvalidDuration\<close>; so no
  text is accepted with a value that wrapped around 64 bits, the sum of the segments included.
\<close>

theorem parseDuration_implements_grammar:
  assumes "0 \<le> bareUnit"
  shows "(parseDuration U val bareUnit = Inr d \<longleftrightarrow> duration_spec (strings_ToLower U (strings_TrimSpace U val)) bareUnit d)
    \<and> (\<forall>e. parseDuration U val bareUnit = Inl e \<longrightarrow> errors_Is e ErrInvalidDuration)"
  using parseDuration_exact [OF assms] parseDuration_error by blast

theorem parseDuration_implements_grammar_witness:
  "parseDuration \<lparr>uni_ToLower = id, uni_TrimSpace = id, uni_EqualFold = (=)\<rparr> '' 1D12h '' 0 = Inr (36 * Hour)"
proof -
  let ?U = "\<lparr>uni_ToLower = id, uni_TrimSpace = id, uni_EqualFold = (=)\<rparr>"
  have t: "strings_ToLower ?U (strings_TrimSpace ?U '' 1D12h '') = ''1d12h''"
    by code_simp
  have "duration_spec ''1d12h'' 0 (36 * Hour)"
    unfolding duration_spec_def
  proof (intro conjI disjI2 exI [of _ "[(''1'', CHR ''d''), (''12'', CHR ''h'')]"])
    show "list_all segment_ok [(''1'', CHR ''d''), (''12'', CHR ''h'')]"
      by (simp add: segment_ok_def durationUnits_def is_digit_def byte_of_def)
    show "36 * Hour = segments_value [(''1'', CHR ''d''), (''12'', CHR ''h'')]"
      by (simp add: segments_value_def segment_value_def durationUnits_def digits_val_def byte_of_def time_units)
  qed (simp_all add: segment_text_def time_units MaxInt64_def)
  with parseDuration_implements_grammar [of 0 ?U "'' 1D12h ''" "36 * Hour"] t show ?thesis by simp
qed

end
