(* ===== verification/Schema.thy ===== *)
theory Schema
  imports Go_Strings
begin

text \<open>
  \<^verbatim>\<open>database/schema/schema.go\<close>: where the device sessions' foreign key points, from a setting such as
  \<^verbatim>\<open>auth.users(email):citext\<close>, and the text of the schema for it. The quoting of identifiers is that of the
  library pgx, a parameter; its law (\<open>sanitize_quotes\<close>) is what its documentation says. The regular expression of the
  setting is the executable \<open>reference_match\<close>; \<open>reference_text\<close> is its language, group by group.
\<close>

definition is_lower :: "char \<Rightarrow> bool" where
  "is_lower c \<longleftrightarrow> 97 \<le> byte_of c \<and> byte_of c \<le> 122"

text \<open>\<^verbatim>\<open>[a-z_][a-z0-9_]*\<close>\<close>

definition ident_start :: "char \<Rightarrow> bool" where
  "ident_start c \<longleftrightarrow> is_lower c \<or> c = CHR ''_''"

definition ident_char :: "char \<Rightarrow> bool" where
  "ident_char c \<longleftrightarrow> is_lower c \<or> is_digit c \<or> c = CHR ''_''"

fun is_ident :: "string \<Rightarrow> bool" where
  "is_ident [] = False"
| "is_ident (c # s) = (ident_start c \<and> list_all ident_char s)"

text \<open>\<^verbatim>\<open>[a-z_][a-z0-9_]*(?:\.[a-z_][a-z0-9_]*)?(?:\(\d+\))?\<close>\<close>

definition type_match :: "string \<Rightarrow> bool" where
  "type_match t =
     (case strings_Cut t ''('' of (base, args, hasArgs) \<Rightarrow>
        (hasArgs \<longrightarrow> args \<noteq> [] \<and> last args = CHR '')'' \<and> butlast args \<noteq> [] \<and> list_all is_digit (butlast args))
      \<and> (case strings_Cut base ''.'' of (a, b, dotted) \<Rightarrow> is_ident a \<and> (dotted \<longrightarrow> is_ident b)))"

text \<open>The four groups of \<^verbatim>\<open>userEmailReferencePattern\<close>; a group that did not take part is empty.\<close>

definition reference_match :: "string \<Rightarrow> (string \<times> string \<times> string \<times> string) option" where
  "reference_match s =
     (case strings_Cut s ''('' of (qualified, rest, opened) \<Rightarrow>
      case strings_Cut rest '')'' of (column, tail, closed) \<Rightarrow>
      case strings_Cut qualified ''.'' of (a, b, dotted) \<Rightarrow>
        let schemaName = (if dotted then a else ''''); tableName = (if dotted then b else a)
        in if opened \<and> closed \<and> is_ident column \<and> is_ident tableName \<and> (dotted \<longrightarrow> is_ident schemaName)
           then (if tail = [] then Some (schemaName, tableName, column, '''')
                 else if hd tail = CHR '':'' \<and> type_match (tl tail) then Some (schemaName, tableName, column, tl tail)
                 else None)
           else None)"

record Params =
  UsersTable :: string
  UsersEmailColumn :: string
  UsersEmailType :: string

text \<open>\<^verbatim>\<open>pgx.Identifier.Sanitize\<close>\<close>

type_synonym sanitize = "string list \<Rightarrow> string"

definition DefaultParams :: "sanitize \<Rightarrow> Params" where
  "DefaultParams sanitize = \<lparr>UsersTable = sanitize [''users''], UsersEmailColumn = sanitize [''email''], UsersEmailType = ''text''\<rparr>"

definition ParseUserEmailReference :: "unicode \<Rightarrow> sanitize \<Rightarrow> string \<Rightarrow> go_error + Params" where
  "ParseUserEmailReference U sanitize reference =
     (let normalized = strings_ToLower U (strings_TrimSpace U reference)
      in case reference_match normalized of
           None \<Rightarrow> Inl (Wrapped reference ErrInvalidUserEmailReference)
         | Some (schemaName, tableName, column, columnType) \<Rightarrow>
             (let table = (if schemaName \<noteq> '''' then [schemaName, tableName] else [tableName]);
                  params = (DefaultParams sanitize)\<lparr>UsersTable := sanitize table, UsersEmailColumn := sanitize [column]\<rparr>
              in Inr (if columnType \<noteq> '''' then params\<lparr>UsersEmailType := columnType\<rparr> else params)))"

text \<open>The template \<^verbatim>\<open>schema.sql\<close>: its text and the fields it refers to.\<close>

datatype template_node = TemplateText string | TemplateField "Params \<Rightarrow> string"

fun template_Execute :: "template_node list \<Rightarrow> Params \<Rightarrow> string" where
  "template_Execute [] p = []"
| "template_Execute (TemplateText t # ns) p = t @ template_Execute ns p"
| "template_Execute (TemplateField f # ns) p = f p @ template_Execute ns p"

definition newline :: string where
  "newline = [char_of (10 :: nat)]"

definition schema_head :: string where
  "schema_head =
     ''CREATE TABLE IF NOT EXISTS auth_user_devices ('' @ newline @
     ''    device_id UUID PRIMARY KEY DEFAULT gen_random_uuid(),'' @ newline @
     ''    device_name TEXT NOT NULL,'' @ newline @
     ''    user_email ''"

definition schema_columns :: string where
  "schema_columns =
     '' NOT NULL,'' @ newline @
     ''    secret TEXT NOT NULL,'' @ newline @
     ''    generation INT NOT NULL DEFAULT 1,'' @ newline @
     ''    updated_at TIMESTAMPTZ NOT NULL DEFAULT CURRENT_TIMESTAMP,'' @ newline @
     ''    CONSTRAINT fk_auth_user_devices FOREIGN KEY (user_email)'' @ newline @
     ''        REFERENCES ''"

definition schema_indexes :: string where
  "schema_indexes =
     '')'' @ newline @
     ''        ON DELETE CASCADE ON UPDATE CASCADE'' @ newline @
     '');'' @ newline @ newline @
     ''CREATE INDEX IF NOT EXISTS idx_auth_user_devices_user_email ON auth_user_devices(user_email);'' @ newline @
     ''CREATE INDEX IF NOT EXISTS idx_auth_user_devices_updated_at ON auth_user_devices(updated_at);'' @ newline"

definition schemaTemplate :: "template_node list" where
  "schemaTemplate = [TemplateText schema_head, TemplateField UsersEmailType, TemplateText schema_columns,
     TemplateField UsersTable, TemplateText '' ('', TemplateField UsersEmailColumn, TemplateText schema_indexes]"

definition Generate :: "Params \<Rightarrow> go_error + string" where
  "Generate p = Inr (template_Execute schemaTemplate p)"

section \<open>The language of the setting\<close>

text \<open>The regular expression, read as the texts it matches with given groups.\<close>

definition type_text :: "string \<Rightarrow> bool" where
  "type_text t \<longleftrightarrow> (\<exists>a q n. t = a @ q @ n \<and> is_ident a \<and> (q = '''' \<or> (\<exists>b. q = CHR ''.'' # b \<and> is_ident b))
     \<and> (n = '''' \<or> (\<exists>ds. n = CHR ''('' # ds @ '')'' \<and> ds \<noteq> '''' \<and> list_all is_digit ds)))"

definition reference_text :: "string \<Rightarrow> string \<Rightarrow> string \<Rightarrow> string \<Rightarrow> string \<Rightarrow> bool" where
  "reference_text s schemaName tableName column columnType \<longleftrightarrow>
     (\<exists>q t. s = q @ tableName @ ''('' @ column @ '')'' @ t
       \<and> (schemaName = '''' \<and> q = '''' \<or> is_ident schemaName \<and> q = schemaName @ ''.'')
       \<and> is_ident tableName \<and> is_ident column
       \<and> (columnType = '''' \<and> t = '''' \<or> type_text columnType \<and> t = CHR '':'' # columnType))"

lemma ident_char_not_special: "ident_char c \<Longrightarrow> c \<notin> {CHR ''.'', CHR ''('', CHR '')'', CHR '':'', CHR '';'', CHR '' '', CHR ''\"''}"
  by (auto simp: ident_char_def is_lower_def is_digit_def byte_of_def)

lemma ident_chars: "is_ident s \<Longrightarrow> list_all ident_char s \<and> s \<noteq> []"
  by (cases s) (auto simp: ident_start_def ident_char_def)

lemma ident_free: "is_ident s \<Longrightarrow> c \<in> {CHR ''.'', CHR ''('', CHR '')'', CHR '':'', CHR '';'', CHR '' '', CHR ''\"''} \<Longrightarrow> c \<notin> set s"
  using ident_chars [of s] ident_char_not_special by (auto simp: list_all_iff)

lemma Cut_cases:
  obtains (hit) b a where "strings_Cut s [c] = (b, a, True)" "s = b @ c # a" "c \<notin> set b"
  | (miss) "strings_Cut s [c] = (s, [], False)" "c \<notin> set s"
proof (cases "c \<in> set s")
  case True
  then obtain b a where "s = b @ c # a" "c \<notin> set b" by (meson split_list_first)
  with strings_Cut_append [of c b a] show thesis by (auto intro: hit)
qed (auto intro: miss strings_Cut_absent)

lemma type_match_text: "type_match t \<longleftrightarrow> type_text t"
proof
  assume m: "type_match t"
  obtain base args hasArgs where cut: "strings_Cut t ''('' = (base, args, hasArgs)" by (metis prod_cases3)
  obtain a b dotted where dot: "strings_Cut base ''.'' = (a, b, dotted)" by (metis prod_cases3)
  from m cut dot have ok: "is_ident a" "dotted \<longrightarrow> is_ident b"
    "hasArgs \<longrightarrow> args \<noteq> [] \<and> last args = CHR '')'' \<and> butlast args \<noteq> [] \<and> list_all is_digit (butlast args)"
    by (simp_all add: type_match_def)
  have base: "\<exists>q. base = a @ q \<and> (q = '''' \<or> (\<exists>b. q = CHR ''.'' # b \<and> is_ident b))"
    using dot ok(2) by (cases base "CHR ''.''" rule: Cut_cases) auto
  have "\<exists>n. t = base @ n \<and> (n = '''' \<or> (\<exists>ds. n = CHR ''('' # ds @ '')'' \<and> ds \<noteq> '''' \<and> list_all is_digit ds))"
  proof (cases t "CHR ''(''" rule: Cut_cases)
    case (hit b a)
    with cut ok(3) have args: "t = base @ CHR ''('' # args" "args \<noteq> ''''" "last args = CHR '')''" "butlast args \<noteq> ''''"
      "list_all is_digit (butlast args)" by simp_all
    from append_butlast_last_id [OF args(2)] args(3) have "butlast args @ '')'' = args" by simp
    with args have "t = base @ CHR ''('' # butlast args @ '')''" "butlast args \<noteq> ''''" "list_all is_digit (butlast args)" by simp_all
    then show ?thesis by blast
  qed (use cut in auto)
  with base ok(1) show "type_text t" unfolding type_text_def by (metis append.assoc)
next
  assume "type_text t"
  then obtain a q n where t: "t = a @ q @ n" and a: "is_ident a" and q: "q = '''' \<or> (\<exists>b. q = CHR ''.'' # b \<and> is_ident b)"
    and n: "n = '''' \<or> (\<exists>ds. n = CHR ''('' # ds @ '')'' \<and> ds \<noteq> '''' \<and> list_all is_digit ds)"
    unfolding type_text_def by blast
  have free: "CHR ''('' \<notin> set (a @ q)" using a q ident_free by fastforce
  have base: "case strings_Cut (a @ q) ''.'' of (x, y, dotted) \<Rightarrow> is_ident x \<and> (dotted \<longrightarrow> is_ident y)"
  proof (cases "q = ''''")
    case True
    with a ident_free [OF a, of "CHR ''.''"] show ?thesis by (simp add: strings_Cut_absent)
  next
    case False
    with q a ident_free [OF a, of "CHR ''.''"] show ?thesis by (auto simp: strings_Cut_append)
  qed
  show "type_match t"
  proof (cases "n = ''''")
    case True
    with t free base show ?thesis by (simp add: type_match_def strings_Cut_absent)
  next
    case False
    with n obtain ds where ds: "n = CHR ''('' # ds @ '')''" "ds \<noteq> ''''" "list_all is_digit ds" by blast
    have "strings_Cut t ''('' = (a @ q, ds @ '')'', True)"
      using strings_Cut_append [OF free, of "ds @ '')''"] t ds(1) by simp
    with base ds show ?thesis by (simp add: type_match_def)
  qed
qed

lemma qualified_cut:
  assumes "is_ident tableName" and "schemaName = '''' \<and> q = '''' \<or> is_ident schemaName \<and> q = schemaName @ ''.''"
  shows "strings_Cut (q @ tableName) ''.'' = (if q = '''' then (tableName, '''', False) else (schemaName, tableName, True))"
  using assms ident_free [OF assms(1), of "CHR ''.''"] ident_free [of schemaName "CHR ''.''"]
  by (auto simp: strings_Cut_absent strings_Cut_append)

lemma reference_match_complete:
  assumes "reference_text s schemaName tableName column columnType"
  shows "reference_match s = Some (schemaName, tableName, column, columnType)"
proof -
  from assms obtain q t where s: "s = q @ tableName @ ''('' @ column @ '')'' @ t"
    and q: "schemaName = '''' \<and> q = '''' \<or> is_ident schemaName \<and> q = schemaName @ ''.''"
    and ids: "is_ident tableName" "is_ident column"
    and t: "columnType = '''' \<and> t = '''' \<or> type_text columnType \<and> t = CHR '':'' # columnType"
    unfolding reference_text_def by blast
  have "CHR ''('' \<notin> set (q @ tableName)" using q ids ident_free by fastforce
  from strings_Cut_append [OF this, of "column @ '')'' @ t"] have c1: "strings_Cut s ''('' = (q @ tableName, column @ CHR '')'' # t, True)"
    by (simp add: s)
  have c2: "strings_Cut (column @ CHR '')'' # t) '')'' = (column, t, True)"
    using strings_Cut_append [of "CHR '')''" column t] ident_free [OF ids(2), of "CHR '')''"] by simp
  have ne: "columnType \<noteq> ''''" if "type_text columnType"
    using that ident_chars by (auto simp: type_text_def)
  show ?thesis
    using q ids t ne by (auto simp: reference_match_def c1 c2 qualified_cut [OF ids(1) q] type_match_text Let_def)
qed

lemma reference_match_sound:
  assumes "reference_match s = Some (schemaName, tableName, column, columnType)"
  shows "reference_text s schemaName tableName column columnType"
proof -
  obtain qual rest opened where c1: "strings_Cut s ''('' = (qual, rest, opened)" by (metis prod_cases3)
  obtain col tail closed where c2: "strings_Cut rest '')'' = (col, tail, closed)" by (metis prod_cases3)
  obtain a b dotted where c3: "strings_Cut qual ''.'' = (a, b, dotted)" by (metis prod_cases3)
  from assms have ok: "opened" "closed" "is_ident col" "col = column" "tableName = (if dotted then b else a)" "schemaName = (if dotted then a else '''')"
    "is_ident tableName" "dotted \<longrightarrow> is_ident schemaName"
    and sfx: "tail = '''' \<and> columnType = '''' \<or> tail \<noteq> '''' \<and> hd tail = CHR '':'' \<and> type_match (tl tail) \<and> columnType = tl tail"
    by (simp_all add: reference_match_def c1 c2 c3 Let_def split: if_splits)
  have s: "s = qual @ ''('' @ rest" using c1 ok(1) strings_Cut_found [of s "CHR ''(''"] by simp
  have rest: "rest = column @ '')'' @ tail" using c2 ok(2,4) strings_Cut_found [of rest "CHR '')''"] by simp
  have ex: "\<exists>q. qual = q @ tableName \<and> (schemaName = '''' \<and> q = '''' \<or> is_ident schemaName \<and> q = schemaName @ ''.'')"
    using c3 ok(5,6,8) by (cases qual "CHR ''.''" rule: Cut_cases) auto
  have t: "columnType = '''' \<and> tail = '''' \<or> type_text columnType \<and> tail = CHR '':'' # columnType"
    using sfx type_match_text by (cases tail) auto
  from ex obtain q where "s = q @ tableName @ ''('' @ column @ '')'' @ tail" "schemaName = '''' \<and> q = '''' \<or> is_ident schemaName \<and> q = schemaName @ ''.''"
    unfolding s rest by auto
  with ok(3,4,7) t show ?thesis unfolding reference_text_def by blast
qed

lemma reference_match_iff:
  "reference_match s = Some (schemaName, tableName, column, columnType) \<longleftrightarrow> reference_text s schemaName tableName column columnType"
  using reference_match_complete reference_match_sound by blast

section \<open>Properties\<close>

text \<open>\<^verbatim>\<open>Identifier.Sanitize\<close> quotes every part and joins the parts with dots.\<close>

definition quoted :: "string \<Rightarrow> string" where
  "quoted s = CHR ''\"'' # s @ ''\"''"

fun dotted_parts :: "string list \<Rightarrow> string" where
  "dotted_parts [] = ''''"
| "dotted_parts [p] = quoted p"
| "dotted_parts (p # ps) = quoted p @ ''.'' @ dotted_parts ps"

definition sanitize_quotes :: "sanitize \<Rightarrow> bool" where
  "sanitize_quotes sanitize \<longleftrightarrow> (\<forall>ps. ps \<noteq> [] \<and> list_all is_ident ps \<longrightarrow> sanitize ps = dotted_parts ps)"

text \<open>The characters a parameter of the schema may hold: no statement ends, no space, no comment.\<close>

definition param_char :: "char \<Rightarrow> bool" where
  "param_char c \<longleftrightarrow> ident_char c \<or> c \<in> {CHR ''.'', CHR ''('', CHR '')'', CHR ''\"''}"

lemma ident_param: "is_ident s \<Longrightarrow> list_all param_char s"
  using ident_chars [of s] by (auto simp: list_all_iff param_char_def)

lemma dotted_parts_param: "list_all is_ident ps \<Longrightarrow> list_all param_char (dotted_parts ps)"
  by (induction ps rule: dotted_parts.induct) (auto simp: quoted_def param_char_def dest: ident_param)

lemma type_text_param:
  assumes "type_text t"
  shows "list_all param_char t"
proof -
  have "list_all param_char ds" if "list_all is_digit ds" for ds
    using that by (auto simp: list_all_iff param_char_def ident_char_def)
  moreover have "param_char CHR ''.''" "param_char CHR ''(''" "param_char CHR '')''" by (simp_all add: param_char_def)
  ultimately show ?thesis using assms unfolding type_text_def by (auto dest!: ident_param)
qed

lemma template_counts:
  "count_list schema_head CHR '';'' = 0" "count_list schema_columns CHR '';'' = 0" "count_list schema_indexes CHR '';'' = 3"
  by code_simp+

lemma Generate_statements:
  assumes "list_all param_char (UsersTable p)" and "list_all param_char (UsersEmailColumn p)" and "list_all param_char (UsersEmailType p)"
    and "Generate p = Inr sql"
  shows "count_list sql CHR '';'' = 3"
proof -
  have "count_list s CHR '';'' = 0" if "list_all param_char s" for s
    using that by (induction s) (auto simp: param_char_def ident_char_def is_lower_def is_digit_def byte_of_def)
  with assms show ?thesis by (auto simp: Generate_def schemaTemplate_def template_counts)
qed

text \<open>
  C29. The setting \<^verbatim>\<open>DB_USER_EMAIL_REFERENCE\<close> cannot smuggle SQL into the schema. Its normalized text is accepted exactly when it is in the
  language of the pattern; then the table and the column are the named identifiers, quoted part by part,
  the column's type is the named one or \<^verbatim>\<open>text\<close>, and the generated schema has its three statements whatever the text says. Every
  other text is an \<^verbatim>\<open>ErrInvalidUserEmailReference\<close>.
\<close>

theorem ParseUserEmailReference_confined:
  assumes "sanitize_quotes sanitize"
  shows "case ParseUserEmailReference U sanitize reference of
      Inl e \<Rightarrow> errors_Is e ErrInvalidUserEmailReference
        \<and> (\<nexists>sn tn col ty. reference_text (strings_ToLower U (strings_TrimSpace U reference)) sn tn col ty)
    | Inr p \<Rightarrow> (\<exists>sn tn col ty. reference_text (strings_ToLower U (strings_TrimSpace U reference)) sn tn col ty
        \<and> UsersTable p = (if sn = '''' then quoted tn else quoted sn @ ''.'' @ quoted tn)
        \<and> UsersEmailColumn p = quoted col \<and> UsersEmailType p = (if ty = '''' then ''text'' else ty))
        \<and> (\<exists>sql. Generate p = Inr sql \<and> count_list sql CHR '';'' = 3)"
proof (cases "reference_match (strings_ToLower U (strings_TrimSpace U reference))")
  case None
  let ?s = "strings_ToLower U (strings_TrimSpace U reference)"
  have "\<nexists>sn tn col ty. reference_text ?s sn tn col ty" using None reference_match_complete by fastforce
  with None show ?thesis by (simp add: ParseUserEmailReference_def Let_def)
next
  case (Some groups)
  obtain sn tn col ty where g: "groups = (sn, tn, col, ty)" by (cases groups)
  note lang = reference_match_sound [OF Some [unfolded g]]
  then have ids: "is_ident tn" "is_ident col" "sn = '''' \<or> is_ident sn" "ty = '''' \<or> type_text ty"
    unfolding reference_text_def by auto
  obtain p where p: "ParseUserEmailReference U sanitize reference = Inr p" by (simp add: ParseUserEmailReference_def Some g Let_def)
  then have "p = \<lparr>UsersTable = sanitize (if sn \<noteq> '''' then [sn, tn] else [tn]), UsersEmailColumn = sanitize [col],
      UsersEmailType = (if ty = '''' then ''text'' else ty)\<rparr>"
    by (auto simp: ParseUserEmailReference_def Some g DefaultParams_def Let_def)
  moreover have "sanitize (if sn \<noteq> '''' then [sn, tn] else [tn]) = dotted_parts (if sn \<noteq> '''' then [sn, tn] else [tn])"
    "sanitize [col] = quoted col"
    using assms ids by (auto simp: sanitize_quotes_def)
  ultimately have fields: "UsersTable p = dotted_parts (if sn \<noteq> '''' then [sn, tn] else [tn])" "UsersEmailColumn p = quoted col"
    "UsersEmailType p = (if ty = '''' then ''text'' else ty)" by simp_all
  have "list_all param_char (UsersTable p)" unfolding fields by (rule dotted_parts_param) (use ids in auto)
  moreover have "list_all param_char (UsersEmailColumn p)" using dotted_parts_param [of "[col]"] ids(2) fields by simp
  moreover have "list_all param_char (UsersEmailType p)"
    using ids(4) type_text_param fields(3) by (auto simp: param_char_def ident_char_def is_lower_def byte_of_def)
  ultimately have "\<exists>sql. Generate p = Inr sql \<and> count_list sql CHR '';'' = 3"
    using Generate_statements [of p] by (simp add: Generate_def)
  with p fields lang show ?thesis by auto
qed

theorem ParseUserEmailReference_confined_witness:
  "\<exists>p. ParseUserEmailReference \<lparr>uni_ToLower = id, uni_TrimSpace = id, uni_EqualFold = (=)\<rparr> dotted_parts ''Auth.Users(email):varchar(255)'' = Inr p
    \<and> UsersTable p = ''\"auth\".\"users\"'' \<and> (\<exists>sql. Generate p = Inr sql \<and> count_list sql CHR '';'' = 3)"
proof -
  let ?U = "\<lparr>uni_ToLower = id, uni_TrimSpace = id, uni_EqualFold = (=)\<rparr>"
  have q: "sanitize_quotes dotted_parts" by (simp add: sanitize_quotes_def)
  have t: "reference_match (strings_ToLower ?U (strings_TrimSpace ?U ''Auth.Users(email):varchar(255)'')) = Some (''auth'', ''users'', ''email'', ''varchar(255)'')"
    by code_simp
  obtain p where p: "ParseUserEmailReference ?U dotted_parts ''Auth.Users(email):varchar(255)'' = Inr p"
    by (simp add: ParseUserEmailReference_def t Let_def)
  then have "UsersTable p = ''\"auth\".\"users\"''" by (auto simp: ParseUserEmailReference_def t quoted_def Let_def)
  with ParseUserEmailReference_confined [OF q, of ?U "''Auth.Users(email):varchar(255)''"] p show ?thesis by auto
qed

end
