(* ===== verification/Config.thy ===== *)
theory Config
  imports Durations Schema Providers Session
begin

text \<open>
  \<^verbatim>\<open>server/internal/config/config.go\<close>: the configuration from the environment. \<^verbatim>\<open>os.Getenv\<close> is the function \<open>env\<close>, empty for a variable
  that is not set. The \<^verbatim>\<open>envReader\<close> collects errors; its state, the joined error so far, is passed through the loaders in the order in which
  Go evaluates them.
\<close>

type_synonym environment = "string \<Rightarrow> string"
type_synonym env_errs = "go_error option"

section \<open>Environment variables\<close>

abbreviation EnvHTTPAddress :: string where "EnvHTTPAddress \<equiv> ''HTTP_ADDRESS''"
abbreviation EnvHTTPMode :: string where "EnvHTTPMode \<equiv> ''HTTP_MODE''"
abbreviation EnvDatabaseURL :: string where "EnvDatabaseURL \<equiv> ''DATABASE_URL''"
abbreviation EnvDBMaxOpenConns :: string where "EnvDBMaxOpenConns \<equiv> ''DB_MAX_OPEN_CONNS''"
abbreviation EnvDBMaxIdleConns :: string where "EnvDBMaxIdleConns \<equiv> ''DB_MAX_IDLE_CONNS''"
abbreviation EnvDBConnMaxLifetime :: string where "EnvDBConnMaxLifetime \<equiv> ''DB_CONN_MAX_LIFETIME''"
abbreviation EnvDBConnMaxIdleTime :: string where "EnvDBConnMaxIdleTime \<equiv> ''DB_CONN_MAX_IDLE_TIME''"
abbreviation EnvDBCleanupInterval :: string where "EnvDBCleanupInterval \<equiv> ''DB_CLEANUP_INTERVAL''"
abbreviation EnvDBAutoCreateSchema :: string where "EnvDBAutoCreateSchema \<equiv> ''DB_AUTO_CREATE_SCHEMA''"
abbreviation EnvDBUserEmailReference :: string where "EnvDBUserEmailReference \<equiv> ''DB_USER_EMAIL_REFERENCE''"
abbreviation EnvDBUserUsernameColumn :: string where "EnvDBUserUsernameColumn \<equiv> ''DB_USER_USERNAME_COLUMN''"
abbreviation EnvJWTAccessDuration :: string where "EnvJWTAccessDuration \<equiv> ''JWT_ACCESS_TOKEN_DURATION''"
abbreviation EnvJWTRefreshDuration :: string where "EnvJWTRefreshDuration \<equiv> ''JWT_REFRESH_TOKEN_DURATION''"
abbreviation EnvJWTIssuer :: string where "EnvJWTIssuer \<equiv> ''JWT_ISSUER''"
abbreviation EnvJWTAudience :: string where "EnvJWTAudience \<equiv> ''JWT_AUDIENCE''"
abbreviation EnvIdentityJWTSecret :: string where "EnvIdentityJWTSecret \<equiv> ''IDENTITY_JWT_SECRET''"
abbreviation EnvRedisURL :: string where "EnvRedisURL \<equiv> ''REDIS_URL''"
abbreviation EnvOAuth2Provider :: string where "EnvOAuth2Provider \<equiv> ''OAUTH2_PROVIDER''"
abbreviation EnvOAuth2ClientID :: string where "EnvOAuth2ClientID \<equiv> ''OAUTH2_CLIENT_ID''"
abbreviation EnvOAuth2ClientSecret :: string where "EnvOAuth2ClientSecret \<equiv> ''OAUTH2_CLIENT_SECRET''"
abbreviation EnvOAuth2RedirectURL :: string where "EnvOAuth2RedirectURL \<equiv> ''OAUTH2_REDIRECT_URL''"
abbreviation EnvOAuth2AuthURL :: string where "EnvOAuth2AuthURL \<equiv> ''OAUTH2_AUTH_URL''"
abbreviation EnvOAuth2TokenURL :: string where "EnvOAuth2TokenURL \<equiv> ''OAUTH2_TOKEN_URL''"
abbreviation EnvOAuth2UserinfoURL :: string where "EnvOAuth2UserinfoURL \<equiv> ''OAUTH2_USERINFO_URL''"
abbreviation EnvOAuth2RevokeURL :: string where "EnvOAuth2RevokeURL \<equiv> ''OAUTH2_REVOKE_URL''"
abbreviation EnvOAuth2Scopes :: string where "EnvOAuth2Scopes \<equiv> ''OAUTH2_SCOPES''"
abbreviation EnvOAuth2ClientPKCE :: string where "EnvOAuth2ClientPKCE \<equiv> ''OAUTH2_CLIENT_PKCE''"
abbreviation EnvOIDCIssuerURL :: string where "EnvOIDCIssuerURL \<equiv> ''OIDC_ISSUER_URL''"
abbreviation EnvAllowRegistration :: string where "EnvAllowRegistration \<equiv> ''ALLOW_REGISTRATION''"
abbreviation EnvPassOAuthToken :: string where "EnvPassOAuthToken \<equiv> ''PASS_OAUTH_TOKEN''"
abbreviation EnvAllowUnverifiedEmail :: string where "EnvAllowUnverifiedEmail \<equiv> ''ALLOW_UNVERIFIED_EMAIL''"

section \<open>The configuration\<close>

record HTTP =
  http_Address :: string
  http_Mode :: string

definition ModeDevelopment :: string where "ModeDevelopment = ''development''"
definition ModeProduction :: string where "ModeProduction = ''production''"
definition DefaultHTTPAddress :: string where "DefaultHTTPAddress = '':80''"
definition DefaultDBMaxOpenConns :: int where "DefaultDBMaxOpenConns = 20"
definition DefaultDBMaxIdleConns :: int where "DefaultDBMaxIdleConns = 15"
definition DefaultDBConnMaxLifetime :: duration where "DefaultDBConnMaxLifetime = 5 * Minute"
definition DefaultDBConnMaxIdleTime :: duration where "DefaultDBConnMaxIdleTime = 2 * Minute"
definition DefaultDBCleanupInterval :: duration where "DefaultDBCleanupInterval = 24 * Hour"
definition DefaultJWTAccessDuration :: duration where "DefaultJWTAccessDuration = 15 * Minute"
definition DefaultJWTRefreshDuration :: duration where "DefaultJWTRefreshDuration = 7 * 24 * Hour"

definition HTTP_DevMode :: "HTTP \<Rightarrow> bool" where
  "HTTP_DevMode h = (http_Mode h = ModeDevelopment)"

record config_Database =
  db_URL :: string
  db_MaxOpenConns :: int
  db_MaxIdleConns :: int
  db_ConnMaxLifetime :: duration
  db_ConnMaxIdleTime :: duration
  db_CleanupInterval :: duration
  db_AutoCreateSchema :: bool
  UserEmailReference :: string
  UserUsernameColumn :: string

record config_JWT =
  cfg_AccessTokenDuration :: duration
  cfg_RefreshTokenDuration :: duration
  cfg_Issuer :: string
  cfg_Audience :: string
  IdentitySecret :: string

record config_Redis =
  redis_URL :: string

record config_Client =
  cl_ID :: string
  cl_Secret :: string
  cl_RedirectURL :: string
  cl_PKCE :: bool

record config_OIDC =
  IssuerURL :: string

record config_Provider =
  pr_Name :: string
  pr_AuthURL :: string
  pr_TokenURL :: string
  pr_UserinfoURL :: string
  pr_RevokeURL :: string

record config_OAuth2 =
  oa_Client :: config_Client
  oa_Scopes :: "string list"
  oa_OIDC :: "config_OIDC option"
  oa_Provider :: "config_Provider option"

record config_Auth =
  auth_AllowRegistration :: bool
  auth_PassOAuthToken :: bool
  auth_AllowUnverifiedEmail :: bool

record Config =
  cfg_HTTP :: HTTP
  cfg_Database :: "config_Database option"
  cfg_JWT :: config_JWT
  cfg_Redis :: "config_Redis option"
  cfg_OAuth2 :: "config_OAuth2 option"
  cfg_Auth :: config_Auth

section \<open>Reading variables\<close>

definition env_fail :: "go_error \<Rightarrow> env_errs \<Rightarrow> env_errs" where
  "env_fail err errs = errors_Join [errs, Some err]"

definition env_integer :: "unicode \<Rightarrow> environment \<Rightarrow> string \<Rightarrow> int \<Rightarrow> env_errs \<Rightarrow> int \<times> env_errs" where
  "env_integer U env key fallback errs =
     (let val = env key
      in if val = '''' then (fallback, errs)
         else case strconv_Atoi (strings_TrimSpace U val) of
           Inl _ \<Rightarrow> (fallback, env_fail (Wrapped key ErrInvalidInteger) errs)
         | Inr n \<Rightarrow> if n < 0 then (fallback, env_fail (Wrapped key ErrInvalidInteger) errs) else (n, errs))"

definition env_duration :: "unicode \<Rightarrow> environment \<Rightarrow> string \<Rightarrow> duration \<Rightarrow> duration \<Rightarrow> env_errs \<Rightarrow> duration \<times> env_errs" where
  "env_duration U env key fallback bareUnit errs =
     (let val = env key
      in if val = '''' then (fallback, errs)
         else case parseDuration U val bareUnit of
           Inl err \<Rightarrow> (fallback, env_fail (Wrapped key err) errs)
         | Inr d \<Rightarrow> (d, errs))"

definition stringOr :: "environment \<Rightarrow> string \<Rightarrow> string \<Rightarrow> string" where
  "stringOr env key fallback = (if env key \<noteq> '''' then env key else fallback)"

definition isTrue :: "environment \<Rightarrow> string \<Rightarrow> bool" where
  "isTrue env key = (env key = ''true'')"

definition splitList :: "unicode \<Rightarrow> string \<Rightarrow> string list" where
  "splitList U val = filter (\<lambda>t. t \<noteq> '''') (map (strings_TrimSpace U) (strings_Split val CHR '',''))"

section \<open>The loaders\<close>

definition loadDatabase :: "unicode \<Rightarrow> sanitize \<Rightarrow> environment \<Rightarrow> env_errs \<Rightarrow> config_Database option \<times> env_errs" where
  "loadDatabase U sanitize env errs0 =
     (let url = env EnvDatabaseURL
      in if url = '''' then (None, errs0)
      else
        (let (open, errs1) = env_integer U env EnvDBMaxOpenConns DefaultDBMaxOpenConns errs0;
             (idle, errs2) = env_integer U env EnvDBMaxIdleConns DefaultDBMaxIdleConns errs1;
             (life, errs3) = env_duration U env EnvDBConnMaxLifetime DefaultDBConnMaxLifetime Minute errs2;
             (idleTime, errs4) = env_duration U env EnvDBConnMaxIdleTime DefaultDBConnMaxIdleTime Minute errs3;
             (cleanup, errs5) = env_duration U env EnvDBCleanupInterval DefaultDBCleanupInterval Hour errs4;
             db = \<lparr>db_URL = url, db_MaxOpenConns = open, db_MaxIdleConns = idle, db_ConnMaxLifetime = life, db_ConnMaxIdleTime = idleTime,
                db_CleanupInterval = cleanup, db_AutoCreateSchema = isTrue env EnvDBAutoCreateSchema,
                UserEmailReference = env EnvDBUserEmailReference,
                UserUsernameColumn = strings_ToLower U (strings_TrimSpace U (env EnvDBUserUsernameColumn))\<rparr>;
             errs6 = (if UserEmailReference db \<noteq> ''''
                      then (case ParseUserEmailReference U sanitize (UserEmailReference db) of
                              Inl err \<Rightarrow> env_fail (Wrapped EnvDBUserEmailReference err) errs5 | Inr _ \<Rightarrow> errs5)
                      else errs5);
             errs7 = (if UserUsernameColumn db \<noteq> ''''
                      then (if UserEmailReference db = '''' then env_fail ErrUsernameColumnWithoutRef errs6
                            else if \<not> is_ident (UserUsernameColumn db)
                            then env_fail (Wrapped EnvDBUserUsernameColumn ErrInvalidUsernameColumn) errs6
                            else errs6)
                      else errs6)
         in (Some db, errs7)))"

definition loadJWT :: "unicode \<Rightarrow> environment \<Rightarrow> env_errs \<Rightarrow> config_JWT \<times> env_errs" where
  "loadJWT U env errs0 =
     (let (access, errs1) = env_duration U env EnvJWTAccessDuration DefaultJWTAccessDuration 0 errs0;
          (ref, errs2) = env_duration U env EnvJWTRefreshDuration DefaultJWTRefreshDuration 0 errs1;
          jwt = \<lparr>cfg_AccessTokenDuration = access, cfg_RefreshTokenDuration = ref, cfg_Issuer = env EnvJWTIssuer, cfg_Audience = env EnvJWTAudience,
             IdentitySecret = env EnvIdentityJWTSecret\<rparr>;
          errs3 = (if cfg_AccessTokenDuration jwt \<le> 0 then env_fail (Wrapped EnvJWTAccessDuration ErrNonPositiveDuration) errs2 else errs2);
          errs4 = (if cfg_RefreshTokenDuration jwt \<le> 0 then env_fail (Wrapped EnvJWTRefreshDuration ErrNonPositiveDuration) errs3 else errs3);
          errs5 = (if IdentitySecret jwt \<noteq> '''' \<and> length (IdentitySecret jwt) < MinSecretLength then env_fail ErrIdentitySecretTooShort errs4 else errs4)
      in (jwt, errs5))"

definition loadRedis :: "environment \<Rightarrow> config_Redis option" where
  "loadRedis env = (let url = env EnvRedisURL in if url = '''' then None else Some \<lparr>redis_URL = url\<rparr>)"

definition loadOAuth2 :: "unicode \<Rightarrow> environment \<Rightarrow> env_errs \<Rightarrow> config_OAuth2 option \<times> env_errs" where
  "loadOAuth2 U env errs0 =
     (let client = \<lparr>cl_ID = env EnvOAuth2ClientID, cl_Secret = env EnvOAuth2ClientSecret, cl_RedirectURL = env EnvOAuth2RedirectURL,
            cl_PKCE = isTrue env EnvOAuth2ClientPKCE\<rparr>;
          issuerURL = env EnvOIDCIssuerURL
      in if cl_ID client = '''' \<or> cl_Secret client = '''' \<or> cl_RedirectURL client = ''''
         then (None, if issuerURL \<noteq> '''' then env_fail ErrOIDCMissingClient errs0 else errs0)
         else
           (let oauth2 = \<lparr>oa_Client = client, oa_Scopes = splitList U (env EnvOAuth2Scopes), oa_OIDC = None, oa_Provider = None\<rparr>
            in if issuerURL \<noteq> '''' then (Some (oauth2\<lparr>oa_OIDC := Some \<lparr>IssuerURL = issuerURL\<rparr>\<rparr>), errs0)
               else
                 (let provider = \<lparr>pr_Name = env EnvOAuth2Provider, pr_AuthURL = env EnvOAuth2AuthURL, pr_TokenURL = env EnvOAuth2TokenURL,
                        pr_UserinfoURL = env EnvOAuth2UserinfoURL, pr_RevokeURL = env EnvOAuth2RevokeURL\<rparr>;
                      errs1 = (if \<not> IsBuiltin (pr_Name provider)
                                 \<and> (pr_AuthURL provider = '''' \<or> pr_TokenURL provider = '''' \<or> pr_UserinfoURL provider = '''')
                               then env_fail ErrGenericProviderMissingURLs errs0 else errs0)
                  in (Some (oauth2\<lparr>oa_Provider := Some provider\<rparr>), errs1))))"

definition config_Load :: "unicode \<Rightarrow> sanitize \<Rightarrow> environment \<Rightarrow> go_error + Config" where
  "config_Load U sanitize env =
     (let (db, errs1) = loadDatabase U sanitize env None;
          (jwt, errs2) = loadJWT U env errs1;
          (oauth2, errs3) = loadOAuth2 U env errs2;
          cfg = \<lparr>cfg_HTTP = \<lparr>http_Address = stringOr env EnvHTTPAddress DefaultHTTPAddress, http_Mode = stringOr env EnvHTTPMode ModeProduction\<rparr>,
             cfg_Database = db, cfg_JWT = jwt, cfg_Redis = loadRedis env, cfg_OAuth2 = oauth2,
             cfg_Auth = \<lparr>auth_AllowRegistration = isTrue env EnvAllowRegistration, auth_PassOAuthToken = isTrue env EnvPassOAuthToken,
               auth_AllowUnverifiedEmail = isTrue env EnvAllowUnverifiedEmail\<rparr>\<rparr>
      in case errs3 of Some err \<Rightarrow> Inl err | None \<Rightarrow> Inr cfg)"

section \<open>Collected errors\<close>

text \<open>The errors that were collected, in the order in which they were found.\<close>

fun joined_errors :: "go_error \<Rightarrow> go_error list" where
  "joined_errors (Joined es) = concat (map joined_errors es)"
| "joined_errors e = [e]"

definition collected :: "env_errs \<Rightarrow> go_error list" where
  "collected errs = (case errs of None \<Rightarrow> [] | Some e \<Rightarrow> joined_errors e)"

text \<open>An error reports a mistake: it is the sentinel of the check, under the name of the variable where the check names one.\<close>

type_synonym mistake = "string \<times> go_error"

fun reports :: "go_error \<Rightarrow> mistake \<Rightarrow> bool" where
  "reports err (key, sentinel) \<longleftrightarrow> errors_Is err sentinel \<and> (key = '''' \<or> (\<exists>e. err = Wrapped key e))"

text \<open>The reader went on from one state to another and collected an error for each of the mistakes, and no other.\<close>

definition adds :: "env_errs \<Rightarrow> env_errs \<Rightarrow> mistake list \<Rightarrow> bool" where
  "adds errs errs' ms \<longleftrightarrow> (errs' = None \<longleftrightarrow> errs = None \<and> ms = [])
     \<and> (\<exists>es. collected errs' = collected errs @ es \<and> list_all2 reports es ms)"

lemma adds_refl [simp]: "adds errs errs []"
  by (simp add: adds_def)

lemma adds_trans:
  assumes "adds a b ms" and "adds b c ns"
  shows "adds a c (ms @ ns)"
proof -
  from assms obtain es fs where "collected b = collected a @ es" "list_all2 reports es ms" "collected c = collected b @ fs" "list_all2 reports fs ns"
    unfolding adds_def by blast
  then have "collected c = collected a @ (es @ fs) \<and> list_all2 reports (es @ fs) (ms @ ns)" by (simp add: list_all2_appendI)
  with assms show ?thesis unfolding adds_def by blast
qed

lemma env_fail_Some [simp]: "env_fail err errs \<noteq> None"
  by (cases errs) (simp_all add: env_fail_def errors_Join_def map_filter_def)

lemma adds_fail:
  assumes "joined_errors err = [err]" and "reports err m"
  shows "adds errs (env_fail err errs) [m]"
proof -
  have "collected (env_fail err errs) = collected errs @ [err]"
    using assms(1) by (cases errs) (simp_all add: collected_def env_fail_def errors_Join_def map_filter_def)
  with assms(2) show ?thesis by (simp add: adds_def)
qed

lemma adds_if:
  assumes "P \<Longrightarrow> joined_errors err = [err] \<and> reports err m"
  shows "adds errs (if P then env_fail err errs else errs) (if P then [m] else [])"
  using assms by (simp add: adds_fail)

section \<open>The mistakes of a variable\<close>

text \<open>A text that is not a number, or a negative one; a text that denotes no duration; a duration that is not positive.\<close>

definition integer_mistakes :: "unicode \<Rightarrow> environment \<Rightarrow> string \<Rightarrow> mistake list" where
  "integer_mistakes U env key =
     (if env key \<noteq> '''' \<and> (case strconv_Atoi (strings_TrimSpace U (env key)) of Inl _ \<Rightarrow> True | Inr n \<Rightarrow> n < 0) then [(key, ErrInvalidInteger)] else [])"

definition no_duration :: "unicode \<Rightarrow> environment \<Rightarrow> string \<Rightarrow> duration \<Rightarrow> bool" where
  "no_duration U env key bare \<longleftrightarrow> env key \<noteq> '''' \<and> (\<nexists>v. duration_spec (strings_ToLower U (strings_TrimSpace U (env key))) bare v)"

definition duration_mistakes :: "unicode \<Rightarrow> environment \<Rightarrow> string \<Rightarrow> duration \<Rightarrow> mistake list" where
  "duration_mistakes U env key bare = (if no_duration U env key bare then [(key, ErrInvalidDuration)] else [])"

definition non_positive :: "unicode \<Rightarrow> environment \<Rightarrow> string \<Rightarrow> bool" where
  "non_positive U env key \<longleftrightarrow> env key \<noteq> '''' \<and> (\<exists>v. duration_spec (strings_ToLower U (strings_TrimSpace U (env key))) 0 v \<and> v \<le> 0)"

definition positive_mistakes :: "unicode \<Rightarrow> environment \<Rightarrow> string \<Rightarrow> mistake list" where
  "positive_mistakes U env key = (if non_positive U env key then [(key, ErrNonPositiveDuration)] else [])"

lemma env_integer_errs:
  assumes "env_integer U env key fb errs = (n, errs')" and "0 \<le> fb"
  shows "0 \<le> n \<and> adds errs errs' (integer_mistakes U env key)"
  using assms
  by (auto simp: env_integer_def integer_mistakes_def Let_def intro!: adds_fail split: if_splits sum.splits)

lemma env_duration_errs:
  assumes "env_duration U env key fb bare errs = (d, errs')" and "0 \<le> bare" and "fb \<le> MaxInt64"
  shows "adds errs errs' (duration_mistakes U env key bare) \<and> d \<le> MaxInt64
    \<and> (if env key = '''' \<or> no_duration U env key bare then d = fb else duration_spec (strings_ToLower U (strings_TrimSpace U (env key))) bare d)"
proof (cases "parseDuration U (env key) bare")
  case (Inl e)
  have "errors_Is e ErrInvalidDuration" by (rule parseDuration_error [OF Inl])
  moreover have "\<nexists>v. duration_spec (strings_ToLower U (strings_TrimSpace U (env key))) bare v"
    using parseDuration_exact [OF assms(2), of U "env key"] Inl by auto
  ultimately show ?thesis
    using assms Inl by (auto simp: env_duration_def duration_mistakes_def no_duration_def Let_def intro!: adds_fail split: if_splits)
next
  case (Inr v)
  with parseDuration_exact [OF assms(2), of U "env key" v] have "duration_spec (strings_ToLower U (strings_TrimSpace U (env key))) bare v" by simp
  with assms Inr show ?thesis
    by (auto simp: env_duration_def duration_mistakes_def no_duration_def Let_def duration_spec_def split: if_splits)
qed

text \<open>A life time whose default is positive.\<close>

lemma life_time_mistakes:
  assumes "env_duration U env key fb 0 errs = (d, errs')" and "fb \<le> MaxInt64" and "0 < fb"
  shows "d \<le> 0 \<longleftrightarrow> non_positive U env key"
proof -
  let ?t = "strings_ToLower U (strings_TrimSpace U (env key))"
  have "v = w" if "duration_spec ?t 0 v" "duration_spec ?t 0 w" for v w
    using that parseDuration_exact [of 0 U "env key"] by (metis order_refl sum.inject(2))
  with env_duration_errs [OF assms(1) order_refl assms(2)] assms(3) show ?thesis
    by (auto simp: non_positive_def no_duration_def split: if_splits)
qed

section \<open>What each loader checks\<close>

lemma default_bounds [simp]:
  "DefaultDBConnMaxLifetime \<le> MaxInt64" "DefaultDBConnMaxIdleTime \<le> MaxInt64" "DefaultDBCleanupInterval \<le> MaxInt64"
  "DefaultJWTAccessDuration \<le> MaxInt64" "DefaultJWTRefreshDuration \<le> MaxInt64" "0 \<le> DefaultDBMaxOpenConns" "0 \<le> DefaultDBMaxIdleConns"
  "0 \<le> Minute" "0 \<le> Hour"
  by (simp_all add: DefaultDBConnMaxLifetime_def DefaultDBConnMaxIdleTime_def DefaultDBCleanupInterval_def DefaultJWTAccessDuration_def
      DefaultJWTRefreshDuration_def DefaultDBMaxOpenConns_def DefaultDBMaxIdleConns_def time_units MaxInt64_def)

definition jwt_ok :: "config_JWT \<Rightarrow> bool" where
  "jwt_ok j \<longleftrightarrow> 0 < cfg_AccessTokenDuration j \<and> cfg_AccessTokenDuration j \<le> MaxInt64 \<and> 0 < cfg_RefreshTokenDuration j
     \<and> cfg_RefreshTokenDuration j \<le> MaxInt64 \<and> (IdentitySecret j = '''' \<or> MinSecretLength \<le> length (IdentitySecret j))"

definition jwt_mistakes :: "unicode \<Rightarrow> environment \<Rightarrow> mistake list" where
  "jwt_mistakes U env = duration_mistakes U env ''JWT_ACCESS_TOKEN_DURATION'' 0 @ duration_mistakes U env ''JWT_REFRESH_TOKEN_DURATION'' 0
     @ positive_mistakes U env ''JWT_ACCESS_TOKEN_DURATION'' @ positive_mistakes U env ''JWT_REFRESH_TOKEN_DURATION''
     @ (if env ''IDENTITY_JWT_SECRET'' \<noteq> '''' \<and> length (env ''IDENTITY_JWT_SECRET'') < MinSecretLength then [('''', ErrIdentitySecretTooShort)] else [])"

lemma loadJWT_errs:
  assumes "loadJWT U env errs = (j, errs')"
  shows "adds errs errs' (jwt_mistakes U env) \<and> (errs' = None \<longrightarrow> jwt_ok j)"
proof -
  obtain a e1 where a: "env_duration U env ''JWT_ACCESS_TOKEN_DURATION'' DefaultJWTAccessDuration 0 errs = (a, e1)" by fastforce
  obtain r e2 where r: "env_duration U env ''JWT_REFRESH_TOKEN_DURATION'' DefaultJWTRefreshDuration 0 e1 = (r, e2)" by fastforce
  note a1 = env_duration_errs [OF a order_refl default_bounds(4)] and r1 = env_duration_errs [OF r order_refl default_bounds(5)]
  have pos: "a \<le> 0 \<longleftrightarrow> non_positive U env ''JWT_ACCESS_TOKEN_DURATION''" "r \<le> 0 \<longleftrightarrow> non_positive U env ''JWT_REFRESH_TOKEN_DURATION''"
    using life_time_mistakes [OF a default_bounds(4)] life_time_mistakes [OF r default_bounds(5)]
    by (simp_all add: DefaultJWTAccessDuration_def DefaultJWTRefreshDuration_def time_units)
  let ?e3 = "if a \<le> 0 then env_fail (Wrapped ''JWT_ACCESS_TOKEN_DURATION'' ErrNonPositiveDuration) e2 else e2"
  let ?e4 = "if r \<le> 0 then env_fail (Wrapped ''JWT_REFRESH_TOKEN_DURATION'' ErrNonPositiveDuration) ?e3 else ?e3"
  let ?s = "env ''IDENTITY_JWT_SECRET''"
  have j: "j = \<lparr>cfg_AccessTokenDuration = a, cfg_RefreshTokenDuration = r, cfg_Issuer = env ''JWT_ISSUER'', cfg_Audience = env ''JWT_AUDIENCE'', IdentitySecret = ?s\<rparr>"
    and errs': "errs' = (if ?s \<noteq> '''' \<and> length ?s < MinSecretLength then env_fail ErrIdentitySecretTooShort ?e4 else ?e4)"
    using assms a r by (auto simp: loadJWT_def Let_def)
  have 3: "adds e2 ?e3 (positive_mistakes U env ''JWT_ACCESS_TOKEN_DURATION'')" and 4: "adds ?e3 ?e4 (positive_mistakes U env ''JWT_REFRESH_TOKEN_DURATION'')"
    unfolding positive_mistakes_def pos by (rule adds_if, simp)+
  have 5: "adds ?e4 errs' (if ?s \<noteq> '''' \<and> length ?s < MinSecretLength then [('''', ErrIdentitySecretTooShort)] else [])"
    unfolding errs' by (rule adds_if) simp
  have "adds errs errs' (jwt_mistakes U env)"
    using adds_trans [OF adds_trans [OF adds_trans [OF adds_trans [OF conjunct1 [OF a1] conjunct1 [OF r1]] 3] 4] 5] by (simp add: jwt_mistakes_def)
  moreover have "jwt_ok j" if "errs' = None"
    using that a1 r1 by (auto simp: errs' j jwt_ok_def split: if_splits)
  ultimately show ?thesis by blast
qed

definition database_ok :: "unicode \<Rightarrow> sanitize \<Rightarrow> config_Database \<Rightarrow> bool" where
  "database_ok U sanitize d \<longleftrightarrow> db_URL d \<noteq> '''' \<and> 0 \<le> db_MaxOpenConns d \<and> 0 \<le> db_MaxIdleConns d
     \<and> db_ConnMaxLifetime d \<le> MaxInt64 \<and> db_ConnMaxIdleTime d \<le> MaxInt64 \<and> db_CleanupInterval d \<le> MaxInt64
     \<and> (UserEmailReference d \<noteq> '''' \<longrightarrow> (\<exists>p. ParseUserEmailReference U sanitize (UserEmailReference d) = Inr p))
     \<and> (UserUsernameColumn d \<noteq> '''' \<longrightarrow> UserEmailReference d \<noteq> '''' \<and> is_ident (UserUsernameColumn d))"

lemma Parse_error: "ParseUserEmailReference U sanitize r = Inl e \<Longrightarrow> errors_Is e ErrInvalidUserEmailReference"
  by (auto simp: ParseUserEmailReference_def Let_def split: option.splits)

definition database_mistakes :: "unicode \<Rightarrow> sanitize \<Rightarrow> environment \<Rightarrow> mistake list" where
  "database_mistakes U sanitize env =
     (let ref = env ''DB_USER_EMAIL_REFERENCE''; col = strings_ToLower U (strings_TrimSpace U (env ''DB_USER_USERNAME_COLUMN''))
      in if env ''DATABASE_URL'' = '''' then []
      else integer_mistakes U env ''DB_MAX_OPEN_CONNS'' @ integer_mistakes U env ''DB_MAX_IDLE_CONNS''
        @ duration_mistakes U env ''DB_CONN_MAX_LIFETIME'' Minute @ duration_mistakes U env ''DB_CONN_MAX_IDLE_TIME'' Minute
        @ duration_mistakes U env ''DB_CLEANUP_INTERVAL'' Hour
        @ (if ref \<noteq> '''' \<and> (\<nexists>p. ParseUserEmailReference U sanitize ref = Inr p) then [(''DB_USER_EMAIL_REFERENCE'', ErrInvalidUserEmailReference)] else [])
        @ (if col \<noteq> '''' \<and> ref = '''' then [('''', ErrUsernameColumnWithoutRef)] else [])
        @ (if col \<noteq> '''' \<and> ref \<noteq> '''' \<and> \<not> is_ident col then [(''DB_USER_USERNAME_COLUMN'', ErrInvalidUsernameColumn)] else []))"

lemma loadDatabase_errs:
  assumes "loadDatabase U sanitize env errs = (d, errs')"
  shows "adds errs errs' (database_mistakes U sanitize env)
    \<and> (errs' = None \<longrightarrow> (case d of None \<Rightarrow> env ''DATABASE_URL'' = '''' | Some db \<Rightarrow> database_ok U sanitize db))"
proof (cases "env ''DATABASE_URL'' = ''''")
  case True
  with assms show ?thesis by (auto simp: loadDatabase_def database_mistakes_def Let_def)
next
  case False
  obtain n1 e1 where 1: "env_integer U env ''DB_MAX_OPEN_CONNS'' DefaultDBMaxOpenConns errs = (n1, e1)" by fastforce
  obtain n2 e2 where 2: "env_integer U env ''DB_MAX_IDLE_CONNS'' DefaultDBMaxIdleConns e1 = (n2, e2)" by fastforce
  obtain d3 e3 where 3: "env_duration U env ''DB_CONN_MAX_LIFETIME'' DefaultDBConnMaxLifetime Minute e2 = (d3, e3)" by fastforce
  obtain d4 e4 where 4: "env_duration U env ''DB_CONN_MAX_IDLE_TIME'' DefaultDBConnMaxIdleTime Minute e3 = (d4, e4)" by fastforce
  obtain d5 e5 where 5: "env_duration U env ''DB_CLEANUP_INTERVAL'' DefaultDBCleanupInterval Hour e4 = (d5, e5)" by fastforce
  note i = env_integer_errs [OF 1 default_bounds(6)] env_integer_errs [OF 2 default_bounds(7)]
  note t = env_duration_errs [OF 3 default_bounds(8,1)] env_duration_errs [OF 4 default_bounds(8,2)] env_duration_errs [OF 5 default_bounds(9,3)]
  let ?ref = "env ''DB_USER_EMAIL_REFERENCE''" and ?col = "strings_ToLower U (strings_TrimSpace U (env ''DB_USER_USERNAME_COLUMN''))"
  let ?e6 = "if ?ref \<noteq> '''' then (case ParseUserEmailReference U sanitize ?ref of
      Inl err \<Rightarrow> env_fail (Wrapped ''DB_USER_EMAIL_REFERENCE'' err) e5 | Inr _ \<Rightarrow> e5) else e5"
  let ?r = "if ?ref \<noteq> '''' \<and> (\<nexists>p. ParseUserEmailReference U sanitize ?ref = Inr p) then [(''DB_USER_EMAIL_REFERENCE'', ErrInvalidUserEmailReference)] else []"
  let ?c1 = "if ?col \<noteq> '''' \<and> ?ref = '''' then [('''', ErrUsernameColumnWithoutRef)] else []"
  let ?c2 = "if ?col \<noteq> '''' \<and> ?ref \<noteq> '''' \<and> \<not> is_ident ?col then [(''DB_USER_USERNAME_COLUMN'', ErrInvalidUsernameColumn)] else []"
  have d: "d = Some \<lparr>db_URL = env ''DATABASE_URL'', db_MaxOpenConns = n1, db_MaxIdleConns = n2, db_ConnMaxLifetime = d3, db_ConnMaxIdleTime = d4,
      db_CleanupInterval = d5, db_AutoCreateSchema = isTrue env ''DB_AUTO_CREATE_SCHEMA'', UserEmailReference = ?ref, UserUsernameColumn = ?col\<rparr>"
    and errs': "errs' = (if ?col \<noteq> '''' then (if ?ref = '''' then env_fail ErrUsernameColumnWithoutRef ?e6
        else if \<not> is_ident ?col then env_fail (Wrapped ''DB_USER_USERNAME_COLUMN'' ErrInvalidUsernameColumn) ?e6 else ?e6) else ?e6)"
    using assms False by (auto simp: loadDatabase_def 1 2 3 4 5 Let_def)
  have 6: "adds e5 ?e6 ?r"
    by (auto intro!: adds_fail dest: Parse_error split: sum.splits)
  have 7: "adds ?e6 errs' (?c1 @ ?c2)"
    unfolding errs' by (auto intro!: adds_fail simp del: reports.simps) (simp_all only: reports.simps, simp_all)
  note a5 = adds_trans [OF adds_trans [OF adds_trans [OF adds_trans [OF conjunct2 [OF i(1)] conjunct2 [OF i(2)]] conjunct1 [OF t(1)]] conjunct1 [OF t(2)]] conjunct1 [OF t(3)]]
  have "database_mistakes U sanitize env = ((((integer_mistakes U env ''DB_MAX_OPEN_CONNS'' @ integer_mistakes U env ''DB_MAX_IDLE_CONNS'')
        @ duration_mistakes U env ''DB_CONN_MAX_LIFETIME'' Minute) @ duration_mistakes U env ''DB_CONN_MAX_IDLE_TIME'' Minute)
        @ duration_mistakes U env ''DB_CLEANUP_INTERVAL'' Hour) @ ?r @ ?c1 @ ?c2"
    using False by (simp add: database_mistakes_def Let_def)
  with adds_trans [OF a5 adds_trans [OF 6 7]] have "adds errs errs' (database_mistakes U sanitize env)" by (simp only:)
  moreover have "database_ok U sanitize (the d)" if n: "errs' = None"
  proof -
    have "?e6 = None" using n 7 by (auto simp: adds_def)
    with n i t False show ?thesis by (auto simp: d database_ok_def errs' split: if_splits sum.splits)
  qed
  ultimately show ?thesis by (simp add: d)
qed

definition oauth2_ok :: "config_OAuth2 \<Rightarrow> bool" where
  "oauth2_ok a \<longleftrightarrow> cl_ID (oa_Client a) \<noteq> '''' \<and> cl_Secret (oa_Client a) \<noteq> '''' \<and> cl_RedirectURL (oa_Client a) \<noteq> ''''
     \<and> list_all (\<lambda>s. s \<noteq> '''') (oa_Scopes a)
     \<and> (case (oa_OIDC a, oa_Provider a) of
          (Some i, None) \<Rightarrow> IssuerURL i \<noteq> ''''
        | (None, Some p) \<Rightarrow> IsBuiltin (pr_Name p) \<or> pr_AuthURL p \<noteq> '''' \<and> pr_TokenURL p \<noteq> '''' \<and> pr_UserinfoURL p \<noteq> ''''
        | _ \<Rightarrow> False)"

text \<open>The client of the OAuth2 provider is incomplete.\<close>

definition no_client :: "environment \<Rightarrow> bool" where
  "no_client env \<longleftrightarrow> env ''OAUTH2_CLIENT_ID'' = '''' \<or> env ''OAUTH2_CLIENT_SECRET'' = '''' \<or> env ''OAUTH2_REDIRECT_URL'' = ''''"

definition oauth2_mistakes :: "environment \<Rightarrow> mistake list" where
  "oauth2_mistakes env =
     (if no_client env \<and> env ''OIDC_ISSUER_URL'' \<noteq> '''' then [('''', ErrOIDCMissingClient)] else [])
     @ (if \<not> no_client env \<and> env ''OIDC_ISSUER_URL'' = '''' \<and> \<not> IsBuiltin (env ''OAUTH2_PROVIDER'')
          \<and> (env ''OAUTH2_AUTH_URL'' = '''' \<or> env ''OAUTH2_TOKEN_URL'' = '''' \<or> env ''OAUTH2_USERINFO_URL'' = '''')
        then [('''', ErrGenericProviderMissingURLs)] else [])"

lemma loadOAuth2_errs:
  assumes "loadOAuth2 U env errs = (a, errs')"
  shows "adds errs errs' (oauth2_mistakes env) \<and> (errs' = None \<longrightarrow> (case a of None \<Rightarrow> True | Some x \<Rightarrow> oauth2_ok x))"
proof (cases "no_client env")
  case True
  with assms show ?thesis by (auto simp: loadOAuth2_def oauth2_mistakes_def no_client_def Let_def intro!: adds_fail)
next
  case no: False
  have scopes: "list_all (\<lambda>s. s \<noteq> '''') (splitList U x)" for x by (simp add: splitList_def list_all_iff)
  show ?thesis
  proof (cases "env ''OIDC_ISSUER_URL'' = ''''")
    case True
    with no assms scopes show ?thesis
      by (auto simp: loadOAuth2_def oauth2_mistakes_def no_client_def oauth2_ok_def Let_def intro!: adds_fail)
  next
    case False
    with no assms scopes show ?thesis by (auto simp: loadOAuth2_def oauth2_mistakes_def no_client_def oauth2_ok_def Let_def)
  qed
qed

section \<open>Properties\<close>

lemma Load_steps:
  obtains d e1 j e2 a e3 where "loadDatabase U sanitize env None = (d, e1)" "loadJWT U env e1 = (j, e2)" "loadOAuth2 U env e2 = (a, e3)"
    "config_Load U sanitize env = (case e3 of Some err \<Rightarrow> Inl err | None \<Rightarrow> Inr
      \<lparr>cfg_HTTP = \<lparr>http_Address = stringOr env ''HTTP_ADDRESS'' DefaultHTTPAddress, http_Mode = stringOr env ''HTTP_MODE'' ModeProduction\<rparr>,
       cfg_Database = d, cfg_JWT = j, cfg_Redis = loadRedis env, cfg_OAuth2 = a,
       cfg_Auth = \<lparr>auth_AllowRegistration = isTrue env ''ALLOW_REGISTRATION'', auth_PassOAuthToken = isTrue env ''PASS_OAUTH_TOKEN'',
         auth_AllowUnverifiedEmail = isTrue env ''ALLOW_UNVERIFIED_EMAIL''\<rparr>\<rparr>)"
proof -
  obtain d e1 where 1: "loadDatabase U sanitize env None = (d, e1)" by fastforce
  obtain j e2 where 2: "loadJWT U env e1 = (j, e2)" by fastforce
  obtain a e3 where 3: "loadOAuth2 U env e2 = (a, e3)" by fastforce
  show thesis by (rule that [OF 1 2 3]) (simp add: config_Load_def 1 2 3 Let_def)
qed

lemma Load_valid:
  assumes "config_Load U sanitize env = Inr cfg"
  shows "jwt_ok (cfg_JWT cfg) \<and> (\<forall>db. cfg_Database cfg = Some db \<longrightarrow> database_ok U sanitize db)
    \<and> (\<forall>a. cfg_OAuth2 cfg = Some a \<longrightarrow> oauth2_ok a)"
proof -
  obtain d e1 j e2 a e3 where 1: "loadDatabase U sanitize env None = (d, e1)" and 2: "loadJWT U env e1 = (j, e2)" and 3: "loadOAuth2 U env e2 = (a, e3)"
    and load: "config_Load U sanitize env = (case e3 of Some err \<Rightarrow> Inl err | None \<Rightarrow> Inr
      \<lparr>cfg_HTTP = \<lparr>http_Address = stringOr env ''HTTP_ADDRESS'' DefaultHTTPAddress, http_Mode = stringOr env ''HTTP_MODE'' ModeProduction\<rparr>,
       cfg_Database = d, cfg_JWT = j, cfg_Redis = loadRedis env, cfg_OAuth2 = a,
       cfg_Auth = \<lparr>auth_AllowRegistration = isTrue env ''ALLOW_REGISTRATION'', auth_PassOAuthToken = isTrue env ''PASS_OAUTH_TOKEN'',
         auth_AllowUnverifiedEmail = isTrue env ''ALLOW_UNVERIFIED_EMAIL''\<rparr>\<rparr>)"
    by (rule Load_steps)
  note dbe = loadDatabase_errs [OF 1] and jwte = loadJWT_errs [OF 2] and oae = loadOAuth2_errs [OF 3]
  have e3: "e3 = None" using load assms by (cases e3) auto
  have e2: "e2 = None" using oae e3 by (simp add: adds_def)
  have e1: "e1 = None" using jwte e2 by (simp add: adds_def)
  have cfg: "cfg_JWT cfg = j" "cfg_Database cfg = d" "cfg_OAuth2 cfg = a" using load assms e3 by auto
  have "jwt_ok j" using jwte e2 by blast
  moreover have "database_ok U sanitize db" if "d = Some db" for db using dbe e1 that by (metis option.simps(5))
  moreover have "oauth2_ok x" if "a = Some x" for x using oae e3 that by (metis option.simps(5))
  ultimately show ?thesis by (simp add: cfg)
qed

text \<open>Which variables the parts of a configuration come from.\<close>

lemma Load_fields:
  assumes "config_Load U sanitize env = Inr cfg"
  shows "(cfg_Database cfg = None \<longleftrightarrow> env ''DATABASE_URL'' = '''')
    \<and> (\<forall>db. cfg_Database cfg = Some db \<longrightarrow> UserEmailReference db = env ''DB_USER_EMAIL_REFERENCE'')
    \<and> (cfg_OAuth2 cfg = None \<longleftrightarrow> no_client env)
    \<and> (\<forall>a. cfg_OAuth2 cfg = Some a \<longrightarrow> cl_PKCE (oa_Client a) = isTrue env ''OAUTH2_CLIENT_PKCE'')
    \<and> cfg_Auth cfg = \<lparr>auth_AllowRegistration = isTrue env ''ALLOW_REGISTRATION'', auth_PassOAuthToken = isTrue env ''PASS_OAUTH_TOKEN'',
        auth_AllowUnverifiedEmail = isTrue env ''ALLOW_UNVERIFIED_EMAIL''\<rparr>
    \<and> cfg_HTTP cfg = \<lparr>http_Address = stringOr env ''HTTP_ADDRESS'' DefaultHTTPAddress, http_Mode = stringOr env ''HTTP_MODE'' ModeProduction\<rparr>
    \<and> IdentitySecret (cfg_JWT cfg) = env ''IDENTITY_JWT_SECRET'' \<and> cfg_Redis cfg = loadRedis env"
proof -
  obtain d e1 j e2 a e3 where 1: "loadDatabase U sanitize env None = (d, e1)" and 2: "loadJWT U env e1 = (j, e2)" and 3: "loadOAuth2 U env e2 = (a, e3)"
    and load: "config_Load U sanitize env = (case e3 of Some err \<Rightarrow> Inl err | None \<Rightarrow> Inr
      \<lparr>cfg_HTTP = \<lparr>http_Address = stringOr env ''HTTP_ADDRESS'' DefaultHTTPAddress, http_Mode = stringOr env ''HTTP_MODE'' ModeProduction\<rparr>,
       cfg_Database = d, cfg_JWT = j, cfg_Redis = loadRedis env, cfg_OAuth2 = a,
       cfg_Auth = \<lparr>auth_AllowRegistration = isTrue env ''ALLOW_REGISTRATION'', auth_PassOAuthToken = isTrue env ''PASS_OAUTH_TOKEN'',
         auth_AllowUnverifiedEmail = isTrue env ''ALLOW_UNVERIFIED_EMAIL''\<rparr>\<rparr>)"
    by (rule Load_steps)
  have "e3 = None" using load assms by (cases e3) auto
  with load assms have cfg: "cfg_Database cfg = d" "cfg_JWT cfg = j" "cfg_OAuth2 cfg = a" "cfg_Redis cfg = loadRedis env"
    "cfg_Auth cfg = \<lparr>auth_AllowRegistration = isTrue env ''ALLOW_REGISTRATION'', auth_PassOAuthToken = isTrue env ''PASS_OAUTH_TOKEN'',
        auth_AllowUnverifiedEmail = isTrue env ''ALLOW_UNVERIFIED_EMAIL''\<rparr>"
    "cfg_HTTP cfg = \<lparr>http_Address = stringOr env ''HTTP_ADDRESS'' DefaultHTTPAddress, http_Mode = stringOr env ''HTTP_MODE'' ModeProduction\<rparr>"
    by auto
  have "d = None \<longleftrightarrow> env ''DATABASE_URL'' = ''''" and "\<forall>db. d = Some db \<longrightarrow> UserEmailReference db = env ''DB_USER_EMAIL_REFERENCE''"
    using 1 by (auto simp: loadDatabase_def Let_def split: if_splits prod.splits)
  moreover have "a = None \<longleftrightarrow> no_client env" and "\<forall>x. a = Some x \<longrightarrow> cl_PKCE (oa_Client x) = isTrue env ''OAUTH2_CLIENT_PKCE''"
    using 3 by (auto simp: loadOAuth2_def no_client_def Let_def split: if_splits)
  moreover have "IdentitySecret j = env ''IDENTITY_JWT_SECRET''" using 2 by (auto simp: loadJWT_def Let_def split: prod.splits)
  ultimately show ?thesis by (simp add: cfg)
qed

text \<open>
  C25. A configuration that \<^verbatim>\<open>Load\<close> returns is usable: both token life times are positive 64-bit durations, the identity secret is absent or has the
  required length, the connection limits are not negative, the reference to the users' e-mail column parses and a username column is an identifier
  beside such a reference, and an OAuth2 client is complete, with either an issuer or a provider whose endpoints are known.
\<close>

theorem Load_returns_valid_config:
  assumes "config_Load U sanitize env = Inr cfg"
  shows "jwt_ok (cfg_JWT cfg) \<and> (\<forall>db. cfg_Database cfg = Some db \<longrightarrow> database_ok U sanitize db)
    \<and> (\<forall>a. cfg_OAuth2 cfg = Some a \<longrightarrow> oauth2_ok a)"
  by (rule Load_valid [OF assms])

text \<open>A minimal environment, and one with every kind of mistake.\<close>

definition demo_env :: "(string \<times> string) list \<Rightarrow> environment" where
  "demo_env vars key = (case map_of vars key of None \<Rightarrow> '''' | Some v \<Rightarrow> v)"

abbreviation ascii :: unicode where
  "ascii \<equiv> \<lparr>uni_ToLower = id, uni_TrimSpace = id, uni_EqualFold = (=)\<rparr>"

theorem Load_returns_valid_config_witness:
  "\<exists>cfg. config_Load ascii dotted_parts (demo_env [(''DATABASE_URL'', ''postgres://h'')]) = Inr cfg \<and> jwt_ok (cfg_JWT cfg) \<and> cfg_Database cfg \<noteq> None"
proof -
  let ?env = "demo_env [(''DATABASE_URL'', ''postgres://h'')]"
  obtain cfg where load: "config_Load ascii dotted_parts ?env = Inr cfg" and "cfg_Database cfg \<noteq> None"
    by (simp add: config_Load_def loadDatabase_def loadJWT_def loadOAuth2_def env_integer_def env_duration_def demo_env_def Let_def
        strings_ToLower_def strings_TrimSpace_def DefaultJWTAccessDuration_def DefaultJWTRefreshDuration_def time_units)
  with Load_returns_valid_config [OF load] show ?thesis by blast
qed

text \<open>Every mistake in an environment, in the order in which the loaders come to them.\<close>

definition mistakes :: "unicode \<Rightarrow> sanitize \<Rightarrow> environment \<Rightarrow> mistake list" where
  "mistakes U sanitize env = database_mistakes U sanitize env @ jwt_mistakes U env @ oauth2_mistakes env"

text \<open>
  C30. \<^verbatim>\<open>Load\<close> reports every mistake at once, and nothing else. The errors joined in what it returns correspond one to one, in order, to the mistakes in the
  environment: connection limits that are not numbers or negative, connection times and life times that are no durations, a reference to the users'
  e-mail column that does not parse, a username column without a reference or that is no identifier (all these of the database only when its URL is set), token
  life times that are no durations or not positive, an identity secret that is too short, an issuer without a complete client, and a generic provider
  without its endpoints. Each error \<^verbatim>\<open>errors.Is\<close> the sentinel of its check and names the variable where the check names one. \<^verbatim>\<open>Load\<close> returns a
  configuration exactly when there is no mistake.
\<close>

theorem Load_reports_every_mistake:
  "list_all2 reports (case config_Load U sanitize env of Inl e \<Rightarrow> joined_errors e | Inr cfg \<Rightarrow> []) (mistakes U sanitize env)
   \<and> ((\<exists>cfg. config_Load U sanitize env = Inr cfg) \<longleftrightarrow> mistakes U sanitize env = [])"
proof -
  obtain d e1 j e2 a e3 where 1: "loadDatabase U sanitize env None = (d, e1)" and 2: "loadJWT U env e1 = (j, e2)" and 3: "loadOAuth2 U env e2 = (a, e3)"
    and load: "config_Load U sanitize env = (case e3 of Some err \<Rightarrow> Inl err | None \<Rightarrow> Inr
      \<lparr>cfg_HTTP = \<lparr>http_Address = stringOr env ''HTTP_ADDRESS'' DefaultHTTPAddress, http_Mode = stringOr env ''HTTP_MODE'' ModeProduction\<rparr>,
       cfg_Database = d, cfg_JWT = j, cfg_Redis = loadRedis env, cfg_OAuth2 = a,
       cfg_Auth = \<lparr>auth_AllowRegistration = isTrue env ''ALLOW_REGISTRATION'', auth_PassOAuthToken = isTrue env ''PASS_OAUTH_TOKEN'',
         auth_AllowUnverifiedEmail = isTrue env ''ALLOW_UNVERIFIED_EMAIL''\<rparr>\<rparr>)"
    by (rule Load_steps)
  have "adds None e3 (mistakes U sanitize env)"
    using adds_trans [OF conjunct1 [OF loadDatabase_errs [OF 1]] adds_trans [OF conjunct1 [OF loadJWT_errs [OF 2]] conjunct1 [OF loadOAuth2_errs [OF 3]]]]
    by (simp add: mistakes_def)
  moreover have "(case config_Load U sanitize env of Inl e \<Rightarrow> joined_errors e | Inr cfg \<Rightarrow> []) = collected e3"
    and "(\<exists>cfg. config_Load U sanitize env = Inr cfg) \<longleftrightarrow> e3 = None"
    by (simp_all add: load collected_def split: option.splits)
  ultimately show ?thesis by (simp add: adds_def collected_def)
qed

theorem Load_reports_every_mistake_witness:
  "\<exists>e e1 e2. config_Load ascii dotted_parts (demo_env [(''IDENTITY_JWT_SECRET'', ''short''), (''OIDC_ISSUER_URL'', ''https://idp'')]) = Inl e
    \<and> joined_errors e = [e1, e2] \<and> errors_Is e1 ErrIdentitySecretTooShort \<and> errors_Is e2 ErrOIDCMissingClient"
proof -
  let ?env = "demo_env [(''IDENTITY_JWT_SECRET'', ''short''), (''OIDC_ISSUER_URL'', ''https://idp'')]"
  have "mistakes ascii dotted_parts ?env = [('''', ErrIdentitySecretTooShort), ('''', ErrOIDCMissingClient)]"
    by (simp add: mistakes_def database_mistakes_def jwt_mistakes_def oauth2_mistakes_def duration_mistakes_def positive_mistakes_def no_duration_def
        non_positive_def no_client_def demo_env_def MinSecretLength_def Let_def)
  with Load_reports_every_mistake [of ascii dotted_parts ?env] show ?thesis
    by (auto simp: list_all2_Cons2 split: sum.splits)
qed

end
