(* ===== verification/Interleaving.thy ===== *)
theory Interleaving
  imports Demo
begin

text \<open>
  The methods of \<^verbatim>\<open>server/internal/cache/device/cached_db.go\<close> as the goroutines of one server run them: every call of the
  database and of the cache is one atomic step, and the steps of different goroutines interleave. \<open>pc\<close> says where a
  goroutine is inside a method and what its local variables hold, \<open>advance\<close> is its next step, and
  \<open>conc_step\<close> lets any goroutine move or enter a method. \<open>cc_loads\<close> is the table of the \<^verbatim>\<open>singleflight\<close> group: for
  a key with a load in flight, the goroutine that runs it; others that miss the cache wait for its result (\<open>LoadWait\<close>).

  Without interference the steps compute what the sequential methods of \<open>Cached_DB\<close> compute. Under every interleaving, over a cache
  that keeps its entries (\<open>retaining_secret_cache\<close>), a completed rotation or deletion is never undone in
  the cache by a load that read the database earlier. \<^verbatim>\<open>SaveDeviceSecret\<close> is left out: it only
  inserts a row under an unused identifier and does not touch the cache.
\<close>

section \<open>The goroutines\<close>

datatype pc =
    Idle
  | GetCache string
  | GetDo string
  | LoadQuery string
  | LoadStore string Secret
  | LoadDone string "go_error + Secret"
  | LoadWait string nat
  | GetReturned string "go_error + (string \<times> int)"
  | UpdExec string
  | UpdCache string int
  | UpdQuery string int
  | UpdStore string int Secret
  | UpdReturned string "go_error + int"
  | DelExec string string
  | DelCache string
  | DelReturned string "go_error option"
  | AllExec string
  | AllCache "string list" "string list"
  | AllReturned "string list" "go_error option"

record 'c conc =
  cc_db :: pg
  cc_cache :: 'c
  cc_loads :: "string \<rightharpoonup> nat"
  cc_pc :: "nat \<Rightarrow> pc"

abbreviation goto :: "nat \<Rightarrow> pc \<Rightarrow> 'c conc \<Rightarrow> 'c conc" where
  "goto i l s \<equiv> s\<lparr>cc_pc := (cc_pc s)(i := l)\<rparr>"

text \<open>The pair \<^verbatim>\<open>(secret.Value, secret.Generation)\<close> a lookup returns.\<close>

definition secret_pair :: "go_error + Secret \<Rightarrow> go_error + (string \<times> int)" where
  "secret_pair r = (case r of Inl e \<Rightarrow> Inl e | Inr s \<Rightarrow> Inr (Value s, Generation s))"

text \<open>
  When the leader's function returns, \<^verbatim>\<open>singleflight\<close> removes the key and hands the result to
  every waiting goroutine.
\<close>

definition finish_load :: "nat \<Rightarrow> string \<Rightarrow> go_error + Secret \<Rightarrow> 'c conc \<Rightarrow> 'c conc" where
  "finish_load i k r s = s\<lparr>cc_loads := (cc_loads s)(k := None),
     cc_pc := (\<lambda>j. if j = i \<or> cc_pc s j = LoadWait k i then GetReturned k (secret_pair r) else cc_pc s j)\<rparr>"

text \<open>The next step of goroutine \<open>i\<close>; \<open>None\<close> when it waits or has returned.\<close>

definition advance :: "'c SecretCache \<Rightarrow> nat \<Rightarrow> 'c conc \<Rightarrow> 'c conc option" where
  "advance SC i s = (case cc_pc s i of
     GetCache k \<Rightarrow>
       (case GetSecret SC (cc_cache s) k of
          (Some t, c) \<Rightarrow> Some (goto i (GetReturned k (Inr (Value t, Generation t))) (s\<lparr>cc_cache := c\<rparr>))
        | (None, c) \<Rightarrow> Some (goto i (GetDo k) (s\<lparr>cc_cache := c\<rparr>)))
   | GetDo k \<Rightarrow>
       (case cc_loads s k of
          Some j \<Rightarrow> Some (goto i (LoadWait k j) s)
        | None \<Rightarrow> Some (goto i (LoadQuery k) (s\<lparr>cc_loads := (cc_loads s)(k \<mapsto> i)\<rparr>)))
   | LoadQuery k \<Rightarrow>
       (case Database_GetDeviceSecret k (cc_db s) of
          (Inl err, p) \<Rightarrow> Some (goto i (LoadDone k (Inl (if errors_Is err ErrNoRows then ErrDeviceNotFound else err))) (s\<lparr>cc_db := p\<rparr>))
        | (Inr (val, gen), p) \<Rightarrow> Some (goto i (LoadStore k \<lparr>Value = val, Generation = gen\<rparr>) (s\<lparr>cc_db := p\<rparr>)))
   | LoadStore k t \<Rightarrow> Some (goto i (LoadDone k (Inr t)) (s\<lparr>cc_cache := SetSecret SC (cc_cache s) k t\<rparr>))
   | LoadDone k r \<Rightarrow> Some (finish_load i k r s)
   | UpdExec k \<Rightarrow>
       (case Database_UpdateDeviceSecret k (cc_db s) of
          (Inl err, p) \<Rightarrow> Some (goto i (UpdReturned k (Inl err)) (s\<lparr>cc_db := p\<rparr>))
        | (Inr n, p) \<Rightarrow> Some (goto i (UpdCache k n) (s\<lparr>cc_db := p\<rparr>)))
   | UpdCache k n \<Rightarrow>
       (case GetSecret SC (cc_cache s) k of
          (Some t, c) \<Rightarrow> Some (goto i (UpdStore k n t) (s\<lparr>cc_cache := c\<rparr>))
        | (None, c) \<Rightarrow> Some (goto i (UpdQuery k n) (s\<lparr>cc_cache := c\<rparr>)))
   | UpdQuery k n \<Rightarrow>
       (case Database_GetDeviceSecret k (cc_db s) of
          (Inl err, p) \<Rightarrow> Some (goto i (UpdReturned k (Inr n)) (s\<lparr>cc_db := p\<rparr>))
        | (Inr (val, gen), p) \<Rightarrow> Some (goto i (UpdStore k n \<lparr>Value = val, Generation = gen\<rparr>) (s\<lparr>cc_db := p\<rparr>)))
   | UpdStore k n t \<Rightarrow>
       Some (goto i (UpdReturned k (Inr n)) (s\<lparr>cc_cache := SetSecret SC (cc_cache s) k (t\<lparr>Generation := max (Generation t) n\<rparr>)\<rparr>))
   | DelExec em k \<Rightarrow>
       (case Database_DeleteDevice em k (cc_db s) of
          (Some err, p) \<Rightarrow> Some (goto i (DelReturned k (Some err)) (s\<lparr>cc_db := p\<rparr>))
        | (None, p) \<Rightarrow> Some (goto i (DelCache k) (s\<lparr>cc_db := p\<rparr>)))
   | DelCache k \<Rightarrow> Some (goto i (DelReturned k None) (s\<lparr>cc_cache := DeleteSecret SC (cc_cache s) k\<rparr>))
   | AllExec em \<Rightarrow>
       (case Database_DeleteAllDevicesReturningIDs em (cc_db s) of
          (Inl err, p) \<Rightarrow> Some (goto i (AllReturned [] (Some err)) (s\<lparr>cc_db := p\<rparr>))
        | (Inr ids, p) \<Rightarrow> Some (goto i (AllCache ids ids) (s\<lparr>cc_db := p\<rparr>)))
   | AllCache ids todo \<Rightarrow>
       (case todo of
          [] \<Rightarrow> Some (goto i (AllReturned ids None) s)
        | k # ks \<Rightarrow> Some (goto i (AllCache ids ks) (s\<lparr>cc_cache := DeleteSecret SC (cc_cache s) k\<rparr>)))
   | _ \<Rightarrow> None)"

text \<open>Outside a method a goroutine may enter any of them.\<close>

fun outside :: "pc \<Rightarrow> bool" where
  "outside Idle = True"
| "outside (GetReturned k r) = True"
| "outside (UpdReturned k r) = True"
| "outside (DelReturned k r) = True"
| "outside (AllReturned ks r) = True"
| "outside _ = False"

fun entry :: "pc \<Rightarrow> bool" where
  "entry (GetCache k) = True"
| "entry (UpdExec k) = True"
| "entry (DelExec em k) = True"
| "entry (AllExec em) = True"
| "entry _ = False"

inductive conc_step :: "'c SecretCache \<Rightarrow> 'c conc \<Rightarrow> 'c conc \<Rightarrow> bool" for SC where
  conc_go: "advance SC i s = Some s' \<Longrightarrow> conc_step SC s s'"
| conc_call: "outside (cc_pc s i) \<Longrightarrow> entry l \<Longrightarrow> conc_step SC s (goto i l s)"

section \<open>What the database keeps under every interleaving\<close>

text \<open>Rows only disappear or move to a later generation; a row keeps its secret.\<close>

definition db_moves_on :: "pg \<Rightarrow> pg \<Rightarrow> bool" where
  "db_moves_on p q \<longleftrightarrow> pg_invar q \<and> uuid_in q = uuid_in p \<and> (pg_up p \<longrightarrow> pg_up q)
     \<and> (\<forall>k r'. device_at q k = Some r' \<longrightarrow> (\<exists>r. device_at p k = Some r \<and> secret r' = secret r \<and> generation r \<le> generation r'))"

lemma db_moves_on_same: "pg_invar q \<Longrightarrow> same_server p q \<Longrightarrow> (pg_up p \<longrightarrow> pg_up q) \<Longrightarrow> device_at q = device_at p \<Longrightarrow> db_moves_on p q"
  by (auto simp: db_moves_on_def same_server_def)

lemma get_moves_on: "pg_invar p \<Longrightarrow> Database_GetDeviceSecret k p = (x, q) \<Longrightarrow> db_moves_on p q"
  using db_get [of p k x q] by (auto intro: db_moves_on_same)

lemma update_moves_on: "pg_invar p \<Longrightarrow> Database_UpdateDeviceSecret k p = (x, q) \<Longrightarrow> db_moves_on p q"
  using db_update [of p k x q] by (cases x) (auto simp: db_moves_on_def same_server_def split: if_splits)

lemma delete_moves_on: "pg_invar p \<Longrightarrow> Database_DeleteDevice em k p = (x, q) \<Longrightarrow> db_moves_on p q"
  using db_delete [of p em k x q] by (cases x) (auto simp: db_moves_on_def same_server_def split: option.splits if_splits)

lemma delete_all_moves_on: "pg_invar p \<Longrightarrow> Database_DeleteAllDevicesReturningIDs em p = (x, q) \<Longrightarrow> db_moves_on p q"
  using db_delete_all [of p em x q] by (cases x) (auto simp: db_moves_on_def same_server_def split: if_splits)

lemma db_moves_on_refl: "pg_invar p \<Longrightarrow> db_moves_on p p"
  by (auto simp: db_moves_on_def)

lemma db_moves_on_trans:
  assumes "db_moves_on p q" and "db_moves_on q r"
  shows "db_moves_on p r"
proof -
  have "\<exists>x. device_at p k = Some x \<and> secret z = secret x \<and> generation x \<le> generation z" if "device_at r k = Some z" for k z
  proof -
    from assms(2) that obtain y where "device_at q k = Some y" "secret z = secret y" "generation y \<le> generation z"
      unfolding db_moves_on_def by blast
    moreover from assms(1) this(1) obtain x where "device_at p k = Some x" "secret y = secret x" "generation x \<le> generation y"
      unfolding db_moves_on_def by blast
    ultimately show ?thesis by auto
  qed
  with assms show ?thesis by (simp add: db_moves_on_def)
qed

text \<open>A secret that a goroutine or the cache holds: not ahead of the row, and with the row's value.\<close>

definition held_ok :: "pg \<Rightarrow> string \<Rightarrow> Secret \<Rightarrow> bool" where
  "held_ok p k s \<longleftrightarrow> (uuid_in p k = Some k \<longrightarrow> (\<forall>r. device_at p k = Some r \<longrightarrow> Value s = secret r \<and> Generation s \<le> generation r))"

definition reached :: "pg \<Rightarrow> string \<Rightarrow> int \<Rightarrow> bool" where
  "reached p k n \<longleftrightarrow> (uuid_in p k = Some k \<longrightarrow> (\<forall>r. device_at p k = Some r \<longrightarrow> n \<le> generation r))"

lemma held_ok_moves_on: "db_moves_on p q \<Longrightarrow> held_ok p k s \<Longrightarrow> held_ok q k s"
  by (fastforce simp: db_moves_on_def held_ok_def)

lemma reached_moves_on: "db_moves_on p q \<Longrightarrow> reached p k n \<Longrightarrow> reached q k n"
  by (fastforce simp: db_moves_on_def reached_def)

lemma get_held:
  assumes "pg_invar p" and "Database_GetDeviceSecret k p = (Inr (v, g), q)"
  shows "held_ok q k \<lparr>Value = v, Generation = g\<rparr>"
  using db_get [OF assms] by (auto simp: held_ok_def same_server_def)

lemma update_reached:
  assumes "pg_invar p" and "Database_UpdateDeviceSecret k p = (Inr n, q)"
  shows "reached q k n"
  using db_update [OF assms] by (auto simp: reached_def same_server_def)

fun pc_ok :: "pg \<Rightarrow> pc \<Rightarrow> bool" where
  "pc_ok p (LoadStore k s) = held_ok p k s"
| "pc_ok p (UpdCache k n) = reached p k n"
| "pc_ok p (UpdQuery k n) = reached p k n"
| "pc_ok p (UpdStore k n s) = (reached p k n \<and> held_ok p k s)"
| "pc_ok p _ = True"

lemma pc_ok_moves_on: "db_moves_on p q \<Longrightarrow> pc_ok p l \<Longrightarrow> pc_ok q l"
  by (cases l) (auto intro: held_ok_moves_on reached_moves_on)

section \<open>A cache that keeps its entries\<close>

text \<open>
  \<open>entries\<close> are the entries of the cache, tombstones included. The in-memory cache is such a cache as long as no
  entry expires or is evicted.
\<close>

locale retaining_secret_cache =
  fixes SC :: "'c SecretCache"
    and entries :: "'c \<Rightarrow> string \<rightharpoonup> Secret"
    and retains :: "'c \<Rightarrow> bool"
  assumes get_entries: "retains c \<Longrightarrow> GetSecret SC c k = (r, c') \<Longrightarrow>
      r = live_secret (entries c k) \<and> entries c' = entries c \<and> retains c'"
    and set_entries: "retains c \<Longrightarrow> retains (SetSecret SC c k s) \<and> entries (SetSecret SC c k s) = (entries c)(k \<mapsto>
      (case entries c k of None \<Rightarrow> s | Some t \<Rightarrow> if Secret_deleted t \<or> Generation s \<le> Generation t then t else s))"
    and del_entries: "retains c \<Longrightarrow> retains (DeleteSecret SC c k) \<and> entries (DeleteSecret SC c k) = (entries c)(k \<mapsto> zero_Secret)"

interpretation memr: retaining_secret_cache memory_SecretCache "\<lambda>m. cache_contents (secrets m)" "\<lambda>m. cache_retains zero_Secret (secrets m)"
proof (unfold_locales, goal_cases)
  case (1 c k r c')
  then show ?case
    by (auto simp: memory_SecretCache_def memorySecretCache_GetSecret_def cache_GetIfPresent_def cache_retains_def cache_contents_def
        otter_retains_def live_secret_def split: prod.splits)
next
  case (2 c k s)
  let ?L = "otter_methods (secrets c)" and ?m = "otter_state (secrets c)"
  obtain old found where of: "(case otter_contents ?L ?m k of None \<Rightarrow> (zero_Secret, False) | Some v \<Rightarrow> (v, True)) = (old, found)" by fastforce
  from 2 have "let (old, found) = (case otter_contents ?L ?m k of None \<Rightarrow> (zero_Secret, False) | Some v \<Rightarrow> (v, True))
      in \<exists>m'. otter_Compute ?L ?m k (set_newer s) = ((old, found), m')
        \<and> otter_contents ?L m' = compute_effect (otter_contents ?L ?m) k (set_newer s old found)"
    unfolding cache_retains_def otter_retains_def by blast
  with of obtain m' where m': "otter_Compute ?L ?m k (set_newer s) = ((old, found), m')"
    "otter_contents ?L m' = compute_effect (otter_contents ?L ?m) k (set_newer s old found)" by auto
  from 2 of m' show ?case
    by (auto simp: memory_SecretCache_def memorySecretCache_SetSecret_def cache_Compute_def cache_contents_def cache_retains_def
        compute_effect_def set_newer_def fun_eq_iff split: option.splits)
next
  case (3 c k)
  then show ?case
    by (auto simp: memory_SecretCache_def memorySecretCache_DeleteSecret_def cache_Set_def cache_contents_def cache_retains_def otter_retains_def)
qed

section \<open>Invariants\<close>

text \<open>A tombstone, or an entry at generation \<open>n\<close> or later.\<close>

definition at_least :: "(string \<rightharpoonup> Secret) \<Rightarrow> string \<Rightarrow> int \<Rightarrow> bool" where
  "at_least e k n \<longleftrightarrow> (\<exists>t. e k = Some t \<and> (Secret_deleted t \<or> n \<le> Generation t))"

definition tombstone :: "(string \<rightharpoonup> Secret) \<Rightarrow> string \<Rightarrow> bool" where
  "tombstone e k \<longleftrightarrow> (\<exists>t. e k = Some t \<and> Secret_deleted t)"

text \<open>What holds of a goroutine that has returned, or is about to.\<close>

fun pc_done :: "pg \<Rightarrow> (string \<rightharpoonup> Secret) \<Rightarrow> pc \<Rightarrow> bool" where
  "pc_done p e (UpdReturned k (Inr n)) = (uuid_in p k = Some k \<longrightarrow> device_at p k = None \<or> at_least e k n)"
| "pc_done p e (DelReturned k None) = tombstone e k"
| "pc_done p e (AllCache ids todo) = (\<forall>k\<in>set ids. k \<in> set todo \<or> tombstone e k)"
| "pc_done p e (AllReturned ids None) = (\<forall>k\<in>set ids. tombstone e k)"
| "pc_done p e _ = True"

text \<open>Entries change only towards later generations and tombstones.\<close>

definition entries_move_on :: "(string \<rightharpoonup> Secret) \<Rightarrow> (string \<rightharpoonup> Secret) \<Rightarrow> bool" where
  "entries_move_on e f \<longleftrightarrow> (\<forall>k t. e k = Some t \<longrightarrow> (\<exists>t'. f k = Some t' \<and> (Secret_deleted t' \<or> \<not> Secret_deleted t \<and> Generation t \<le> Generation t')))"

lemma entries_move_on_refl [simp]: "entries_move_on e e"
  by (auto simp: entries_move_on_def)

lemma entries_move_on_trans: "entries_move_on e f \<Longrightarrow> entries_move_on f g \<Longrightarrow> entries_move_on e g"
  unfolding entries_move_on_def by (meson order_trans)

lemma at_least_moves_on: "entries_move_on e f \<Longrightarrow> at_least e k n \<Longrightarrow> at_least f k n"
  unfolding entries_move_on_def at_least_def by (meson order_trans)

lemma tombstone_moves_on: "entries_move_on e f \<Longrightarrow> tombstone e k \<Longrightarrow> tombstone f k"
  unfolding entries_move_on_def tombstone_def by blast

lemma db_gone: "db_moves_on p q \<Longrightarrow> device_at p k = None \<Longrightarrow> device_at q k = None"
  unfolding db_moves_on_def by (cases "device_at q k") fastforce+

lemma pc_done_moves_on: "db_moves_on p q \<Longrightarrow> entries_move_on e f \<Longrightarrow> pc_done p e l \<Longrightarrow> pc_done q f l"
proof (induction p e l rule: pc_done.induct)
  case (1 p e k n)
  have "uuid_in q = uuid_in p" using 1(1) by (simp add: db_moves_on_def)
  with 1 show ?case by (auto intro: db_gone at_least_moves_on)
qed (auto intro: tombstone_moves_on)

definition conc_inv :: "('c \<Rightarrow> string \<rightharpoonup> Secret) \<Rightarrow> ('c \<Rightarrow> bool) \<Rightarrow> 'c conc \<Rightarrow> bool" where
  "conc_inv entries retains s \<longleftrightarrow> pg_invar (cc_db s) \<and> pg_up (cc_db s) \<and> retains (cc_cache s)
     \<and> (\<forall>k t. entries (cc_cache s) k = Some t \<longrightarrow> \<not> Secret_deleted t \<longrightarrow> held_ok (cc_db s) k t)
     \<and> (\<forall>i. pc_ok (cc_db s) (cc_pc s i) \<and> pc_done (cc_db s) (entries (cc_cache s)) (cc_pc s i))"

definition moves_on :: "('c \<Rightarrow> string \<rightharpoonup> Secret) \<Rightarrow> 'c conc \<Rightarrow> 'c conc \<Rightarrow> bool" where
  "moves_on entries s s' \<longleftrightarrow> db_moves_on (cc_db s) (cc_db s') \<and> entries_move_on (entries (cc_cache s)) (entries (cc_cache s'))"

context retaining_secret_cache begin

text \<open>A step whose goroutine lands in an allowed place, with the database and the cache moving on, keeps the invariant.\<close>

lemma conc_inv_step:
  assumes inv: "conc_inv entries retains s" and db: "db_moves_on (cc_db s) q" and c: "retains c" "entries_move_on (entries (cc_cache s)) (entries c)"
    and new: "\<And>k t. entries c k = Some t \<Longrightarrow> \<not> Secret_deleted t \<Longrightarrow> entries (cc_cache s) k = Some t \<or> held_ok q k t"
    and l: "pc_ok q l" "pc_done q (entries c) l"
    and s': "cc_db s' = q" "cc_cache s' = c" "\<And>j. cc_pc s' j = cc_pc s j \<or> cc_pc s' j = l"
  shows "conc_inv entries retains s' \<and> moves_on entries s s'"
proof -
  have "held_ok q k t" if "entries c k = Some t" "\<not> Secret_deleted t" for k t
    using new [OF that] inv that(2) held_ok_moves_on [OF db] by (auto simp: conc_inv_def)
  moreover have "pc_ok q (cc_pc s' j) \<and> pc_done q (entries c) (cc_pc s' j)" for j
    using s'(3) [of j] inv pc_ok_moves_on [OF db] pc_done_moves_on [OF db c(2)] l by (auto simp: conc_inv_def)
  moreover have "pg_invar q" "pg_up q" using db inv by (auto simp: db_moves_on_def conc_inv_def)
  ultimately show ?thesis using c db by (simp add: conc_inv_def moves_on_def s'(1,2))
qed

lemma set_moves_on:
  assumes "retains c"
  shows "retains (SetSecret SC c k t)" and "entries_move_on (entries c) (entries (SetSecret SC c k t))"
    and "entries (SetSecret SC c k t) j = Some x \<Longrightarrow> entries c j = Some x \<or> j = k \<and> x = t"
    and "n \<le> Generation t \<Longrightarrow> at_least (entries (SetSecret SC c k t)) k n"
  using set_entries [OF assms, of k t]
  by (auto simp: entries_move_on_def at_least_def split: option.splits if_splits)

lemma delete_moves_on_cache:
  assumes "retains c"
  shows "retains (DeleteSecret SC c k)" and "entries_move_on (entries c) (entries (DeleteSecret SC c k))"
    and "entries (DeleteSecret SC c k) j = Some x \<Longrightarrow> \<not> Secret_deleted x \<Longrightarrow> entries c j = Some x"
    and "tombstone (entries (DeleteSecret SC c k)) k"
  using del_entries [OF assms, of k]
  by (auto simp: entries_move_on_def tombstone_def split: if_splits)

lemma get_state:
  assumes "retains c" and "GetSecret SC c k = (r, c')"
  shows "retains c'" "entries c' = entries c" "r = live_secret (entries c k)"
  using get_entries [OF assms] by simp_all

text \<open>The steps on the cache alone.\<close>

lemma step_cache:
  assumes inv: "conc_inv entries retains s" and adv: "advance SC i s = Some s'"
    and l: "cc_pc s i = GetCache k \<or> cc_pc s i = UpdCache k n"
  shows "conc_inv entries retains s' \<and> moves_on entries s s'"
proof -
  obtain r c where get: "GetSecret SC (cc_cache s) k = (r, c)" by fastforce
  from inv have c: "retains (cc_cache s)" and db: "db_moves_on (cc_db s) (cc_db s)" and old: "pc_ok (cc_db s) (cc_pc s i)"
    and held: "\<And>t. entries (cc_cache s) k = Some t \<Longrightarrow> \<not> Secret_deleted t \<Longrightarrow> held_ok (cc_db s) k t"
    by (auto simp: conc_inv_def intro: db_moves_on_refl)
  note get' = get_state [OF c get]
  from adv l get obtain l' where s': "s' = goto i l' (s\<lparr>cc_cache := c\<rparr>)"
    and l': "(\<exists>t. r = Some t \<and> (l' = GetReturned k (Inr (Value t, Generation t)) \<or> l' = UpdStore k n t \<and> cc_pc s i = UpdCache k n))
      \<or> l' = GetDo k \<or> l' = UpdQuery k n \<and> cc_pc s i = UpdCache k n"
    by (auto simp: advance_def split: option.splits)
  have "pc_ok (cc_db s) l'" using l' old held get'(3) by auto
  moreover have "pc_done (cc_db s) (entries c) l'" using l' by auto
  ultimately show ?thesis
    by (intro conc_inv_step [OF inv db get'(1), of l']) (simp_all add: get'(2) s')
qed

text \<open>The steps on the database alone: the goroutine lands in a place that the database justifies.\<close>

lemma step_db_lands:
  assumes inv: "conc_inv entries retains s" and adv: "advance SC i s = Some s'"
    and l: "cc_pc s i \<in> {LoadQuery k, UpdExec k, UpdQuery k n, DelExec em k, AllExec em}"
  obtains q l' where "s' = goto i l' (s\<lparr>cc_db := q\<rparr>)" and "db_moves_on (cc_db s) q" and "pc_ok q l'"
    and "pc_done q (entries (cc_cache s)) l'"
proof -
  from inv have p: "pg_invar (cc_db s)" and up: "pg_up (cc_db s)" and old: "pc_ok (cc_db s) (cc_pc s i)"
    by (simp_all add: conc_inv_def)
  from l consider "cc_pc s i = LoadQuery k" | "cc_pc s i = UpdExec k" | "cc_pc s i = UpdQuery k n" | "cc_pc s i = DelExec em k" | "cc_pc s i = AllExec em"
    by auto
  then show thesis
  proof cases
    case 1
    obtain x q where call: "Database_GetDeviceSecret k (cc_db s) = (x, q)" by fastforce
    show thesis
      by (rule that [of q "case x of Inl err \<Rightarrow> LoadDone k (Inl (if errors_Is err ErrNoRows then ErrDeviceNotFound else err))
          | Inr (v, g) \<Rightarrow> LoadStore k \<lparr>Value = v, Generation = g\<rparr>"])
        (use adv 1 call get_moves_on [OF p call] get_held [OF p] in \<open>auto simp: advance_def split: sum.splits\<close>)
  next
    case 2
    obtain x q where call: "Database_UpdateDeviceSecret k (cc_db s) = (x, q)" by fastforce
    show thesis
      by (rule that [of q "case x of Inl err \<Rightarrow> UpdReturned k (Inl err) | Inr m \<Rightarrow> UpdCache k m"])
        (use adv 2 call update_moves_on [OF p call] update_reached [OF p] in \<open>auto simp: advance_def split: sum.splits\<close>)
  next
    case 3
    obtain x q where call: "Database_GetDeviceSecret k (cc_db s) = (x, q)" by fastforce
    note mv = get_moves_on [OF p call]
    have gone: "device_at q k = None" if "x = Inl e" "uuid_in q k = Some k" for e
    proof (rule db_gone [OF mv])
      show "device_at (cc_db s) k = None"
        using db_get_up [OF up, of k] that call mv by (auto simp: db_moves_on_def split: option.splits)
    qed
    have "reached q k n" using old 3 reached_moves_on [OF mv] by simp
    with gone show thesis
      by (intro that [of q "case x of Inl err \<Rightarrow> UpdReturned k (Inr n) | Inr (v, g) \<Rightarrow> UpdStore k n \<lparr>Value = v, Generation = g\<rparr>"])
        (use adv 3 call mv get_held [OF p] in \<open>auto simp: advance_def split: sum.splits\<close>)
  next
    case 4
    obtain x q where call: "Database_DeleteDevice em k (cc_db s) = (x, q)" by fastforce
    show thesis
      by (rule that [of q "case x of Some err \<Rightarrow> DelReturned k (Some err) | None \<Rightarrow> DelCache k"])
        (use adv 4 call delete_moves_on [OF p call] in \<open>auto simp: advance_def split: option.splits\<close>)
  next
    case 5
    obtain x q where call: "Database_DeleteAllDevicesReturningIDs em (cc_db s) = (x, q)" by fastforce
    show thesis
      by (rule that [of q "case x of Inl err \<Rightarrow> AllReturned [] (Some err) | Inr ids \<Rightarrow> AllCache ids ids"])
        (use adv 5 call delete_all_moves_on [OF p call] in \<open>auto simp: advance_def split: sum.splits\<close>)
  qed
qed

lemma step_db:
  assumes inv: "conc_inv entries retains s" and adv: "advance SC i s = Some s'"
    and l: "cc_pc s i \<in> {LoadQuery k, UpdExec k, UpdQuery k n, DelExec em k, AllExec em}"
  shows "conc_inv entries retains s' \<and> moves_on entries s s'"
proof -
  from inv have c: "retains (cc_cache s)" by (simp add: conc_inv_def)
  obtain q l' where s': "s' = goto i l' (s\<lparr>cc_db := q\<rparr>)" and "db_moves_on (cc_db s) q" "pc_ok q l'" "pc_done q (entries (cc_cache s)) l'"
    by (rule step_db_lands [OF inv adv l])
  then show ?thesis by (intro conc_inv_step [OF inv _ c, of q l']) simp_all
qed

text \<open>The writes to the cache.\<close>

lemma step_write:
  assumes inv: "conc_inv entries retains s" and adv: "advance SC i s = Some s'"
    and l: "cc_pc s i = LoadStore k t \<or> cc_pc s i = UpdStore k n t"
  shows "conc_inv entries retains s' \<and> moves_on entries s s'"
proof -
  from inv have p: "db_moves_on (cc_db s) (cc_db s)" and c: "retains (cc_cache s)" and old: "pc_ok (cc_db s) (cc_pc s i)"
    by (simp_all add: conc_inv_def db_moves_on_refl)
  from l show ?thesis
  proof
    assume 1: "cc_pc s i = LoadStore k t"
    with adv have s': "s' = goto i (LoadDone k (Inr t)) (s\<lparr>cc_cache := SetSecret SC (cc_cache s) k t\<rparr>)" by (simp add: advance_def)
    show ?thesis
      by (rule conc_inv_step [OF inv p set_moves_on(1,2) [OF c, of k t], of "LoadDone k (Inr t)"])
        (use set_moves_on(3) [OF c, of k t] old 1 in \<open>auto simp: s'\<close>)
  next
    assume 2: "cc_pc s i = UpdStore k n t"
    let ?t = "t\<lparr>Generation := max (Generation t) n\<rparr>"
    from 2 adv have s': "s' = goto i (UpdReturned k (Inr n)) (s\<lparr>cc_cache := SetSecret SC (cc_cache s) k ?t\<rparr>)" by (simp add: advance_def)
    have "held_ok (cc_db s) k ?t" using old 2 by (auto simp: held_ok_def reached_def)
    then show ?thesis
      by (intro conc_inv_step [OF inv p set_moves_on(1,2) [OF c, of k ?t], of "UpdReturned k (Inr n)"])
        (use set_moves_on(3) [OF c, of k ?t] set_moves_on(4) [OF c, of n ?t k] in \<open>auto simp: s'\<close>)
  qed
qed

lemma step_tombstone:
  assumes inv: "conc_inv entries retains s" and adv: "advance SC i s = Some s'"
    and l: "cc_pc s i = DelCache k \<or> cc_pc s i = AllCache ids todo"
  shows "conc_inv entries retains s' \<and> moves_on entries s s'"
proof -
  from inv have p: "db_moves_on (cc_db s) (cc_db s)" and c: "retains (cc_cache s)"
    and old: "pc_done (cc_db s) (entries (cc_cache s)) (cc_pc s i)"
    by (simp_all add: conc_inv_def db_moves_on_refl)
  note del = delete_moves_on_cache [OF c]
  consider "cc_pc s i = DelCache k" | "cc_pc s i = AllCache ids []" | j ks where "cc_pc s i = AllCache ids (j # ks)"
    using l by (cases todo) auto
  then show ?thesis
  proof cases
    case 1
    with adv show ?thesis
      by (intro conc_inv_step [OF inv p del(1,2), of k "DelReturned k None"]) (auto simp: advance_def del(3) intro: del(4))
  next
    case 2
    with adv old show ?thesis
      by (intro conc_inv_step [OF inv p c, of "AllReturned ids None"]) (auto simp: advance_def)
  next
    case 3
    have "tombstone (entries (DeleteSecret SC (cc_cache s) j)) x" if "x \<in> set ids" "x \<notin> set ks" for x
      using old 3 that tombstone_moves_on [OF del(2)] del(4) by auto
    with 3 adv show ?thesis
      by (intro conc_inv_step [OF inv p del(1,2), of j "AllCache ids ks"]) (auto simp: advance_def del(3))
  qed
qed

lemma conc_step_inv:
  assumes inv: "conc_inv entries retains s" and step: "conc_step SC s s'"
  shows "conc_inv entries retains s' \<and> moves_on entries s s'"
  using step
proof cases
  case (conc_go i)
  from inv have p: "db_moves_on (cc_db s) (cc_db s)" and c: "retains (cc_cache s)" by (simp_all add: conc_inv_def db_moves_on_refl)
  show ?thesis
  proof (cases "cc_pc s i")
    case (GetDo k)
    with conc_go obtain l where "cc_db s' = cc_db s" "cc_cache s' = cc_cache s" "cc_pc s' = (cc_pc s)(i := l)"
      "l = LoadQuery k \<or> (\<exists>j. l = LoadWait k j)"
      by (auto simp: advance_def split: option.splits)
    then show ?thesis by (intro conc_inv_step [OF inv p c, of l]) auto
  next
    case (LoadDone k r)
    with conc_go show ?thesis
      by (intro conc_inv_step [OF inv p c, of "GetReturned k (secret_pair r)"]) (auto simp: advance_def finish_load_def)
  next
    case (GetCache k)
    show ?thesis by (rule step_cache [OF inv conc_go disjI1 [OF GetCache]])
  next
    case (UpdCache k n)
    show ?thesis by (rule step_cache [OF inv conc_go disjI2 [OF UpdCache]])
  next
    case (LoadStore k t)
    show ?thesis by (rule step_write [OF inv conc_go disjI1 [OF LoadStore]])
  next
    case (UpdStore k n t)
    show ?thesis by (rule step_write [OF inv conc_go disjI2 [OF UpdStore]])
  next
    case (DelCache k)
    show ?thesis by (rule step_tombstone [OF inv conc_go disjI1 [OF DelCache]])
  next
    case (AllCache ids todo)
    show ?thesis by (rule step_tombstone [OF inv conc_go disjI2 [OF AllCache]])
  next
    case (LoadQuery k)
    then show ?thesis by (intro step_db [OF inv conc_go]) simp
  next
    case (UpdExec k)
    then show ?thesis by (intro step_db [OF inv conc_go]) simp
  next
    case (UpdQuery k n)
    then show ?thesis by (intro step_db [OF inv conc_go]) simp
  next
    case (DelExec em k)
    then show ?thesis by (intro step_db [OF inv conc_go]) simp
  next
    case (AllExec em)
    then show ?thesis by (intro step_db [OF inv conc_go]) simp
  qed (use conc_go in \<open>simp_all add: advance_def\<close>)
next
  case (conc_call i l)
  with inv show ?thesis
    by (intro conc_inv_step [OF inv, of "cc_db s" "cc_cache s" l]) (cases l; auto simp: conc_inv_def db_moves_on_refl)+
qed

end

section \<open>Without interference\<close>

text \<open>
  Goroutine \<open>i\<close> enters a method at \<open>l0\<close> and runs alone: it returns at \<open>l\<close>, and leaves the database and the cache as \<open>d\<close>, and
  the other goroutines and the loads as they were.
\<close>

definition runs_alone :: "'c SecretCache \<Rightarrow> nat \<Rightarrow> 'c conc \<Rightarrow> pc \<Rightarrow> pc \<Rightarrow> 'c CachedDB \<Rightarrow> bool" where
  "runs_alone SC i s l0 l d \<longleftrightarrow> (\<exists>s'. (\<lambda>a b. advance SC i a = Some b)\<^sup>*\<^sup>* (goto i l0 s) s'
     \<and> cc_pc s' = (cc_pc s)(i := l) \<and> cc_db s' = cdb_db d \<and> cc_cache s' = cache d \<and> cc_loads s' = cc_loads s)"

definition sequential :: "'c conc \<Rightarrow> 'c CachedDB" where
  "sequential s = NewCachedDB (cc_db s) (cc_cache s)"

lemma runs_alone_return: "cdb_db d = cc_db s \<Longrightarrow> cache d = cc_cache s \<Longrightarrow> runs_alone SC i s l l d"
  unfolding runs_alone_def by (intro exI [of _ "goto i l s"]) simp

lemma runs_alone_step:
  assumes "advance SC i (goto i l0 s) = Some (goto i l1 s1)" and "cc_pc s1 = cc_pc s" and "cc_loads s1 = cc_loads s"
    and "runs_alone SC i s1 l1 l d"
  shows "runs_alone SC i s l0 l d"
  using assms(4) converse_rtranclp_into_rtranclp [of "\<lambda>a b. advance SC i a = Some b", OF assms(1)]
  unfolding runs_alone_def assms(2,3) by blast

lemma runs_alone_get:
  assumes "cc_loads s k = None" and "\<And>j. cc_pc s j \<noteq> LoadWait k i" and get: "CachedDB_GetDeviceSecret SC k (sequential s) = (x, d)"
  shows "runs_alone SC i s (GetCache k) (GetReturned k x) d"
proof -
  obtain h c where hit: "GetSecret SC (cc_cache s) k = (h, c)" by fastforce
  let ?s1 = "s\<lparr>cc_cache := c\<rparr>"
  show ?thesis
  proof (cases h)
    case (Some t)
    with hit get have "x = Inr (Value t, Generation t)" "d = (sequential s)\<lparr>cdb_db := cc_db ?s1, cache := cc_cache ?s1\<rparr>"
      by (auto simp: CachedDB_GetDeviceSecret_def sequential_def NewCachedDB_def)
    with Some hit show ?thesis
      by (intro runs_alone_step [of SC i s "GetCache k" ?s1 "GetReturned k x"]) (auto simp: advance_def intro: runs_alone_return)
  next
    case None
    obtain y p where call: "Database_GetDeviceSecret k (cc_db s) = (y, p)" by fastforce
    define r where "r = (case y of Inl e \<Rightarrow> Inl (if errors_Is e ErrNoRows then ErrDeviceNotFound else e) | Inr (v, g) \<Rightarrow> Inr \<lparr>Value = v, Generation = g\<rparr>)"
    define c' where "c' = (case r of Inl e \<Rightarrow> c | Inr t \<Rightarrow> SetSecret SC c k t)"
    have load: "loadSecret SC k ((sequential s)\<lparr>cache := c\<rparr>) = (r, (sequential s)\<lparr>cdb_db := p, cache := c'\<rparr>)"
      by (auto simp: loadSecret_def sequential_def NewCachedDB_def call r_def c'_def Let_def split: sum.splits)
    with get hit None have x: "x = secret_pair r" and d: "d = (sequential s)\<lparr>cdb_db := p, cache := c'\<rparr>"
      by (auto simp: CachedDB_GetDeviceSecret_def secret_pair_def sequential_def NewCachedDB_def split: sum.splits)
    let ?R = "\<lambda>a b. advance SC i a = Some b"
    let ?s2 = "?s1\<lparr>cc_loads := (cc_loads s)(k \<mapsto> i)\<rparr>"
    let ?s3 = "?s2\<lparr>cc_db := p\<rparr>"
    let ?s4 = "?s3\<lparr>cc_cache := c'\<rparr>"
    have 1: "?R (goto i (GetCache k) s) (goto i (GetDo k) ?s1)" using hit None by (simp add: advance_def)
    have 2: "?R (goto i (GetDo k) ?s1) (goto i (LoadQuery k) ?s2)" using assms(1) by (simp add: advance_def)
    have 3: "?R\<^sup>*\<^sup>* (goto i (LoadQuery k) ?s2) (goto i (LoadDone k r) ?s4)"
    proof (cases y)
      case (Inl e)
      then have "?R (goto i (LoadQuery k) ?s2) (goto i (LoadDone k r) ?s4)" using call by (simp add: advance_def r_def c'_def)
      then show ?thesis by (rule r_into_rtranclp)
    next
      case (Inr vg)
      obtain v g where vg: "vg = (v, g)" by fastforce
      have "?R (goto i (LoadQuery k) ?s2) (goto i (LoadStore k \<lparr>Value = v, Generation = g\<rparr>) ?s3)"
        using call Inr vg by (simp add: advance_def)
      moreover have "?R (goto i (LoadStore k \<lparr>Value = v, Generation = g\<rparr>) ?s3) (goto i (LoadDone k r) ?s4)"
        using Inr vg by (simp add: advance_def r_def c'_def)
      ultimately show ?thesis by (rule converse_rtranclp_into_rtranclp [OF _ r_into_rtranclp])
    qed
    have 4: "?R (goto i (LoadDone k r) ?s4) (finish_load i k r (goto i (LoadDone k r) ?s4))" by (simp add: advance_def)
    have "?R\<^sup>*\<^sup>* (goto i (GetCache k) s) (finish_load i k r (goto i (LoadDone k r) ?s4))"
      using 3 4 by (intro converse_rtranclp_into_rtranclp [of ?R, OF 1] converse_rtranclp_into_rtranclp [of ?R, OF 2]) (rule rtranclp.rtrancl_into_rtrancl)
    with assms(1,2) show ?thesis
      unfolding runs_alone_def
      by (intro exI [of _ "finish_load i k r (goto i (LoadDone k r) ?s4)"]) (auto simp: finish_load_def x d fun_eq_iff)
  qed
qed

lemma runs_alone_update:
  assumes upd: "CachedDB_UpdateDeviceSecret SC k (sequential s) = (y, d)"
  shows "runs_alone SC i s (UpdExec k) (UpdReturned k y) d"
proof -
  obtain z p where call: "Database_UpdateDeviceSecret k (cc_db s) = (z, p)" by fastforce
  let ?s1 = "s\<lparr>cc_db := p\<rparr>"
  show ?thesis
  proof (cases z)
    case (Inl e)
    with call upd have "y = Inl e" "d = (sequential s)\<lparr>cdb_db := cc_db ?s1, cache := cc_cache ?s1\<rparr>"
      by (auto simp add: CachedDB_UpdateDeviceSecret_def sequential_def NewCachedDB_def)
    with Inl call show ?thesis
      by (intro runs_alone_step [of SC i s "UpdExec k" ?s1 "UpdReturned k y"]) (auto simp: advance_def intro: runs_alone_return)
  next
    case (Inr n)
    obtain h c where hit: "GetSecret SC (cc_cache s) k = (h, c)" by fastforce
    let ?s2 = "?s1\<lparr>cc_cache := c\<rparr>"
    have store: "runs_alone SC i s' (UpdStore k n t) (UpdReturned k (Inr n))
        ((sequential s)\<lparr>cdb_db := cc_db s', cache := SetSecret SC (cc_cache s') k (t\<lparr>Generation := max (Generation t) n\<rparr>)\<rparr>)" for s' t
      by (rule runs_alone_step [of SC i _ _ "s'\<lparr>cc_cache := SetSecret SC (cc_cache s') k (t\<lparr>Generation := max (Generation t) n\<rparr>)\<rparr>" "UpdReturned k (Inr n)"])
        (auto simp: advance_def intro: runs_alone_return)
    have cached: "runs_alone SC i ?s1 (UpdCache k n) (UpdReturned k y) d"
    proof (cases h)
      case (Some t)
      with Inr call hit upd have y: "y = Inr n" and d: "d = (sequential s)\<lparr>cdb_db := p, cache := SetSecret SC c k (t\<lparr>Generation := max (Generation t) n\<rparr>)\<rparr>"
        by (simp_all add: CachedDB_UpdateDeviceSecret_def sequential_def NewCachedDB_def Let_def)
      show ?thesis
        by (rule runs_alone_step [of SC i _ _ ?s2 "UpdStore k n t"]) (use hit Some store [of ?s2 t] y d in \<open>simp_all add: advance_def\<close>)
    next
      case None
      obtain x q where query: "Database_GetDeviceSecret k p = (x, q)" by fastforce
      let ?s3 = "?s2\<lparr>cc_db := q\<rparr>"
      have "runs_alone SC i ?s2 (UpdQuery k n) (UpdReturned k y) d"
      proof (cases x)
        case (Inl e)
        with None Inr call hit upd query have "y = Inr n" "d = (sequential s)\<lparr>cdb_db := cc_db ?s3, cache := cc_cache ?s3\<rparr>"
          by (simp_all add: CachedDB_UpdateDeviceSecret_def sequential_def NewCachedDB_def Let_def)
        with Inl query show ?thesis
          by (intro runs_alone_step [of SC i ?s2 "UpdQuery k n" ?s3 "UpdReturned k y"]) (auto simp: advance_def intro: runs_alone_return)
      next
        case (Inr vg)
        obtain v g where vg: "vg = (v, g)" by fastforce
        let ?t = "\<lparr>Value = v, Generation = g\<rparr>"
        from None Inr \<open>z = Inr n\<close> call hit upd query vg have y: "y = Inr n"
          and d: "d = (sequential s)\<lparr>cdb_db := q, cache := SetSecret SC c k (?t\<lparr>Generation := max (Generation ?t) n\<rparr>)\<rparr>"
          by (simp_all add: CachedDB_UpdateDeviceSecret_def sequential_def NewCachedDB_def Let_def)
        show ?thesis
          by (rule runs_alone_step [of SC i _ _ ?s3 "UpdStore k n ?t"]) (use query Inr vg store [of ?s3 ?t] y d in \<open>simp_all add: advance_def\<close>)
      qed
      with None hit show ?thesis
        by (intro runs_alone_step [of SC i ?s1 "UpdCache k n" ?s2 "UpdQuery k n"]) (simp_all add: advance_def)
    qed
    with Inr call show ?thesis
      by (intro runs_alone_step [of SC i s "UpdExec k" ?s1 "UpdCache k n"]) (simp_all add: advance_def)
  qed
qed

lemma runs_alone_delete:
  assumes del: "CachedDB_DeleteDevice SC em k (sequential s) = (z, d)"
  shows "runs_alone SC i s (DelExec em k) (DelReturned k z) d"
proof -
  obtain y p where call: "Database_DeleteDevice em k (cc_db s) = (y, p)" by fastforce
  let ?s1 = "s\<lparr>cc_db := p\<rparr>"
  show ?thesis
  proof (cases y)
    case (Some e)
    with call del show ?thesis
      by (intro runs_alone_step [of SC i s "DelExec em k" ?s1 "DelReturned k z"])
        (auto simp: advance_def CachedDB_DeleteDevice_def sequential_def NewCachedDB_def intro: runs_alone_return)
  next
    case None
    let ?s2 = "?s1\<lparr>cc_cache := DeleteSecret SC (cc_cache s) k\<rparr>"
    have "runs_alone SC i ?s1 (DelCache k) (DelReturned k z) d"
      using None call del
      by (intro runs_alone_step [of SC i ?s1 "DelCache k" ?s2 "DelReturned k z"])
        (auto simp: advance_def CachedDB_DeleteDevice_def sequential_def NewCachedDB_def intro: runs_alone_return)
    with None call show ?thesis
      by (intro runs_alone_step [of SC i s "DelExec em k" ?s1 "DelCache k"]) (simp_all add: advance_def)
  qed
qed

lemma runs_alone_tombstones:
  "runs_alone SC i s (AllCache ids todo) (AllReturned ids None)
    (NewCachedDB (cc_db s) (fold (\<lambda>deviceID c. DeleteSecret SC c deviceID) todo (cc_cache s)))"
proof (induction todo arbitrary: s)
  case Nil
  show ?case
    by (rule runs_alone_step [of SC i s "AllCache ids []" s "AllReturned ids None"])
      (auto simp: advance_def NewCachedDB_def intro: runs_alone_return)
next
  case (Cons k todo)
  let ?s1 = "s\<lparr>cc_cache := DeleteSecret SC (cc_cache s) k\<rparr>"
  show ?case
    by (rule runs_alone_step [of SC i s "AllCache ids (k # todo)" ?s1 "AllCache ids todo"])
      (use Cons.IH [of ?s1] in \<open>simp_all add: advance_def\<close>)
qed

lemma runs_alone_delete_all:
  assumes del: "CachedDB_DeleteAllDevices SC em (sequential s) = (z, d)"
  shows "\<exists>ids. runs_alone SC i s (AllExec em) (AllReturned ids z) d"
proof -
  obtain y p where call: "Database_DeleteAllDevicesReturningIDs em (cc_db s) = (y, p)" by fastforce
  let ?s1 = "s\<lparr>cc_db := p\<rparr>"
  show ?thesis
  proof (cases y)
    case (Inl e)
    with call del have "runs_alone SC i s (AllExec em) (AllReturned [] z) d"
      by (intro runs_alone_step [of SC i s "AllExec em" ?s1 "AllReturned [] z"])
        (auto simp: advance_def CachedDB_DeleteAllDevices_def sequential_def NewCachedDB_def intro: runs_alone_return)
    then show ?thesis by blast
  next
    case (Inr ids)
    with call del have zd: "z = None" "d = NewCachedDB p (fold (\<lambda>deviceID c. DeleteSecret SC c deviceID) ids (cc_cache s))"
      by (auto simp: CachedDB_DeleteAllDevices_def sequential_def NewCachedDB_def)
    have "runs_alone SC i s (AllExec em) (AllReturned ids None) d"
      by (rule runs_alone_step [of SC i s "AllExec em" ?s1 "AllCache ids ids"])
        (use Inr call zd runs_alone_tombstones [of SC i ?s1 ids ids] in \<open>simp_all add: advance_def\<close>)
    with zd show ?thesis by blast
  qed
qed

text \<open>
  C18. The interleaved goroutines refine the sequential methods: a goroutine that enters a method of \<^verbatim>\<open>CachedDB\<close> while no load of the key is in
  flight, and is not interrupted, returns, with exactly the result, the database and the cache of the sequential method, and leaves the
  other goroutines and the table of loads as they were.
\<close>

theorem undisturbed_methods_are_sequential:
  assumes "cc_loads s k = None" and "\<And>j. cc_pc s j \<noteq> LoadWait k i"
  shows "(\<forall>x d. CachedDB_GetDeviceSecret SC k (sequential s) = (x, d) \<longrightarrow> runs_alone SC i s (GetCache k) (GetReturned k x) d)
    \<and> (\<forall>y d. CachedDB_UpdateDeviceSecret SC k (sequential s) = (y, d) \<longrightarrow> runs_alone SC i s (UpdExec k) (UpdReturned k y) d)
    \<and> (\<forall>em z d. CachedDB_DeleteDevice SC em k (sequential s) = (z, d) \<longrightarrow> runs_alone SC i s (DelExec em k) (DelReturned k z) d)
    \<and> (\<forall>em z d. CachedDB_DeleteAllDevices SC em (sequential s) = (z, d) \<longrightarrow> (\<exists>ids. runs_alone SC i s (AllExec em) (AllReturned ids z) d))"
  by (intro conjI allI impI) (erule runs_alone_get [OF assms] runs_alone_update runs_alone_delete runs_alone_delete_all)+

text \<open>A server before its first request, over a database and a cache.\<close>

definition conc_start :: "pg \<Rightarrow> 'c \<Rightarrow> 'c conc" where
  "conc_start p c = \<lparr>cc_db = p, cc_cache = c, cc_loads = Map.empty, cc_pc = (\<lambda>_. Idle)\<rparr>"

theorem undisturbed_methods_are_sequential_witness:
  "\<exists>d. runs_alone memory_SecretCache 0 (conc_start demo_saved demo_memory) (UpdExec ''d'') (UpdReturned ''d'' (Inr 2)) d"
proof -
  let ?s = "conc_start demo_saved demo_memory"
  have seq: "sequential ?s = NewCachedDB demo_saved demo_memory" by (simp add: sequential_def conc_start_def)
  have "fst (CachedDB_UpdateDeviceSecret memory_SecretCache ''d'' (sequential ?s)) = Inr 2"
    unfolding seq by (rule demo_update) (use demo_saved_facts in \<open>simp_all add: cdb_named_def NewCachedDB_def\<close>)
  then obtain d where "CachedDB_UpdateDeviceSecret memory_SecretCache ''d'' (sequential ?s) = (Inr 2, d)" by (metis prod.collapse)
  with undisturbed_methods_are_sequential [of ?s "''d''" 0 memory_SecretCache] show ?thesis by (auto simp: conc_start_def)
qed

section \<open>Under every interleaving\<close>

context retaining_secret_cache begin

lemma conc_run_inv:
  assumes "(conc_step SC)\<^sup>*\<^sup>* s s'" and "conc_inv entries retains s"
  shows "conc_inv entries retains s' \<and> moves_on entries s s'"
  using assms
proof (induction rule: rtranclp_induct)
  case base
  then show ?case by (simp add: moves_on_def conc_inv_def db_moves_on_refl)
next
  case (step s1 s2)
  from step.IH [OF step.prems] have inv: "conc_inv entries retains s1" and mv: "moves_on entries s s1" by auto
  from conc_step_inv [OF inv step.hyps(2)] mv show ?case
    by (auto simp: moves_on_def intro: db_moves_on_trans entries_move_on_trans)
qed

lemma rotated_entry_is_current:
  assumes inv: "conc_inv entries retains s1" and run: "(conc_step SC)\<^sup>*\<^sup>* s1 s2"
    and upd: "cc_pc s1 i = UpdReturned k (Inr n)" and k: "uuid_in (cc_db s1) k = Some k"
    and r: "device_at (cc_db s2) k = Some r" and get: "GetSecret SC (cc_cache s2) k = (Some t, c)"
  shows "Value t = secret r \<and> n \<le> Generation t \<and> Generation t \<le> generation r"
proof -
  note run' = conc_run_inv [OF run inv]
  then have mv: "moves_on entries s1 s2" and inv2: "conc_inv entries retains s2" by auto
  from inv2 have ret: "retains (cc_cache s2)" by (simp add: conc_inv_def)
  from get_state(3) [OF ret get, symmetric] have t: "entries (cc_cache s2) k = Some t" "\<not> Secret_deleted t" by auto
  from inv have "pc_done (cc_db s1) (entries (cc_cache s1)) (cc_pc s1 i)" by (simp add: conc_inv_def)
  with upd k have "device_at (cc_db s1) k = None \<or> at_least (entries (cc_cache s1)) k n" by simp
  moreover have "device_at (cc_db s1) k \<noteq> None" using mv r db_gone by (fastforce simp: moves_on_def)
  ultimately have "at_least (entries (cc_cache s2)) k n" using mv at_least_moves_on by (auto simp: moves_on_def)
  moreover have "held_ok (cc_db s2) k t" "uuid_in (cc_db s2) k = Some k"
    using inv2 t mv k by (auto simp: conc_inv_def moves_on_def db_moves_on_def)
  ultimately show ?thesis using t r by (auto simp: at_least_def held_ok_def)
qed

lemma deleted_entry_is_hidden:
  assumes inv: "conc_inv entries retains s1" and run: "(conc_step SC)\<^sup>*\<^sup>* s1 s2"
    and del: "cc_pc s1 i = DelReturned k None \<or> (\<exists>ids. cc_pc s1 i = AllReturned ids None \<and> k \<in> set ids)"
    and get: "GetSecret SC (cc_cache s2) k = (x, c)"
  shows "x = None"
proof -
  note run' = conc_run_inv [OF run inv]
  then have mv: "moves_on entries s1 s2" and ret: "retains (cc_cache s2)" by (auto simp: conc_inv_def)
  from inv have "pc_done (cc_db s1) (entries (cc_cache s1)) (cc_pc s1 i)" by (simp add: conc_inv_def)
  with del have "tombstone (entries (cc_cache s1)) k" by auto
  with mv tombstone_moves_on have "tombstone (entries (cc_cache s2)) k" by (auto simp: moves_on_def)
  with get_state(3) [OF ret get] show ?thesis by (auto simp: tombstone_def live_secret_def)
qed

end

lemma conc_start_inv:
  assumes "pg_invar p" and "pg_up p" and "cache_retains zero_Secret (secrets m)" and "coherent p (memory_live m)"
  shows "conc_inv (\<lambda>m. cache_contents (secrets m)) (\<lambda>m. cache_retains zero_Secret (secrets m)) (conc_start p m)"
  using assms unfolding conc_inv_def conc_start_def coherent_def memory_live_def held_ok_def by fastforce

text \<open>
  C17. No interleaving undoes a rotation or a deletion in the in-memory cache. Let a server start with a coherent cache that keeps its entries, and
  let its goroutines call the methods of \<^verbatim>\<open>CachedDB\<close> in any order and interleaving. Once \<^verbatim>\<open>UpdateDeviceSecret\<close> has returned
  generation \<open>n\<close> for a device, the cache never again answers for it, while it exists, with an earlier generation, although loads that read the
  older row may still be in flight; the answer has the row's secret and is not ahead of
  the row. Once \<^verbatim>\<open>DeleteDevice\<close>, or \<^verbatim>\<open>DeleteAllDevices\<close> for a device it removed, has returned, the cache never again answers for the device.
\<close>

theorem interleaving_undoes_nothing:
  assumes "pg_invar p" and "pg_up p" and "cache_retains zero_Secret (secrets m)" and "coherent p (memory_live m)"
    and "(conc_step memory_SecretCache)\<^sup>*\<^sup>* (conc_start p m) s1" and "(conc_step memory_SecretCache)\<^sup>*\<^sup>* s1 s2"
    and "GetSecret memory_SecretCache (cc_cache s2) k = (x, c)"
  shows "(cc_pc s1 i = UpdReturned k (Inr n) \<and> uuid_in p k = Some k \<and> device_at (cc_db s2) k = Some r \<longrightarrow>
      (\<forall>t. x = Some t \<longrightarrow> Value t = secret r \<and> n \<le> Generation t \<and> Generation t \<le> generation r))
    \<and> (cc_pc s1 i = DelReturned k None \<or> (\<exists>ids. cc_pc s1 i = AllReturned ids None \<and> k \<in> set ids) \<longrightarrow> x = None)"
proof -
  note inv = memr.conc_run_inv [OF assms(5) conc_start_inv [OF assms(1-4)]]
  from inv have "uuid_in (cc_db s1) k = uuid_in p k" by (simp add: moves_on_def db_moves_on_def conc_start_def)
  then show ?thesis
    using memr.rotated_entry_is_current [OF conjunct1 [OF inv] assms(6)] memr.deleted_entry_is_hidden [OF conjunct1 [OF inv] assms(6)] assms(7)
    by metis
qed

text \<open>In the demo server, a rotation of the device that runs alone.\<close>

lemma runs_alone_conc:
  assumes "runs_alone SC i s l0 l d" and "outside (cc_pc s i)" and "entry l0"
  obtains s' where "(conc_step SC)\<^sup>*\<^sup>* s s'" and "cc_pc s' i = l" and "cc_db s' = cdb_db d" and "cc_cache s' = cache d"
proof -
  from assms(1) obtain s' where run: "(\<lambda>a b. advance SC i a = Some b)\<^sup>*\<^sup>* (goto i l0 s) s'"
    and s': "cc_pc s' i = l" "cc_db s' = cdb_db d" "cc_cache s' = cache d" by (auto simp: runs_alone_def)
  have "(conc_step SC)\<^sup>*\<^sup>* (goto i l0 s) s'" using run by (rule mono_rtranclp [rule_format, rotated]) (rule conc_go)
  with conc_call [OF assms(2,3)] have "(conc_step SC)\<^sup>*\<^sup>* s s'" by (rule converse_rtranclp_into_rtranclp)
  with s' show thesis by (intro that)
qed

lemma demo_undisturbed_rotation:
  "CachedDB_UpdateDeviceSecret memory_SecretCache ''d'' (NewCachedDB demo_saved demo_memory) = (Inr 2,
    NewCachedDB (demo_saved\<lparr>auth_user_devices := [demo_row\<lparr>generation := 2, updated_at := Hour\<rparr>], pg_calls := 3\<rparr>)
      \<lparr>secrets = \<lparr>otter_methods = map_otter zero_Secret, otter_state = [(''d'', \<lparr>Value = ''s1'', Generation = 2\<rparr>)]\<rparr>\<rparr>)"
  by (simp add: CachedDB_UpdateDeviceSecret_def Database_UpdateDeviceSecret_def Database_GetDeviceSecret_def pg_exec_def update_device_def
      select_secret_def bump_row_def NewCachedDB_def demo_saved_def demo_row_def demo_pg_def demo_memory_def memory_SecretCache_def
      memorySecretCache_GetSecret_def memorySecretCache_SetSecret_def cache_GetIfPresent_def cache_Compute_def map_otter_def set_newer_def
      pg_now_def MaxInt32_def Let_def)

theorem interleaving_undoes_nothing_witness:
  "\<exists>s t c. (conc_step memory_SecretCache)\<^sup>*\<^sup>* (conc_start demo_saved demo_memory) s \<and> cc_pc s 0 = UpdReturned ''d'' (Inr 2)
    \<and> GetSecret memory_SecretCache (cc_cache s) ''d'' = (Some t, c) \<and> Value t = ''s1'' \<and> 2 \<le> Generation t"
proof -
  let ?s0 = "conc_start demo_saved demo_memory"
  let ?p = "demo_saved\<lparr>auth_user_devices := [demo_row\<lparr>generation := 2, updated_at := Hour\<rparr>], pg_calls := 3\<rparr>"
  let ?m = "\<lparr>secrets = \<lparr>otter_methods = map_otter zero_Secret, otter_state = [(''d'', \<lparr>Value = ''s1'', Generation = 2\<rparr>)]\<rparr>\<rparr>"
  have seq: "sequential ?s0 = NewCachedDB demo_saved demo_memory" by (simp add: sequential_def conc_start_def)
  have "runs_alone memory_SecretCache 0 ?s0 (UpdExec ''d'') (UpdReturned ''d'' (Inr 2)) (NewCachedDB ?p ?m)"
    by (rule runs_alone_update) (simp only: seq demo_undisturbed_rotation)
  then obtain s where s: "(conc_step memory_SecretCache)\<^sup>*\<^sup>* ?s0 s" "cc_pc s 0 = UpdReturned ''d'' (Inr 2)" "cc_db s = ?p" "cc_cache s = ?m"
    by (rule runs_alone_conc) (simp_all add: conc_start_def NewCachedDB_def)
  obtain t c where get: "GetSecret memory_SecretCache (cc_cache s) ''d'' = (Some t, c)"
    by (simp add: s(4) memory_SecretCache_def memorySecretCache_GetSecret_def cache_GetIfPresent_def map_otter_def Secret_deleted_def)
  have start: "pg_invar demo_saved" "pg_up demo_saved" "cache_retains zero_Secret (secrets demo_memory)" "coherent demo_saved (memory_live demo_memory)"
    using demo_saved_invar(1) demo_saved_facts(1) map_otter_retains
    by (auto simp: cdb_invar_def NewCachedDB_def cdb_up_def cache_retains_def demo_memory_def)
  have "uuid_in demo_saved ''d'' = Some ''d''" "device_at (cc_db s) ''d'' = Some (demo_row\<lparr>generation := 2, updated_at := Hour\<rparr>)"
    using demo_saved_facts(2) by (simp_all add: s(3) cdb_named_def NewCachedDB_def device_at_def demo_row_def)
  with interleaving_undoes_nothing [OF start s(1) rtranclp.rtrancl_refl get, of 0 2 "demo_row\<lparr>generation := 2, updated_at := Hour\<rparr>"] s(2)
  have "Value t = ''s1'' \<and> 2 \<le> Generation t" by (simp add: demo_row_def)
  with s get show ?thesis by blast
qed

section \<open>A lookup that shares a load\<close>

text \<open>A schedule names the goroutine that moves next, or the method a goroutine enters.\<close>

datatype event = Go nat | Call nat pc

fun schedule :: "'c SecretCache \<Rightarrow> event list \<Rightarrow> 'c conc \<Rightarrow> 'c conc option" where
  "schedule SC [] s = Some s"
| "schedule SC (Go i # es) s = (case advance SC i s of None \<Rightarrow> None | Some s' \<Rightarrow> schedule SC es s')"
| "schedule SC (Call i l # es) s = (if outside (cc_pc s i) \<and> entry l then schedule SC es (goto i l s) else None)"

lemma schedule_run: "schedule SC es s = Some s' \<Longrightarrow> (conc_step SC)\<^sup>*\<^sup>* s s'"
  by (induction SC es s rule: schedule.induct)
    (auto split: option.splits if_splits intro: converse_rtranclp_into_rtranclp conc_go conc_call)

lemmas conc_demo_simps = advance_def conc_start_def Database_GetDeviceSecret_def Database_DeleteDevice_def pg_exec_def select_secret_def
  delete_device_def demo_saved_def demo_row_def demo_pg_def demo_memory_def memory_SecretCache_def memorySecretCache_GetSecret_def
  memorySecretCache_SetSecret_def memorySecretCache_DeleteSecret_def cache_GetIfPresent_def cache_Compute_def cache_Set_def map_otter_def
  set_newer_def finish_load_def secret_pair_def device_at_def

text \<open>
  A deletion is hidden from the cache at once, but not from a load in flight: goroutine 1 has read the row, goroutine 2
  deletes the device and returns, and goroutine 3, which looks the device up only then, misses the cache, joins the
  load of goroutine 1 and returns the secret of the deleted device.
\<close>

lemma shared_load_outlives_deletion:
  "\<exists>s1 s2. (conc_step memory_SecretCache)\<^sup>*\<^sup>* (conc_start demo_saved demo_memory) s1 \<and> cc_pc s1 2 = DelReturned ''d'' None
    \<and> device_at (cc_db s1) ''d'' = None \<and> cc_pc s1 3 = Idle
    \<and> (conc_step memory_SecretCache)\<^sup>*\<^sup>* s1 s2 \<and> cc_pc s2 3 = GetReturned ''d'' (Inr (''s1'', 1))"
proof -
  obtain s1 where s1: "schedule memory_SecretCache [Call 1 (GetCache ''d''), Go 1, Go 1, Go 1, Call 2 (DelExec ''a@x'' ''d''), Go 2, Go 2]
      (conc_start demo_saved demo_memory) = Some s1" and "cc_pc s1 2 = DelReturned ''d'' None" "device_at (cc_db s1) ''d'' = None" "cc_pc s1 3 = Idle"
    and p1: "cc_pc s1 1 = LoadStore ''d'' \<lparr>Value = ''s1'', Generation = 1\<rparr>" "cc_loads s1 ''d'' = Some 1"
    and c1: "cc_cache s1 = \<lparr>secrets = \<lparr>otter_methods = map_otter zero_Secret, otter_state = [(''d'', zero_Secret)]\<rparr>\<rparr>"
    by (simp add: conc_demo_simps)
  obtain s2 where "schedule memory_SecretCache [Call 3 (GetCache ''d''), Go 3, Go 3, Go 1, Go 1] s1 = Some s2"
    "cc_pc s2 3 = GetReturned ''d'' (Inr (''s1'', 1))"
    using p1 \<open>cc_pc s1 3 = Idle\<close> by (simp add: conc_demo_simps c1)
  with s1 \<open>cc_pc s1 2 = _\<close> \<open>device_at (cc_db s1) ''d'' = None\<close> \<open>cc_pc s1 3 = Idle\<close> show ?thesis
    using schedule_run by (metis (no_types))
qed

end
