(* ===== verification/Liveness.thy ===== *)
theory Liveness
  imports Interleaving
begin

text \<open>
  Every call of a method of \<^verbatim>\<open>server/internal/cache/device/cached_db.go\<close> returns, although a lookup may have to wait for the load of
  another goroutine. \<open>loads_inv\<close> ties the table of loads to the goroutines: a key has an entry exactly while the goroutine of the entry
  is inside the loading function, and who waits for a load waits for that goroutine. \<open>execution\<close> is an infinite interleaving, \<open>fair\<close> says that
  a goroutine that can move is not passed over for ever; \<open>pc_rank\<close> decreases with every step of a goroutine inside a method.
\<close>

section \<open>The table of loads\<close>

fun loading :: "string \<Rightarrow> pc \<Rightarrow> bool" where
  "loading k (LoadQuery j) = (j = k)"
| "loading k (LoadStore j t) = (j = k)"
| "loading k (LoadDone j r) = (j = k)"
| "loading k _ = False"

fun waiting :: "pc \<Rightarrow> bool" where
  "waiting (LoadWait k j) = True"
| "waiting _ = False"

definition loads_inv :: "'c conc \<Rightarrow> bool" where
  "loads_inv s \<longleftrightarrow> (\<forall>k i. cc_loads s k = Some i \<longleftrightarrow> loading k (cc_pc s i))
     \<and> (\<forall>i k j. cc_pc s i = LoadWait k j \<longrightarrow> cc_loads s k = Some j)"

lemma loading_unique: "loading k l \<Longrightarrow> loading j l \<Longrightarrow> j = k"
  by (cases l) auto

text \<open>A goroutine can move unless it waits or is outside.\<close>

lemma advance_stuck: "advance SC i s = None \<longleftrightarrow> outside (cc_pc s i) \<or> waiting (cc_pc s i)"
  by (cases "cc_pc s i") (auto simp: advance_def split: option.splits sum.splits prod.splits list.splits)

text \<open>What the step of a goroutine does to the program counters and to the table.\<close>

lemma advance_cases:
  assumes "advance SC i s = Some s'"
  obtains (finish) k r where "cc_pc s i = LoadDone k r" and "s' = finish_load i k r s"
  | (lead) k where "cc_pc s i = GetDo k" and "cc_loads s k = None" and "cc_loads s' = (cc_loads s)(k \<mapsto> i)"
      and "cc_pc s' = (cc_pc s)(i := LoadQuery k)"
  | (join) k j where "cc_pc s i = GetDo k" and "cc_loads s k = Some j" and "cc_loads s' = cc_loads s"
      and "cc_pc s' = (cc_pc s)(i := LoadWait k j)"
  | (other) l where "cc_loads s' = cc_loads s" and "cc_pc s' = (cc_pc s)(i := l)" and "\<not> waiting l" and "\<And>k. loading k l = loading k (cc_pc s i)"
  using assms
  by (cases "cc_pc s i") (auto simp: advance_def split: option.splits sum.splits prod.splits list.splits)

lemma advance_loads_inv:
  assumes "loads_inv s" and "advance SC i s = Some s'"
  shows "loads_inv s'"
  using assms(2)
proof (cases rule: advance_cases)
  case (finish k r)
  have load: "cc_loads s j = Some x \<longleftrightarrow> loading j (cc_pc s x)" and wait: "cc_pc s x = LoadWait j y \<Longrightarrow> cc_loads s j = Some y" for j x y
    using assms(1) by (auto simp: loads_inv_def)
  from load [of k i] finish(1) have lead: "cc_loads s k = Some i" by simp
  have pc': "cc_pc s' x = (if x = i \<or> cc_pc s x = LoadWait k i then GetReturned k (secret_pair r) else cc_pc s x)"
    and loads': "cc_loads s' = (cc_loads s)(k := None)" for x
    by (simp_all add: finish(2) finish_load_def)
  have "cc_loads s' j = Some x \<longleftrightarrow> loading j (cc_pc s' x)" for j x
    using load [of j x] load [of k x] load [of j i] lead finish(1) by (auto simp: pc' loads')
  moreover have "cc_loads s' j = Some y" if "cc_pc s' x = LoadWait j y" for x j y
    using that wait [of x j y] lead by (auto simp: pc' loads' split: if_splits)
  ultimately show ?thesis by (simp add: loads_inv_def)
next
  case (lead k)
  have load: "cc_loads s j = Some x \<longleftrightarrow> loading j (cc_pc s x)" and wait: "cc_pc s x = LoadWait j y \<Longrightarrow> cc_loads s j = Some y" for j x y
    using assms(1) by (auto simp: loads_inv_def)
  have "cc_loads s' j = Some x \<longleftrightarrow> loading j (cc_pc s' x)" for j x
    using load [of j x] load [of j i] lead(1,2) by (auto simp: lead(3,4))
  moreover have "cc_loads s' j = Some y" if "cc_pc s' x = LoadWait j y" for x j y
    using that wait [of x j y] lead(2) by (auto simp: lead(3,4) split: if_splits)
  ultimately show ?thesis by (simp add: loads_inv_def)
next
  case (join k j)
  then show ?thesis using assms(1) by (fastforce simp: loads_inv_def)
next
  case (other l)
  then show ?thesis using assms(1) by (auto simp: loads_inv_def)
qed

lemma outside_not_loading: "outside l \<or> entry l \<Longrightarrow> \<not> loading k l \<and> \<not> waiting l"
  by (cases l) auto

lemma conc_step_loads_inv: "conc_step SC s s' \<Longrightarrow> loads_inv s \<Longrightarrow> loads_inv s'"
proof (induction rule: conc_step.induct)
  case (conc_go i s s')
  then show ?case using advance_loads_inv by blast
next
  case (conc_call s i l)
  with outside_not_loading [of "cc_pc s i"] outside_not_loading [of l] show ?case
    by (fastforce simp: loads_inv_def)
qed

section \<open>Progress of one call\<close>

datatype cached_method = InGet string | InUpdate string | InDelete string | InDeleteAll

text \<open>The call a goroutine is in, or has just returned from.\<close>

fun method_of :: "pc \<Rightarrow> cached_method option" where
  "method_of Idle = None"
| "method_of (GetCache k) = Some (InGet k)"
| "method_of (GetDo k) = Some (InGet k)"
| "method_of (LoadQuery k) = Some (InGet k)"
| "method_of (LoadStore k t) = Some (InGet k)"
| "method_of (LoadDone k r) = Some (InGet k)"
| "method_of (LoadWait k j) = Some (InGet k)"
| "method_of (GetReturned k r) = Some (InGet k)"
| "method_of (UpdExec k) = Some (InUpdate k)"
| "method_of (UpdCache k n) = Some (InUpdate k)"
| "method_of (UpdQuery k n) = Some (InUpdate k)"
| "method_of (UpdStore k n t) = Some (InUpdate k)"
| "method_of (UpdReturned k r) = Some (InUpdate k)"
| "method_of (DelExec em k) = Some (InDelete k)"
| "method_of (DelCache k) = Some (InDelete k)"
| "method_of (DelReturned k r) = Some (InDelete k)"
| "method_of (AllExec em) = Some InDeleteAll"
| "method_of (AllCache ids todo) = Some InDeleteAll"
| "method_of (AllReturned ids r) = Some InDeleteAll"

fun pc_rank :: "pc \<Rightarrow> nat \<times> nat" where
  "pc_rank (GetCache k) = (6, 0)"
| "pc_rank (GetDo k) = (5, 0)"
| "pc_rank (LoadQuery k) = (4, 0)"
| "pc_rank (LoadStore k t) = (3, 0)"
| "pc_rank (LoadDone k r) = (2, 0)"
| "pc_rank (LoadWait k j) = (1, 0)"
| "pc_rank (UpdExec k) = (4, 0)"
| "pc_rank (UpdCache k n) = (3, 0)"
| "pc_rank (UpdQuery k n) = (2, 0)"
| "pc_rank (UpdStore k n t) = (1, 0)"
| "pc_rank (DelExec em k) = (2, 0)"
| "pc_rank (DelCache k) = (1, 0)"
| "pc_rank (AllExec em) = (2, 0)"
| "pc_rank (AllCache ids todo) = (1, length todo)"
| "pc_rank _ = (0, 0)"

abbreviation rank_less :: "((nat \<times> nat) \<times> nat \<times> nat) set" where
  "rank_less \<equiv> less_than <*lex*> less_than"

lemma wf_rank: "wf rank_less"
  by (rule wf_lex_prod [OF wf_less_than wf_less_than])

lemma own_step:
  assumes "advance SC i s = Some s'"
  shows "(pc_rank (cc_pc s' i), pc_rank (cc_pc s i)) \<in> rank_less" and "method_of (cc_pc s' i) = method_of (cc_pc s i)"
    and "loading k (cc_pc s i) \<Longrightarrow> \<not> outside (cc_pc s' i) \<Longrightarrow> loading k (cc_pc s' i)"
  using assms
  by (cases "cc_pc s i"; auto simp: advance_def finish_load_def split: option.splits sum.splits prod.splits list.splits)+

text \<open>The steps of the others leave a call where it is, unless it waits for one of them.\<close>

lemma other_step:
  assumes "schedule SC [e] s = Some s'" and "e \<noteq> Go i" and "\<not> outside (cc_pc s i)"
  shows "cc_pc s' i = cc_pc s i
    \<or> (\<exists>k j. cc_pc s i = LoadWait k j \<and> outside (cc_pc s' i) \<and> method_of (cc_pc s' i) = method_of (cc_pc s i))"
proof (cases e)
  case (Go j)
  with assms(1) have adv: "advance SC j s = Some s'" by (simp split: option.splits)
  from Go assms(2) have "j \<noteq> i" by simp
  with adv show ?thesis
    by (cases rule: advance_cases) (auto simp: finish_load_def)
next
  case (Call j l)
  with assms show ?thesis by (auto split: if_splits)
qed

section \<open>Fair executions\<close>

text \<open>In an execution every step is the event of that time, or nothing happens.\<close>

definition execution :: "'c SecretCache \<Rightarrow> (nat \<Rightarrow> event option) \<Rightarrow> (nat \<Rightarrow> 'c conc) \<Rightarrow> bool" where
  "execution SC ev st \<longleftrightarrow>
     (\<forall>n. case ev n of None \<Rightarrow> st (Suc n) = st n | Some e \<Rightarrow> schedule SC [e] (st n) = Some (st (Suc n)))"

definition fair :: "'c SecretCache \<Rightarrow> (nat \<Rightarrow> event option) \<Rightarrow> (nat \<Rightarrow> 'c conc) \<Rightarrow> bool" where
  "fair SC ev st \<longleftrightarrow> (\<forall>i n. \<exists>m\<ge>n. ev m = Some (Go i) \<or> advance SC i (st m) = None)"

lemma execution_step:
  assumes "execution SC ev st"
  obtains "ev n = None" and "st (Suc n) = st n" | e where "ev n = Some e" and "schedule SC [e] (st n) = Some (st (Suc n))"
  using assms by (cases "ev n") (force simp: execution_def dest: spec [of _ n])+

lemma execution_run: "execution SC ev st \<Longrightarrow> (conc_step SC)\<^sup>*\<^sup>* (st 0) (st n)"
proof (induction n)
  case (Suc n)
  from Suc.prems have "(conc_step SC)\<^sup>*\<^sup>* (st n) (st (Suc n))"
    by (rule execution_step [of _ _ _ n]) (auto dest: schedule_run)
  with Suc show ?case by (metis rtranclp_trans)
qed simp

lemma execution_loads_inv: "execution SC ev st \<Longrightarrow> loads_inv (st 0) \<Longrightarrow> loads_inv (st n)"
  using execution_run [of SC ev st n]
  by (metis (no_types, lifting) conc_step_loads_inv rtranclp_induct)

text \<open>A goroutine that can move does so, and until then stays where it is.\<close>

lemma moves_eventually:
  assumes ex: "execution SC ev st" and fair: "fair SC ev st" and free: "\<not> outside (cc_pc (st n) i)" "\<not> waiting (cc_pc (st n) i)"
  obtains m where "n \<le> m" and "cc_pc (st m) i = cc_pc (st n) i" and "advance SC i (st m) = Some (st (Suc m))"
    and "\<And>x. n \<le> x \<Longrightarrow> x < m \<Longrightarrow> ev x \<noteq> Some (Go i)"
proof -
  let ?P = "\<lambda>m. n \<le> m \<and> (ev m = Some (Go i) \<or> advance SC i (st m) = None)"
  define m where "m = (LEAST m. ?P m)"
  have m: "?P m" unfolding m_def by (rule LeastI_ex) (use fair in \<open>simp add: fair_def\<close>)
  have least: "\<not> ?P x" if "x < m" for x using that not_less_Least unfolding m_def by blast
  have stays: "cc_pc (st (n + d)) i = cc_pc (st n) i" if "n + d \<le> m" for d
    using that
  proof (induction d)
    case (Suc d)
    then have IH: "cc_pc (st (n + d)) i = cc_pc (st n) i" and ne: "ev (n + d) \<noteq> Some (Go i)" using least [of "n + d"] by auto
    from ex show ?case
    proof (cases rule: execution_step [of _ _ _ "n + d"])
      case (2 e)
      with IH ne free other_step [OF 2(2), of i] show ?thesis by auto
    qed (simp add: IH)
  qed simp
  from stays [of "m - n"] m have at: "cc_pc (st m) i = cc_pc (st n) i" by simp
  with free m have "ev m = Some (Go i)" by (simp add: advance_stuck)
  with ex have "advance SC i (st m) = Some (st (Suc m))"
    by (cases rule: execution_step [of _ _ _ m]) (auto split: option.splits)
  with m at least show thesis by (intro that) auto
qed

text \<open>The leader of a load finishes it, and with it whoever waits.\<close>

lemma waiter_released:
  assumes ex: "execution SC ev st" and fair: "fair SC ev st" and start: "loads_inv (st 0)"
  shows "cc_pc (st n) i = LoadWait k j \<Longrightarrow> \<exists>m\<ge>n. outside (cc_pc (st m) i) \<and> method_of (cc_pc (st m) i) = Some (InGet k)"
proof (induction "pc_rank (cc_pc (st n) j)" arbitrary: n rule: wf_induct_rule [OF wf_rank])
  case 1
  from execution_loads_inv [OF ex start, of n] 1(2) have load: "loading k (cc_pc (st n) j)" by (auto simp: loads_inv_def)
  then have "\<not> outside (cc_pc (st n) j)" "\<not> waiting (cc_pc (st n) j)" using outside_not_loading by (cases "cc_pc (st n) j"; auto)+
  then obtain m where m: "n \<le> m" "cc_pc (st m) j = cc_pc (st n) j" "advance SC j (st m) = Some (st (Suc m))"
    by (rule moves_eventually [OF ex fair]) blast
  from own_step(1) [OF m(3)] m(2) have rank: "(pc_rank (cc_pc (st (Suc m)) j), pc_rank (cc_pc (st n) j)) \<in> rank_less" by simp
  show ?case
  proof (cases "cc_pc (st (Suc m)) i = LoadWait k j")
    case True
    from 1(1) [OF rank True] m(1) show ?thesis by (metis Suc_leD order_trans)
  next
    case False
    have waits: "cc_pc (st (n + d)) i = LoadWait k j \<or> (\<exists>x\<ge>n. outside (cc_pc (st x) i) \<and> method_of (cc_pc (st x) i) = Some (InGet k))" for d
    proof (induction d)
      case (Suc d)
      show ?case
      proof (cases "cc_pc (st (n + d)) i = LoadWait k j")
        case True
        from ex show ?thesis
        proof (cases rule: execution_step [of _ _ _ "n + d"])
          case (2 e)
          have "e \<noteq> Go i" using 2(2) True by (auto simp: advance_def split: option.splits)
          with other_step [OF 2(2), of i] True have "cc_pc (st (n + Suc d)) i = LoadWait k j
              \<or> outside (cc_pc (st (n + Suc d)) i) \<and> method_of (cc_pc (st (n + Suc d)) i) = Some (InGet k)"
            by auto
          then show ?thesis using le_add1 by blast
        qed (simp add: True)
      qed (use Suc in blast)
    qed (simp add: 1(2))
    from waits [of "Suc m - n"] False m(1) show ?thesis by simp
  qed
qed

lemma call_returns:
  assumes ex: "execution SC ev st" and fair: "fair SC ev st" and start: "loads_inv (st 0)"
  shows "\<exists>m\<ge>n. outside (cc_pc (st m) i) \<and> method_of (cc_pc (st m) i) = method_of (cc_pc (st n) i)"
proof (induction "pc_rank (cc_pc (st n) i)" arbitrary: n rule: wf_induct_rule [OF wf_rank])
  case 1
  consider "outside (cc_pc (st n) i)" | k j where "cc_pc (st n) i = LoadWait k j" | "\<not> outside (cc_pc (st n) i)" "\<not> waiting (cc_pc (st n) i)"
    by (cases "cc_pc (st n) i") auto
  then show ?case
  proof cases
    case 2
    with waiter_released [OF ex fair start 2] show ?thesis by simp
  next
    case 3
    then obtain m where m: "n \<le> m" "cc_pc (st m) i = cc_pc (st n) i" "advance SC i (st m) = Some (st (Suc m))"
      by (rule moves_eventually [OF ex fair]) blast
    from 1(1) [of "Suc m"] own_step(1,2) [OF m(3)] m(1,2) show ?thesis by (metis Suc_leD order_trans)
  qed blast
qed

section \<open>Properties\<close>

lemma conc_start_loads_inv: "loads_inv (conc_start p c)"
  by (simp add: loads_inv_def conc_start_def)

lemma reachable_loads_inv: "(conc_step SC)\<^sup>*\<^sup>* (conc_start p c) s \<Longrightarrow> loads_inv s"
  by (induction rule: rtranclp_induct) (auto intro: conc_step_loads_inv conc_start_loads_inv)

text \<open>
  C19. Every call returns. In a fair interleaving of the goroutines of a server, over any cache and any database, with failing statements
  included, a goroutine inside a method of \<^verbatim>\<open>CachedDB\<close> returns from that method, also when it waits for the load of another
  goroutine: no wait is for ever and no cycle of waits arises.
\<close>

theorem every_call_returns:
  assumes "execution SC ev st" and "fair SC ev st" and "st 0 = conc_start p c"
  shows "\<exists>m. n \<le> m \<and> outside (cc_pc (st m) i) \<and> method_of (cc_pc (st m) i) = method_of (cc_pc (st n) i)"
  by (rule call_returns [OF assms(1,2)]) (simp add: assms(3) conc_start_loads_inv)

text \<open>The execution that follows a schedule and then stands still.\<close>

lemma schedule_append:
  "schedule SC (xs @ ys) s = (case schedule SC xs s of None \<Rightarrow> None | Some s' \<Rightarrow> schedule SC ys s')"
  by (induction SC xs s rule: schedule.induct) (auto split: option.splits)

definition schedule_events :: "event list \<Rightarrow> nat \<Rightarrow> event option" where
  "schedule_events es n = (if n < length es then Some (es ! n) else None)"

definition schedule_states :: "'c SecretCache \<Rightarrow> event list \<Rightarrow> 'c conc \<Rightarrow> nat \<Rightarrow> 'c conc" where
  "schedule_states SC es s n = the (schedule SC (take n es) s)"

lemma schedule_execution:
  assumes "schedule SC es s = Some s'" and "\<And>i. outside (cc_pc s' i)"
  shows "execution SC (schedule_events es) (schedule_states SC es s)" and "fair SC (schedule_events es) (schedule_states SC es s)"
proof -
  have part: "\<exists>x. schedule SC (take n es) s = Some x" for n
    using assms(1) schedule_append [of SC "take n es" "drop n es" s] by (auto split: option.splits)
  have "case schedule_events es n of None \<Rightarrow> schedule_states SC es s (Suc n) = schedule_states SC es s n
      | Some e \<Rightarrow> schedule SC [e] (schedule_states SC es s n) = Some (schedule_states SC es s (Suc n))" for n
  proof (cases "n < length es")
    case True
    from part [of n] part [of "Suc n"] obtain x y where "schedule SC (take n es) s = Some x" "schedule SC (take (Suc n) es) s = Some y" by blast
    with True schedule_append [of SC "take n es" "[es ! n]" s] show ?thesis
      by (simp add: schedule_events_def schedule_states_def take_Suc_conv_app_nth)
  qed (simp add: schedule_events_def schedule_states_def)
  then show "execution SC (schedule_events es) (schedule_states SC es s)" by (simp add: execution_def)
  have "advance SC i (schedule_states SC es s (n + length es)) = None" for i n
    using assms by (simp add: schedule_states_def advance_stuck)
  then show "fair SC (schedule_events es) (schedule_states SC es s)"
    unfolding fair_def using le_add1 by blast
qed

text \<open>In the demo server goroutine 3 misses the cache while goroutine 1 loads the row, and waits.\<close>

definition demo_sharing :: "event list" where
  "demo_sharing = [Call 1 (GetCache ''d''), Go 1, Go 1, Call 3 (GetCache ''d''), Go 3, Go 3, Go 1, Go 1, Go 1]"

lemma demo_sharing_runs:
  shows "\<exists>s. schedule memory_SecretCache (take 6 demo_sharing) (conc_start demo_saved demo_memory) = Some s \<and> cc_pc s 3 = LoadWait ''d'' 1"
    and "\<exists>s. schedule memory_SecretCache demo_sharing (conc_start demo_saved demo_memory) = Some s \<and> (\<forall>i. outside (cc_pc s i))"
  by (simp_all add: demo_sharing_def conc_demo_simps)

theorem every_call_returns_witness:
  "\<exists>ev st. execution memory_SecretCache ev st \<and> fair memory_SecretCache ev st \<and> st 0 = conc_start demo_saved demo_memory
    \<and> cc_pc (st 6) 3 = LoadWait ''d'' 1
    \<and> (\<exists>m. 6 \<le> m \<and> outside (cc_pc (st m) 3) \<and> method_of (cc_pc (st m) 3) = Some (InGet ''d''))"
proof -
  let ?s = "conc_start demo_saved demo_memory"
  let ?ev = "schedule_events demo_sharing" and ?st = "schedule_states memory_SecretCache demo_sharing ?s"
  obtain s where "schedule memory_SecretCache demo_sharing ?s = Some s" "\<And>i. outside (cc_pc s i)" using demo_sharing_runs(2) by blast
  note run = schedule_execution [OF this]
  have start: "?st 0 = ?s" by (simp add: schedule_states_def)
  have wait: "cc_pc (?st 6) 3 = LoadWait ''d'' 1" using demo_sharing_runs(1) by (auto simp: schedule_states_def)
  from every_call_returns [OF run start, of 6 3] wait run start show ?thesis by auto
qed

end
