(* ===== verification/Open_Database.thy ===== *)
theory Open_Database
  imports Schema Users_Store
begin

text \<open>
  Opening the database: \<^verbatim>\<open>database/options.go\<close>, the constructors, the schema migration and the clean-up worker of
  \<^verbatim>\<open>database/database.go\<close>, \<^verbatim>\<open>server/internal/usersdb/options.go\<close>, and the constructors of
  \<^verbatim>\<open>server/internal/usersdb/usersdb.go\<close>. The connection pool of \<^verbatim>\<open>database/sql\<close> and the server behind it are a
  record of methods over their state (\<open>sql_DB\<close>); what is relied on is \<open>sql_laws\<close>: a transaction works on a copy of the
  committed contents, a commit installs it or, when it reports an error, installed all of it or nothing, a rollback drops it, and
  the advisory lock and the two probes change nothing.
\<close>

section \<open>The connection pool\<close>

record ('s, 'x) sql_DB =
  sql_pgx_driver :: bool
  sql_SetMaxOpenConns :: "int \<Rightarrow> 's \<Rightarrow> 's"
  sql_SetMaxIdleConns :: "int \<Rightarrow> 's \<Rightarrow> 's"
  sql_SetConnMaxLifetime :: "duration \<Rightarrow> 's \<Rightarrow> 's"
  sql_SetConnMaxIdleTime :: "duration \<Rightarrow> 's \<Rightarrow> 's"
  sql_Ping :: "'s \<Rightarrow> go_error option \<times> 's"
  sql_Query :: "string \<Rightarrow> 's \<Rightarrow> go_error option \<times> 's"
  rows_Close :: "'s \<Rightarrow> go_error option \<times> 's"
  sql_Begin :: "'s \<Rightarrow> go_error option \<times> 's"
  tx_Exec :: "string \<Rightarrow> int list \<Rightarrow> 's \<Rightarrow> go_error option \<times> 's"
  tx_Commit :: "'s \<Rightarrow> go_error option \<times> 's"
  tx_Rollback :: "'s \<Rightarrow> go_error option \<times> 's"
  sql_Close :: "'s \<Rightarrow> go_error option \<times> 's"
  sql_committed :: "'s \<Rightarrow> 'x"
  sql_pending :: "'s \<Rightarrow> 'x"
  sql_effect :: "string \<Rightarrow> 'x \<Rightarrow> 'x"

text \<open>
  The last three fields are not methods: they name the committed contents, the contents the open transaction sees, and the
  effect of a script, for the laws.
\<close>

definition advisory_lock :: string where
  "advisory_lock = ''SELECT pg_advisory_xact_lock($1)''"

text \<open>
  The two probes of \<^verbatim>\<open>database/usersdb/usersdb.go\<close>, which read no row: the columns of the package's own table, and one
  sanitized column of a sanitized table.
\<close>

definition users_probe :: string where
  "users_probe = ''SELECT user_id, username, email FROM users LIMIT 0''"

definition is_probe :: "sanitize \<Rightarrow> string \<Rightarrow> bool" where
  "is_probe sanitize q \<longleftrightarrow> q = users_probe
     \<or> (\<exists>column table. q = ''SELECT '' @ sanitize [column] @ '' FROM '' @ sanitize table @ '' LIMIT 0'')"

definition sql_laws :: "sanitize \<Rightarrow> ('s, 'x) sql_DB \<Rightarrow> bool" where
  "sql_laws sanitize L \<longleftrightarrow>
     (\<forall>n s. sql_committed L (sql_SetMaxOpenConns L n s) = sql_committed L s \<and> sql_committed L (sql_SetMaxIdleConns L n s) = sql_committed L s
        \<and> sql_committed L (sql_SetConnMaxLifetime L n s) = sql_committed L s \<and> sql_committed L (sql_SetConnMaxIdleTime L n s) = sql_committed L s)
   \<and> (\<forall>s. sql_committed L (snd (sql_Ping L s)) = sql_committed L s)
   \<and> (\<forall>q s. is_probe sanitize q \<longrightarrow> sql_committed L (snd (sql_Query L q s)) = sql_committed L s)
   \<and> (\<forall>s. sql_committed L (snd (rows_Close L s)) = sql_committed L s)
   \<and> (\<forall>s. sql_committed L (snd (sql_Begin L s)) = sql_committed L s
        \<and> (fst (sql_Begin L s) = None \<longrightarrow> sql_pending L (snd (sql_Begin L s)) = sql_committed L s))
   \<and> (\<forall>q args s. sql_committed L (snd (tx_Exec L q args s)) = sql_committed L s
        \<and> (fst (tx_Exec L q args s) = None \<longrightarrow> sql_pending L (snd (tx_Exec L q args s)) = sql_effect L q (sql_pending L s)))
   \<and> (\<forall>s. sql_committed L (snd (tx_Commit L s)) = sql_pending L s
        \<or> fst (tx_Commit L s) \<noteq> None \<and> sql_committed L (snd (tx_Commit L s)) = sql_committed L s)
   \<and> (\<forall>s. sql_committed L (snd (tx_Rollback L s)) = sql_committed L s)
   \<and> (\<forall>x. sql_effect L advisory_lock x = x)"

section \<open>\<^verbatim>\<open>database/options.go\<close>\<close>

record database_options =
  dbo_MaxOpenConns :: int
  dbo_MaxIdleConns :: int
  dbo_ConnMaxLifetime :: duration
  dbo_ConnMaxIdleTime :: duration
  dbo_CleanupInterval :: duration
  dbo_Schema :: Params
  dbo_AutoCreateSchema :: bool

type_synonym database_Option = "database_options \<Rightarrow> database_options"

definition database_defaultOptions :: "sanitize \<Rightarrow> database_options" where
  "database_defaultOptions sanitize = \<lparr>dbo_MaxOpenConns = 20, dbo_MaxIdleConns = 15, dbo_ConnMaxLifetime = 5 * Minute,
     dbo_ConnMaxIdleTime = 2 * Minute, dbo_CleanupInterval = 24 * Hour, dbo_Schema = DefaultParams sanitize, dbo_AutoCreateSchema = False\<rparr>"

definition database_newOptions :: "sanitize \<Rightarrow> database_Option list \<Rightarrow> database_options" where
  "database_newOptions sanitize opts = fold (\<lambda>opt cfg. opt cfg) opts (database_defaultOptions sanitize)"

definition WithMaxOpenConns :: "int \<Rightarrow> database_Option" where
  "WithMaxOpenConns n o' = o'\<lparr>dbo_MaxOpenConns := n\<rparr>"

definition WithMaxIdleConns :: "int \<Rightarrow> database_Option" where
  "WithMaxIdleConns n o' = o'\<lparr>dbo_MaxIdleConns := n\<rparr>"

definition WithCleanupInterval :: "duration \<Rightarrow> database_Option" where
  "WithCleanupInterval d o' = o'\<lparr>dbo_CleanupInterval := d\<rparr>"

definition WithConnMaxLifetime :: "duration \<Rightarrow> database_Option" where
  "WithConnMaxLifetime d o' = o'\<lparr>dbo_ConnMaxLifetime := d\<rparr>"

definition WithConnMaxIdleTime :: "duration \<Rightarrow> database_Option" where
  "WithConnMaxIdleTime d o' = o'\<lparr>dbo_ConnMaxIdleTime := d\<rparr>"

definition database_WithAutoCreateSchema :: "bool \<Rightarrow> database_Option" where
  "database_WithAutoCreateSchema enabled o' = o'\<lparr>dbo_AutoCreateSchema := enabled\<rparr>"

definition WithUserEmailReference :: "unicode \<Rightarrow> sanitize \<Rightarrow> string \<Rightarrow> go_error + database_Option" where
  "WithUserEmailReference U sanitize reference =
     (case ParseUserEmailReference U sanitize reference of
        Inl err \<Rightarrow> Inl err
      | Inr params \<Rightarrow> Inr (\<lambda>o'. o'\<lparr>dbo_Schema := params\<rparr>))"

section \<open>\<^verbatim>\<open>database/database.go\<close>\<close>

definition database_schemaAdvisoryLockKey :: int where
  "database_schemaAdvisoryLockKey = 0x6175746864657669"

text \<open>
  The transaction both packages create their schema in; the deferred rollback also runs after a
  commit, when it finds no transaction.
\<close>

definition locked_transaction :: "('s, 'x) sql_DB \<Rightarrow> int \<Rightarrow> string \<Rightarrow> 's \<Rightarrow> go_error option \<times> 's" where
  "locked_transaction L key script s =
     (case sql_Begin L s of
        (Some err, s1) \<Rightarrow> (Some err, s1)
      | (None, s1) \<Rightarrow>
          (case (case tx_Exec L advisory_lock [key] s1 of
                   (Some err, s2) \<Rightarrow> (Some err, s2)
                 | (None, s2) \<Rightarrow>
                     (case tx_Exec L script [] s2 of
                        (Some err, s3) \<Rightarrow> (Some err, s3)
                      | (None, s3) \<Rightarrow> tx_Commit L s3)) of
             (r, s4) \<Rightarrow> (r, snd (tx_Rollback L s4))))"

definition database_createSchema :: "('s, 'x) sql_DB \<Rightarrow> Params \<Rightarrow> 's \<Rightarrow> go_error option \<times> 's" where
  "database_createSchema L params s =
     (case Generate params of
        Inl err \<Rightarrow> (Some err, s)
      | Inr schemaSQL \<Rightarrow> locked_transaction L database_schemaAdvisoryLockKey schemaSQL s)"

text \<open>An open database: who owns the pool, whether its context is cancelled, and the interval of the worker that was started.\<close>

record Database_handle =
  ownsDB :: bool
  cancelled :: bool
  worker :: "duration option"

definition database_open :: "('s, 'x) sql_DB \<Rightarrow> database_options \<Rightarrow> bool \<Rightarrow> 's \<Rightarrow> (go_error + Database_handle) \<times> 's" where
  "database_open L cfg owns s =
     (case sql_Ping L s of
        (Some err, s1) \<Rightarrow> (Inl err, s1)
      | (None, s1) \<Rightarrow>
          (case (if dbo_AutoCreateSchema cfg then database_createSchema L (dbo_Schema cfg) s1 else (None, s1)) of
             (Some err, s2) \<Rightarrow> (Inl err, s2)
           | (None, s2) \<Rightarrow>
               (Inr \<lparr>ownsDB = owns, cancelled = False,
                  worker = (if dbo_CleanupInterval cfg > 0 then Some (dbo_CleanupInterval cfg) else None)\<rparr>, s2)))"

definition NewDatabase ::
  "(string \<Rightarrow> string \<Rightarrow> go_error + (('s, 'x) sql_DB \<times> 's)) \<Rightarrow> sanitize \<Rightarrow> string \<Rightarrow> database_Option list
    \<Rightarrow> (go_error + Database_handle) \<times> (('s, 'x) sql_DB \<times> 's) option" where
  "NewDatabase sql_Open sanitize dsn opts =
     (case sql_Open ''pgx'' dsn of
        Inl err \<Rightarrow> (Inl err, None)
      | Inr (L, s) \<Rightarrow>
          (let cfg = database_newOptions sanitize opts;
               s1 = sql_SetConnMaxIdleTime L (dbo_ConnMaxIdleTime cfg) (sql_SetConnMaxLifetime L (dbo_ConnMaxLifetime cfg)
                 (sql_SetMaxIdleConns L (dbo_MaxIdleConns cfg) (sql_SetMaxOpenConns L (dbo_MaxOpenConns cfg) s)))
           in case database_open L cfg True s1 of
                (Inl err, s2) \<Rightarrow> (Inl err, Some (L, snd (sql_Close L s2)))
              | (Inr d, s2) \<Rightarrow> (Inr d, Some (L, s2))))"

definition database_New :: "('s, 'x) sql_DB \<Rightarrow> sanitize \<Rightarrow> database_Option list \<Rightarrow> 's \<Rightarrow> (go_error + Database_handle) \<times> 's" where
  "database_New L sanitize opts s =
     (if \<not> sql_pgx_driver L then (Inl ErrUnsupportedDriver, s)
      else database_open L (database_newOptions sanitize opts) False s)"

definition Database_Close :: "('s, 'x) sql_DB \<Rightarrow> Database_handle \<Rightarrow> 's \<Rightarrow> go_error option \<times> Database_handle \<times> 's" where
  "Database_Close L d s =
     (let d' = d\<lparr>cancelled := True\<rparr>
      in if \<not> ownsDB d then (None, d', s) else (case sql_Close L s of (r, s') \<Rightarrow> (r, d', s')))"

text \<open>
  The worker over the events its \<^verbatim>\<open>select\<close> receives: a tick runs the clean-up, whose error is only logged, and the end of the context
  ends the loop.
\<close>

datatype worker_event = Tick | CtxDone

fun startCleanupWorker :: "worker_event list \<Rightarrow> pg \<Rightarrow> pg" where
  "startCleanupWorker [] p = p"
| "startCleanupWorker (Tick # es) p = startCleanupWorker es (snd (cleanupOldDevices p))"
| "startCleanupWorker (CtxDone # es) p = p"

section \<open>\<^verbatim>\<open>usersdb/options.go\<close>\<close>

record externalOptions =
  userEmailReference :: string
  usernameColumn :: string

record usersdb_options =
  uo_external :: "externalOptions option"
  uo_autoCreateSchema :: bool
  uo_databaseOptions :: "database_Option list"

type_synonym usersdb_Option = "usersdb_options \<Rightarrow> usersdb_options"

definition usersdb_newOptions :: "usersdb_Option list \<Rightarrow> usersdb_options" where
  "usersdb_newOptions opts = fold (\<lambda>opt cfg. opt cfg) opts
     \<lparr>uo_external = None, uo_autoCreateSchema = False, uo_databaseOptions = []\<rparr>"

definition WithDatabaseOptions :: "database_Option list \<Rightarrow> usersdb_Option" where
  "WithDatabaseOptions opts o' = o'\<lparr>uo_databaseOptions := uo_databaseOptions o' @ opts\<rparr>"

definition usersdb_WithAutoCreateSchema :: "bool \<Rightarrow> usersdb_Option" where
  "usersdb_WithAutoCreateSchema enabled o' = o'\<lparr>uo_autoCreateSchema := enabled\<rparr>"

definition WithExternal :: "string \<Rightarrow> string \<Rightarrow> usersdb_Option" where
  "WithExternal ref col o' = o'\<lparr>uo_external := Some \<lparr>userEmailReference = ref, usernameColumn = col\<rparr>\<rparr>"

section \<open>\<^verbatim>\<open>usersdb/usersdb.go\<close>\<close>

definition usersdb_schemaAdvisoryLockKey :: int where
  "usersdb_schemaAdvisoryLockKey = 0x6175746875736572"

definition usersdb_schemaTemplate :: "template_node list" where
  "usersdb_schemaTemplate =
     [TemplateText ''CREATE TABLE IF NOT EXISTS '', TemplateField UsersTable, TemplateText ('' ('' @ newline @
        ''    user_id UUID PRIMARY KEY DEFAULT gen_random_uuid(),'' @ newline @
        ''    username TEXT NOT NULL,'' @ newline @ ''    ''),
      TemplateField UsersEmailColumn, TemplateText '' '', TemplateField UsersEmailType, TemplateText ('' NOT NULL UNIQUE'' @ newline @ '');'')]"

definition usersdb_createSchema :: "('s, 'x) sql_DB \<Rightarrow> sanitize \<Rightarrow> 's \<Rightarrow> go_error option \<times> 's" where
  "usersdb_createSchema L sanitize s =
     locked_transaction L usersdb_schemaAdvisoryLockKey (template_Execute usersdb_schemaTemplate (DefaultParams sanitize)) s"

definition probe :: "('s, 'x) sql_DB \<Rightarrow> string \<Rightarrow> 's \<Rightarrow> go_error option \<times> 's" where
  "probe L query s = (case sql_Query L query s of (Some err, s1) \<Rightarrow> (Some err, s1) | (None, s1) \<Rightarrow> rows_Close L s1)"

definition newExternal :: "('s, 'x) sql_DB \<Rightarrow> unicode \<Rightarrow> sanitize \<Rightarrow> externalOptions \<Rightarrow> 's \<Rightarrow> (go_error + Store) \<times> 's" where
  "newExternal L U sanitize cfg s =
     (let store = \<lparr>external = True, selectUsernameQuery = ''''\<rparr>
      in if usernameColumn cfg = '''' then (Inr store, s)
         else case ParseUserEmailReference U sanitize (userEmailReference cfg) of
           Inl err \<Rightarrow> (Inl err, s)
         | Inr params \<Rightarrow>
             (let column = sanitize [usernameColumn cfg]
              in case probe L (''SELECT '' @ column @ '' FROM '' @ UsersTable params @ '' LIMIT 0'') s of
                   (Some err, s1) \<Rightarrow> (Inl err, s1)
                 | (None, s1) \<Rightarrow>
                     (Inr (store\<lparr>selectUsernameQuery :=
                        ''SELECT '' @ column @ '' FROM '' @ UsersTable params @ '' WHERE '' @ UsersEmailColumn params @ '' = $1''\<rparr>), s1)))"

definition newStore :: "('s, 'x) sql_DB \<Rightarrow> unicode \<Rightarrow> sanitize \<Rightarrow> usersdb_options \<Rightarrow> 's \<Rightarrow> (go_error + Store) \<times> 's" where
  "newStore L U sanitize cfg s =
     (case uo_external cfg of
        Some ext \<Rightarrow> newExternal L U sanitize ext s
      | None \<Rightarrow>
          (case (if uo_autoCreateSchema cfg then usersdb_createSchema L sanitize s
                 else probe L users_probe s) of
             (Some err, s1) \<Rightarrow> (Inl err, s1)
           | (None, s1) \<Rightarrow> (Inr \<lparr>external = False, selectUsernameQuery = ''SELECT username FROM users WHERE email = $1''\<rparr>, s1)))"

definition usersdb_New ::
  "('s, 'x) sql_DB \<Rightarrow> unicode \<Rightarrow> sanitize \<Rightarrow> usersdb_Option list \<Rightarrow> 's \<Rightarrow> (go_error + (Store \<times> Database_handle)) \<times> 's" where
  "usersdb_New L U sanitize opts s =
     (let cfg = usersdb_newOptions opts
      in case newStore L U sanitize cfg s of
        (Inl err, s1) \<Rightarrow> (Inl err, s1)
      | (Inr store, s1) \<Rightarrow>
          (let databaseOptions = uo_databaseOptions cfg @ [database_WithAutoCreateSchema (uo_autoCreateSchema cfg)];
               all = (case uo_external cfg of
                        None \<Rightarrow> Inr databaseOptions
                      | Some ext \<Rightarrow>
                          (case WithUserEmailReference U sanitize (userEmailReference ext) of
                             Inl err \<Rightarrow> Inl err
                           | Inr opt \<Rightarrow> Inr (databaseOptions @ [opt])))
           in case all of
                Inl err \<Rightarrow> (Inl err, s1)
              | Inr dbOpts \<Rightarrow>
                  (case database_New L sanitize dbOpts s1 of
                     (Inl err, s2) \<Rightarrow> (Inl err, s2)
                   | (Inr d, s2) \<Rightarrow> (Inr (store, d), s2))))"

section \<open>What opening does to the contents\<close>

lemma sql_lawsD:
  assumes "sql_laws sanitize L"
  shows law_ping: "sql_Ping L s = (r, s') \<Longrightarrow> sql_committed L s' = sql_committed L s"
    and law_query: "is_probe sanitize q \<Longrightarrow> sql_Query L q s = (r, s') \<Longrightarrow> sql_committed L s' = sql_committed L s"
    and law_rows: "rows_Close L s = (r, s') \<Longrightarrow> sql_committed L s' = sql_committed L s"
    and law_begin: "sql_Begin L s = (r, s') \<Longrightarrow> sql_committed L s' = sql_committed L s \<and> (r = None \<longrightarrow> sql_pending L s' = sql_committed L s)"
    and law_exec: "tx_Exec L q args s = (r, s') \<Longrightarrow>
        sql_committed L s' = sql_committed L s \<and> (r = None \<longrightarrow> sql_pending L s' = sql_effect L q (sql_pending L s))"
    and law_commit: "tx_Commit L s = (r, s') \<Longrightarrow>
        sql_committed L s' = sql_pending L s \<or> r \<noteq> None \<and> sql_committed L s' = sql_committed L s"
    and law_rollback: "tx_Rollback L s = (r, s') \<Longrightarrow> sql_committed L s' = sql_committed L s"
    and law_lock: "sql_effect L advisory_lock x = x"
proof -
  note laws = assms [unfolded sql_laws_def]
  show "sql_Ping L s = (r, s') \<Longrightarrow> sql_committed L s' = sql_committed L s" using laws by (metis snd_conv)
  show "is_probe sanitize q \<Longrightarrow> sql_Query L q s = (r, s') \<Longrightarrow> sql_committed L s' = sql_committed L s" using laws by (metis snd_conv)
  show "rows_Close L s = (r, s') \<Longrightarrow> sql_committed L s' = sql_committed L s" using laws by (metis snd_conv)
  show "sql_Begin L s = (r, s') \<Longrightarrow> sql_committed L s' = sql_committed L s \<and> (r = None \<longrightarrow> sql_pending L s' = sql_committed L s)"
    using laws by (metis fst_conv snd_conv)
  show "tx_Exec L q args s = (r, s') \<Longrightarrow>
      sql_committed L s' = sql_committed L s \<and> (r = None \<longrightarrow> sql_pending L s' = sql_effect L q (sql_pending L s))"
    using laws by (metis fst_conv snd_conv)
  show "tx_Commit L s = (r, s') \<Longrightarrow> sql_committed L s' = sql_pending L s \<or> r \<noteq> None \<and> sql_committed L s' = sql_committed L s"
    using laws by (metis fst_conv snd_conv)
  show "tx_Rollback L s = (r, s') \<Longrightarrow> sql_committed L s' = sql_committed L s" using laws by (metis snd_conv)
  show "sql_effect L advisory_lock x = x" using laws by simp
qed

text \<open>A script runs completely or not at all.\<close>

lemma locked_transaction_atomic:
  assumes L: "sql_laws sanitize L" and run: "locked_transaction L key script s = (r, s')"
  shows "sql_committed L s' = sql_effect L script (sql_committed L s) \<or> r \<noteq> None \<and> sql_committed L s' = sql_committed L s"
proof -
  note law = sql_lawsD [OF L]
  have rb: "sql_committed L (snd (tx_Rollback L x)) = sql_committed L x" for x using law(7) by (metis prod.collapse)
  obtain b s1 where 1: "sql_Begin L s = (b, s1)" by fastforce
  obtain l s2 where 2: "tx_Exec L advisory_lock [key] s1 = (l, s2)" by fastforce
  obtain x s3 where 3: "tx_Exec L script [] s2 = (x, s3)" by fastforce
  obtain c s4 where 4: "tx_Commit L s3 = (c, s4)" by fastforce
  note f1 = law(4) [OF 1] and f2 = law(5) [OF 2] and f3 = law(5) [OF 3] and f4 = law(6) [OF 4]
  show ?thesis
  proof (cases b)
    case None
    show ?thesis
    proof (cases l)
      case l: None
      show ?thesis
      proof (cases x)
        case x: None
        have "sql_pending L s3 = sql_effect L script (sql_committed L s)" using f1 f2 f3 None l x law(8) by simp
        moreover have "r = c" "sql_committed L s' = sql_committed L s4"
          using run by (auto simp: locked_transaction_def 1 2 3 4 None l x rb)
        ultimately show ?thesis using f1 f2 f3 f4 by auto
      qed (use run f1 f2 f3 None l in \<open>auto simp: locked_transaction_def 1 2 3 rb\<close>)
    qed (use run f1 f2 None in \<open>auto simp: locked_transaction_def 1 2 rb\<close>)
  qed (use run f1 in \<open>auto simp: locked_transaction_def 1\<close>)
qed

lemma probe_keeps:
  assumes "sql_laws sanitize L" and "is_probe sanitize q" and "probe L q s = (r, s')"
  shows "sql_committed L s' = sql_committed L s"
proof -
  obtain x s1 where q: "sql_Query L q s = (x, s1)" by fastforce
  from law_query [OF assms(1,2) q] assms(3) q law_rows [OF assms(1), of s1 r s'] show ?thesis
    by (auto simp: probe_def split: option.splits)
qed

lemma newExternal_store:
  assumes L: "sql_laws sanitize L" and new: "newExternal L U sanitize ext s = (r, s')"
  shows "sql_committed L s' = sql_committed L s
    \<and> (\<forall>st. r = Inr st \<longrightarrow> external st \<and> (selectUsernameQuery st = '''' \<longleftrightarrow> usernameColumn ext = ''''))"
proof -
  have keeps: "sql_committed L s1 = sql_committed L s"
    if "probe L (''SELECT '' @ sanitize [c] @ '' FROM '' @ UsersTable p @ '' LIMIT 0'') s = (x, s1)"
      and "ParseUserEmailReference U sanitize e = Inr p" for c e p x s1
  proof -
    from that(2) have "\<exists>t. UsersTable p = sanitize t"
      by (auto simp: ParseUserEmailReference_def Let_def split: option.splits prod.splits if_splits)
    then obtain t where "UsersTable p = sanitize t" by blast
    then have "is_probe sanitize (''SELECT '' @ sanitize [c] @ '' FROM '' @ UsersTable p @ '' LIMIT 0'')"
      unfolding is_probe_def by metis
    from probe_keeps [OF L this that(1)] show ?thesis .
  qed
  show ?thesis
    using new keeps
    by (auto simp: newExternal_def Let_def simp del: append.simps split: if_splits sum.splits prod.splits option.splits)
qed

text \<open>The scripts that an opening with these options runs, in order.\<close>

definition migration :: "unicode \<Rightarrow> sanitize \<Rightarrow> usersdb_options \<Rightarrow> string list" where
  "migration U sanitize cfg =
     (if \<not> uo_autoCreateSchema cfg then []
      else case uo_external cfg of
        None \<Rightarrow> [template_Execute usersdb_schemaTemplate (DefaultParams sanitize),
                 template_Execute schemaTemplate (dbo_Schema (database_newOptions sanitize (uo_databaseOptions cfg)))]
      | Some ext \<Rightarrow>
          (case ParseUserEmailReference U sanitize (userEmailReference ext) of
             Inl _ \<Rightarrow> [] | Inr params \<Rightarrow> [template_Execute schemaTemplate params]))"

definition users_migration :: "sanitize \<Rightarrow> usersdb_options \<Rightarrow> string list" where
  "users_migration sanitize cfg = (if uo_autoCreateSchema cfg \<and> uo_external cfg = None
     then [template_Execute usersdb_schemaTemplate (DefaultParams sanitize)] else [])"

lemma newStore_migrates:
  assumes L: "sql_laws sanitize L" and new: "newStore L U sanitize cfg s = (r, s')"
  defines "users_script \<equiv> users_migration sanitize cfg"
  shows "(case r of
      Inl _ \<Rightarrow> sql_committed L s' = sql_committed L s \<or> sql_committed L s' = fold (sql_effect L) users_script (sql_committed L s)
    | Inr st \<Rightarrow> sql_committed L s' = fold (sql_effect L) users_script (sql_committed L s) \<and> (external st \<longleftrightarrow> uo_external cfg \<noteq> None)
        \<and> (selectUsernameQuery st = '''' \<longleftrightarrow> (\<exists>ext. uo_external cfg = Some ext \<and> usernameColumn ext = '''')))"
proof (cases "uo_external cfg")
  case (Some ext)
  with newExternal_store [OF L, of U ext s r s'] new show ?thesis
    by (auto simp: newStore_def users_script_def users_migration_def split: sum.splits)
next
  case None
  have sel: "is_probe sanitize users_probe" by (simp add: is_probe_def)
  obtain x s1 where run: "(if uo_autoCreateSchema cfg then usersdb_createSchema L sanitize s
      else probe L users_probe s) = (x, s1)" by fastforce
  have eff: "sql_committed L s1 = fold (sql_effect L) users_script (sql_committed L s) \<or> x \<noteq> None \<and> sql_committed L s1 = sql_committed L s"
    using run locked_transaction_atomic [OF L, of usersdb_schemaAdvisoryLockKey _ s x s1] probe_keeps [OF L sel, of s x s1] None
    by (auto simp: usersdb_createSchema_def users_script_def users_migration_def split: if_splits)
  show ?thesis
    using new eff unfolding newStore_def None option.simps run by (auto split: option.splits simp: None)
qed

lemma database_New_migrates:
  assumes L: "sql_laws sanitize L" and new: "database_New L sanitize opts s = (r, s')"
  defines "cfg \<equiv> database_newOptions sanitize opts"
  defines "script \<equiv> if dbo_AutoCreateSchema cfg then [template_Execute schemaTemplate (dbo_Schema cfg)] else []"
  shows "(case r of
      Inl _ \<Rightarrow> sql_committed L s' = sql_committed L s \<or> sql_committed L s' = fold (sql_effect L) script (sql_committed L s)
    | Inr d \<Rightarrow> sql_committed L s' = fold (sql_effect L) script (sql_committed L s) \<and> sql_pgx_driver L \<and> \<not> ownsDB d
        \<and> worker d = (if dbo_CleanupInterval cfg > 0 then Some (dbo_CleanupInterval cfg) else None))"
proof (cases "sql_pgx_driver L")
  case True
  obtain x s1 where ping: "sql_Ping L s = (x, s1)" by fastforce
  from law_ping [OF L ping] have s1: "sql_committed L s1 = sql_committed L s" .
  show ?thesis
  proof (cases x)
    case None
    obtain y s2 where run: "(if dbo_AutoCreateSchema cfg then database_createSchema L (dbo_Schema cfg) s1 else (None, s1)) = (y, s2)" by fastforce
    have "sql_committed L s2 = fold (sql_effect L) script (sql_committed L s) \<or> y \<noteq> None \<and> sql_committed L s2 = sql_committed L s"
      using run s1 locked_transaction_atomic [OF L, of database_schemaAdvisoryLockKey _ s1 y s2]
      by (auto simp: database_createSchema_def Generate_def script_def split: if_splits)
    with new True ping None run show ?thesis
      by (auto simp: database_New_def database_open_def cfg_def [symmetric] split: option.splits)
  qed (use new True ping s1 in \<open>auto simp: database_New_def database_open_def\<close>)
qed (use new in \<open>auto simp: database_New_def\<close>)

text \<open>The options the device tables are opened with.\<close>

lemma device_options:
  "dbo_AutoCreateSchema (database_newOptions sanitize (opts @ [database_WithAutoCreateSchema b])) = b"
  "dbo_Schema (database_newOptions sanitize (opts @ [database_WithAutoCreateSchema b])) = dbo_Schema (database_newOptions sanitize opts)"
  "dbo_AutoCreateSchema (database_newOptions sanitize (opts @ [database_WithAutoCreateSchema b, \<lambda>o'. o'\<lparr>dbo_Schema := ps\<rparr>])) = b"
  "dbo_Schema (database_newOptions sanitize (opts @ [database_WithAutoCreateSchema b, \<lambda>o'. o'\<lparr>dbo_Schema := ps\<rparr>])) = ps"
  by (simp_all add: database_newOptions_def database_WithAutoCreateSchema_def)

definition device_migration :: "sanitize \<Rightarrow> database_Option list \<Rightarrow> string list" where
  "device_migration sanitize opts = (if dbo_AutoCreateSchema (database_newOptions sanitize opts)
     then [template_Execute schemaTemplate (dbo_Schema (database_newOptions sanitize opts))] else [])"

lemma migration_parts:
  assumes parses: "\<nexists>ext e. uo_external cfg = Some ext \<and> ParseUserEmailReference U sanitize (userEmailReference ext) = Inl e"
    and base: "base = uo_databaseOptions cfg @ [database_WithAutoCreateSchema (uo_autoCreateSchema cfg)]"
  obtains dbOpts where "(case uo_external cfg of None \<Rightarrow> Inr base | Some ext \<Rightarrow>
      (case WithUserEmailReference U sanitize (userEmailReference ext) of Inl err \<Rightarrow> Inl err | Inr opt \<Rightarrow> Inr (base @ [opt]))) = Inr dbOpts"
    and "migration U sanitize cfg = users_migration sanitize cfg @ device_migration sanitize dbOpts"
proof (cases "uo_external cfg")
  case None
  then show thesis
    by (intro that [of base]) (simp_all add: base migration_def users_migration_def device_migration_def device_options)
next
  case (Some ext)
  with parses obtain params where "ParseUserEmailReference U sanitize (userEmailReference ext) = Inr params" by (metis sum.exhaust)
  with Some show thesis
    by (intro that [of "base @ [\<lambda>o'. o'\<lparr>dbo_Schema := params\<rparr>]"])
      (simp_all add: base WithUserEmailReference_def migration_def users_migration_def device_migration_def device_options)
qed

text \<open>The contents before, after the users' script and after all scripts are those after a prefix of the scripts.\<close>

lemma partial_migration:
  assumes "c = sql_committed L s \<or> c = fold (sql_effect L) (users_migration sanitize cfg) (sql_committed L s)
    \<or> c = fold (sql_effect L) (migration U sanitize cfg) (sql_committed L s)"
  shows "\<exists>n. c = fold (sql_effect L) (take n (migration U sanitize cfg)) (sql_committed L s)"
proof -
  have "\<exists>n. take n (migration U sanitize cfg) = users_migration sanitize cfg" "\<exists>n. take n (migration U sanitize cfg) = []"
    "\<exists>n. take n (migration U sanitize cfg) = migration U sanitize cfg"
    by (cases "uo_external cfg"; auto simp: migration_def users_migration_def intro: exI [of _ 0] exI [of _ 1] exI [of _ 2])+
  with assms show ?thesis by (metis fold_simps(1))
qed

text \<open>
  C24. Opening the users' store migrates the database step by step, each step whole. When \<^verbatim>\<open>New\<close> returns a store, the driver is pgx, and the committed
  contents are those before with exactly the scripts of \<open>migration\<close> applied in order: none unless the schema is to be created, the device
  tables alone for an external users table, the users table first otherwise. When it fails, at whatever call, the contents are those after
  a prefix of these scripts, never after part of one. The store is external exactly when it was opened for an external table, and asks for no username exactly when that table has no username column.
\<close>

theorem opening_migrates_whole_scripts:
  assumes L: "sql_laws sanitize L" and new: "usersdb_New L U sanitize opts s = (r, s')"
  shows "(case r of
      Inl _ \<Rightarrow> \<exists>n. sql_committed L s' = fold (sql_effect L) (take n (migration U sanitize (usersdb_newOptions opts))) (sql_committed L s)
    | Inr (st, d) \<Rightarrow> sql_pgx_driver L \<and> \<not> ownsDB d
        \<and> sql_committed L s' = fold (sql_effect L) (migration U sanitize (usersdb_newOptions opts)) (sql_committed L s)
        \<and> (external st \<longleftrightarrow> uo_external (usersdb_newOptions opts) \<noteq> None)
        \<and> (selectUsernameQuery st = '''' \<longleftrightarrow> (\<exists>ext. uo_external (usersdb_newOptions opts) = Some ext \<and> usernameColumn ext = '''')))"
proof -
  define cfg where "cfg = usersdb_newOptions opts"
  obtain x s1 where store: "newStore L U sanitize cfg s = (x, s1)" by fastforce
  note st = newStore_migrates [OF L store]
  define users_script where "users_script = users_migration sanitize cfg"
  note partial = partial_migration [of _ L s sanitize cfg U, folded users_script_def]
  show ?thesis
  proof (cases x)
    case (Inl e)
    with new store st partial [of "sql_committed L s1"] show ?thesis
      by (auto simp: usersdb_New_def Let_def cfg_def users_script_def)
  next
    case (Inr store')
    with st have s1: "sql_committed L s1 = fold (sql_effect L) users_script (sql_committed L s)" "external store' \<longleftrightarrow> uo_external cfg \<noteq> None"
      "selectUsernameQuery store' = '''' \<longleftrightarrow> (\<exists>ext. uo_external cfg = Some ext \<and> usernameColumn ext = '''')"
      by (simp_all add: users_script_def)
    define base where "base = uo_databaseOptions cfg @ [database_WithAutoCreateSchema (uo_autoCreateSchema cfg)]"
    show ?thesis
    proof (cases "\<exists>ext e. uo_external cfg = Some ext \<and> ParseUserEmailReference U sanitize (userEmailReference ext) = Inl e")
      case True
      with new store Inr obtain e where "r = Inl e" "s' = s1"
        by (auto simp: usersdb_New_def Let_def cfg_def [symmetric] WithUserEmailReference_def)
      with partial [of "sql_committed L s1"] s1(1) show ?thesis by (simp add: cfg_def)
    next
      case False
      then obtain dbOpts where opts: "(case uo_external cfg of None \<Rightarrow> Inr base | Some ext \<Rightarrow>
            (case WithUserEmailReference U sanitize (userEmailReference ext) of Inl err \<Rightarrow> Inl err | Inr opt \<Rightarrow> Inr (base @ [opt]))) = Inr dbOpts"
        and whole: "migration U sanitize cfg = users_script @ device_migration sanitize dbOpts"
        unfolding users_script_def by (rule migration_parts [OF _ base_def])
      obtain y s2 where db: "database_New L sanitize dbOpts s1 = (y, s2)" by fastforce
      note db' = database_New_migrates [OF L db, folded device_migration_def, unfolded s1(1)]
      have fold: "fold (sql_effect L) (device_migration sanitize dbOpts) (fold (sql_effect L) users_script (sql_committed L s))
          = fold (sql_effect L) (migration U sanitize cfg) (sql_committed L s)" by (simp add: whole)
      have "r = (case y of Inl e \<Rightarrow> Inl e | Inr d \<Rightarrow> Inr (store', d)) \<and> s' = s2"
        using new store Inr opts db by (auto simp: usersdb_New_def Let_def cfg_def [symmetric] base_def [symmetric] split: sum.splits)
      with db' fold s1(2,3) partial [of "sql_committed L s2"] show ?thesis
        by (cases y) (auto simp: cfg_def)
    qed
  qed
qed

text \<open>A pool over a log of the executed scripts, and one whose commits fail.\<close>

definition log_DB :: "go_error option \<Rightarrow> (string list \<times> string list, string list) sql_DB" where
  "log_DB failure =
     (let run = (\<lambda>q x. if q = advisory_lock then x else x @ [q])
      in \<lparr>sql_pgx_driver = True, sql_SetMaxOpenConns = (\<lambda>_ s. s), sql_SetMaxIdleConns = (\<lambda>_ s. s), sql_SetConnMaxLifetime = (\<lambda>_ s. s),
          sql_SetConnMaxIdleTime = (\<lambda>_ s. s), sql_Ping = (\<lambda>s. (None, s)), sql_Query = (\<lambda>_ s. (None, s)), rows_Close = (\<lambda>s. (None, s)),
          sql_Begin = (\<lambda>(c, p). (None, c, c)), tx_Exec = (\<lambda>q _ (c, p). (None, c, run q p)),
          tx_Commit = (\<lambda>(c, p). (failure, if failure = None then p else c, p)), tx_Rollback = (\<lambda>s. (None, s)), sql_Close = (\<lambda>s. (None, s)),
          sql_committed = fst, sql_pending = snd, sql_effect = run\<rparr>)"

lemma log_DB_laws: "sql_laws sanitize (log_DB failure)"
  by (auto simp: sql_laws_def log_DB_def Let_def)

theorem opening_migrates_whole_scripts_witness:
  "\<exists>st d s'. usersdb_New (log_DB None) \<lparr>uni_ToLower = id, uni_TrimSpace = id, uni_EqualFold = (=)\<rparr> dotted_parts
      [usersdb_WithAutoCreateSchema True] ([], []) = (Inr (st, d), s') \<and> \<not> external st \<and> length (sql_committed (log_DB None) s') = 2"
proof -
  let ?U = "\<lparr>uni_ToLower = id, uni_TrimSpace = id, uni_EqualFold = (=)\<rparr>" and ?opts = "[usersdb_WithAutoCreateSchema True]"
  have cfg: "usersdb_newOptions ?opts = \<lparr>uo_external = None, uo_autoCreateSchema = True, uo_databaseOptions = []\<rparr>"
    by (simp add: usersdb_newOptions_def usersdb_WithAutoCreateSchema_def)
  have opts: "database_newOptions dotted_parts [database_WithAutoCreateSchema True] = (database_defaultOptions dotted_parts)\<lparr>dbo_AutoCreateSchema := True\<rparr>"
    by (simp add: database_newOptions_def database_WithAutoCreateSchema_def)
  have locked: "\<exists>s'. locked_transaction (log_DB None) key script s = (None, s')" for key script s
    by (simp add: locked_transaction_def log_DB_def Let_def split: prod.splits)
  obtain s1 where 1: "usersdb_createSchema (log_DB None) dotted_parts ([], []) = (None, s1)"
    unfolding usersdb_createSchema_def using locked by blast
  obtain s2 where 2: "database_createSchema (log_DB None) (DefaultParams dotted_parts) s1 = (None, s2)"
    unfolding database_createSchema_def Generate_def sum.case using locked by blast
  have 3: "sql_pgx_driver (log_DB None)" "sql_Ping (log_DB None) s1 = (None, s1)" by (simp_all add: log_DB_def Let_def)
  obtain st d s' where new: "usersdb_New (log_DB None) ?U dotted_parts ?opts ([], []) = (Inr (st, d), s')"
    by (simp add: usersdb_New_def cfg newStore_def 1 database_New_def database_open_def opts database_defaultOptions_def 2 3 Let_def)
  have create: "template_Execute usersdb_schemaTemplate p \<noteq> advisory_lock" "template_Execute schemaTemplate p \<noteq> advisory_lock" for p
    by (simp_all add: advisory_lock_def usersdb_schemaTemplate_def schemaTemplate_def schema_head_def)
  from opening_migrates_whole_scripts [OF log_DB_laws new] new create show ?thesis
    by (auto simp: cfg migration_def log_DB_def Let_def)
qed

end
