(* ===== verification/Listener.thy ===== *)
theory Listener
  imports Go_Strings
begin

text \<open>
  \<^verbatim>\<open>createListener\<close> of \<^verbatim>\<open>server/cmd/main.go\<close>, and \<^verbatim>\<open>newListener\<close> of \<^verbatim>\<open>server/test-provider/main.go\<close>, which is the same text. The operating
  system is the record \<open>filesystem\<close> of the calls the functions make, on a state \<open>'f\<close> of which \<open>fs_nodes\<close> and \<open>fs_open\<close> show the
  files and the open listeners; any call may fail, and \<open>fs_laws\<close> is what its documentation promises when it does not. Octal permissions
  are written in decimal: 0777 is 511, 0666 is 438.
\<close>

datatype fs_node = Directory | PlainFile | Socket nat int

fun set_mode :: "int \<Rightarrow> fs_node \<Rightarrow> fs_node" where
  "set_mode m (Socket l _) = Socket l m"
| "set_mode m node = node"

record 'f filesystem =
  filepath_Dir :: "string \<Rightarrow> string"
  os_MkdirAll :: "string \<Rightarrow> int \<Rightarrow> 'f \<Rightarrow> go_error option \<times> 'f"
  os_Remove :: "string \<Rightarrow> 'f \<Rightarrow> go_error option \<times> 'f"
  os_Chmod :: "string \<Rightarrow> int \<Rightarrow> 'f \<Rightarrow> go_error option \<times> 'f"
  os_Rename :: "string \<Rightarrow> string \<Rightarrow> 'f \<Rightarrow> go_error option \<times> 'f"
  net_Listen :: "string \<Rightarrow> string \<Rightarrow> 'f \<Rightarrow> (go_error + nat) \<times> 'f"
  listener_Close :: "nat \<Rightarrow> 'f \<Rightarrow> 'f"
  fs_nodes :: "'f \<Rightarrow> string \<rightharpoonup> fs_node"
  fs_open :: "'f \<Rightarrow> nat set"

definition createListener :: "'f filesystem \<Rightarrow> string \<Rightarrow> 'f \<Rightarrow> (go_error + nat) \<times> 'f" where
  "createListener F addr s =
     (case strings_CutPrefix addr ''unix://'' of
        (after, True) \<Rightarrow>
          (case os_MkdirAll F (filepath_Dir F after) 511 s of
             (Some err, s1) \<Rightarrow> (Inl err, s1)
           | (None, s1) \<Rightarrow>
               (let temp = after @ ''.temp'';
                    s2 = snd (os_Remove F temp s1);
                    s3 = snd (os_Remove F after s2)
                in case net_Listen F ''unix'' temp s3 of
                     (Inl err, s4) \<Rightarrow> (Inl err, s4)
                   | (Inr l, s4) \<Rightarrow>
                       (case os_Chmod F temp 438 s4 of
                          (Some err, s5) \<Rightarrow> (Inl err, snd (os_Remove F temp (listener_Close F l s5)))
                        | (None, s5) \<Rightarrow>
                            (case os_Rename F temp after s5 of
                               (Some err, s6) \<Rightarrow> (Inl err, snd (os_Remove F temp (listener_Close F l s6)))
                             | (None, s6) \<Rightarrow> (Inr l, s6)))))
      | (_, False) \<Rightarrow> net_Listen F ''tcp'' addr s)"

definition newListener :: "'f filesystem \<Rightarrow> string \<Rightarrow> 'f \<Rightarrow> (go_error + nat) \<times> 'f" where
  "newListener F addr s = createListener F addr s"

section \<open>What the system promises\<close>

definition MkdirAll_law :: "'f filesystem \<Rightarrow> bool" where
  "MkdirAll_law F \<longleftrightarrow> (\<forall>d m s. let s' = snd (os_MkdirAll F d m s) in fs_open F s' = fs_open F s
     \<and> (\<forall>q. fs_nodes F s' q = fs_nodes F s q \<or> fs_nodes F s q = None \<and> fs_nodes F s' q = Some Directory))"

definition Remove_law :: "'f filesystem \<Rightarrow> bool" where
  "Remove_law F \<longleftrightarrow> (\<forall>p s. let (e, s') = os_Remove F p s in fs_open F s' = fs_open F s
     \<and> fs_nodes F s' = (if e = None then (fs_nodes F s)(p := None) else fs_nodes F s))"

definition Chmod_law :: "'f filesystem \<Rightarrow> bool" where
  "Chmod_law F \<longleftrightarrow> (\<forall>p m s. let (e, s') = os_Chmod F p m s in fs_open F s' = fs_open F s
     \<and> fs_nodes F s' = (if e = None then (fs_nodes F s)(p := map_option (set_mode m) (fs_nodes F s p)) else fs_nodes F s))"

text \<open>Renaming is described for a socket only: a renamed directory takes what is below it along.\<close>

definition is_socket :: "fs_node option \<Rightarrow> bool" where
  "is_socket n \<longleftrightarrow> (case n of Some (Socket _ _) \<Rightarrow> True | _ \<Rightarrow> False)"

definition Rename_law :: "'f filesystem \<Rightarrow> bool" where
  "Rename_law F \<longleftrightarrow> (\<forall>p q s. is_socket (fs_nodes F s p) \<longrightarrow> (let (e, s') = os_Rename F p q s in fs_open F s' = fs_open F s
     \<and> fs_nodes F s' = (if e = None then (fs_nodes F s)(p := None, q := fs_nodes F s p) else fs_nodes F s)))"

definition Listen_law :: "'f filesystem \<Rightarrow> bool" where
  "Listen_law F \<longleftrightarrow> (\<forall>n a s. case net_Listen F n a s of
       (Inl e, s') \<Rightarrow> fs_open F s' = fs_open F s \<and> fs_nodes F s' = fs_nodes F s
     | (Inr l, s') \<Rightarrow> l \<notin> fs_open F s \<and> fs_open F s' = insert l (fs_open F s)
         \<and> (n = ''unix'' \<longrightarrow> (\<exists>m. fs_nodes F s' = (fs_nodes F s)(a \<mapsto> Socket l m))))"

definition Close_law :: "'f filesystem \<Rightarrow> bool" where
  "Close_law F \<longleftrightarrow> (\<forall>l s. fs_open F (listener_Close F l s) = fs_open F s - {l}
     \<and> (\<forall>q. fs_nodes F (listener_Close F l s) q = fs_nodes F s q
       \<or> fs_nodes F (listener_Close F l s) q = None \<and> (\<exists>m. fs_nodes F s q = Some (Socket l m))))"

definition fs_laws :: "'f filesystem \<Rightarrow> bool" where
  "fs_laws F \<longleftrightarrow> MkdirAll_law F \<and> Remove_law F \<and> Chmod_law F \<and> Rename_law F \<and> Listen_law F \<and> Close_law F"

text \<open>The nodes of one state are no new sockets compared with another, but for one path.\<close>

definition no_new_socket :: "'f filesystem \<Rightarrow> string \<Rightarrow> 'f \<Rightarrow> 'f \<Rightarrow> bool" where
  "no_new_socket F temp s s' \<longleftrightarrow>
     (\<forall>q l m. q \<noteq> temp \<longrightarrow> fs_nodes F s' q = Some (Socket l m) \<longrightarrow> fs_nodes F s q = Some (Socket l m))"

lemma no_new_socket_trans: "no_new_socket F t s1 s2 \<Longrightarrow> no_new_socket F t s2 s3 \<Longrightarrow> no_new_socket F t s1 s3"
  unfolding no_new_socket_def by blast

lemma fs_MkdirAll:
  assumes "fs_laws F" and "os_MkdirAll F d m s = (e, s')"
  shows "fs_open F s' = fs_open F s" and "no_new_socket F t s s'"
proof -
  from assms have "MkdirAll_law F" by (simp add: fs_laws_def)
  then have "let s' = snd (os_MkdirAll F d m s) in fs_open F s' = fs_open F s
     \<and> (\<forall>q. fs_nodes F s' q = fs_nodes F s q \<or> fs_nodes F s q = None \<and> fs_nodes F s' q = Some Directory)"
    unfolding MkdirAll_law_def by blast
  with assms(2) have laws: "fs_open F s' = fs_open F s"
    "\<And>q. fs_nodes F s' q = fs_nodes F s q \<or> fs_nodes F s q = None \<and> fs_nodes F s' q = Some Directory" by (auto simp: Let_def)
  show "fs_open F s' = fs_open F s" by (rule laws)
  show "no_new_socket F t s s'" unfolding no_new_socket_def
  proof (intro allI impI)
    fix q l m assume "fs_nodes F s' q = Some (Socket l m)"
    with laws(2) [of q] show "fs_nodes F s q = Some (Socket l m)" by auto
  qed
qed

lemma fs_Remove:
  assumes "fs_laws F"
  shows "fs_open F (snd (os_Remove F p s)) = fs_open F s" and "no_new_socket F t s (snd (os_Remove F p s))"
proof -
  obtain e s' where call: "os_Remove F p s = (e, s')" by fastforce
  from assms have "Remove_law F" by (simp add: fs_laws_def)
  with call have "fs_open F s' = fs_open F s" "fs_nodes F s' = (if e = None then (fs_nodes F s)(p := None) else fs_nodes F s)"
    unfolding Remove_law_def by (metis (mono_tags, lifting) case_prod_conv)+
  with call show "fs_open F (snd (os_Remove F p s)) = fs_open F s" "no_new_socket F t s (snd (os_Remove F p s))"
    by (simp_all add: no_new_socket_def)
qed

lemma fs_Chmod:
  assumes "fs_laws F" and "os_Chmod F p m s = (e, s')"
  shows "fs_open F s' = fs_open F s"
    and "fs_nodes F s' = (if e = None then (fs_nodes F s)(p := map_option (set_mode m) (fs_nodes F s p)) else fs_nodes F s)"
proof -
  from assms(1) have "let (e, s') = os_Chmod F p m s in fs_open F s' = fs_open F s
     \<and> fs_nodes F s' = (if e = None then (fs_nodes F s)(p := map_option (set_mode m) (fs_nodes F s p)) else fs_nodes F s)"
    unfolding fs_laws_def Chmod_law_def by blast
  with assms(2) show "fs_open F s' = fs_open F s"
    "fs_nodes F s' = (if e = None then (fs_nodes F s)(p := map_option (set_mode m) (fs_nodes F s p)) else fs_nodes F s)" by simp_all
qed

lemma fs_Rename:
  assumes "fs_laws F" and "is_socket (fs_nodes F s p)" and "os_Rename F p q s = (e, s')"
  shows "fs_open F s' = fs_open F s"
    and "fs_nodes F s' = (if e = None then (fs_nodes F s)(p := None, q := fs_nodes F s p) else fs_nodes F s)"
proof -
  from assms(1,2) have "let (e, s') = os_Rename F p q s in fs_open F s' = fs_open F s
     \<and> fs_nodes F s' = (if e = None then (fs_nodes F s)(p := None, q := fs_nodes F s p) else fs_nodes F s)"
    unfolding fs_laws_def Rename_law_def by blast
  with assms(3) show "fs_open F s' = fs_open F s"
    "fs_nodes F s' = (if e = None then (fs_nodes F s)(p := None, q := fs_nodes F s p) else fs_nodes F s)" by simp_all
qed

lemma fs_Listen_case:
  assumes "fs_laws F"
  shows "case net_Listen F n a s of
       (Inl e, s') \<Rightarrow> fs_open F s' = fs_open F s \<and> fs_nodes F s' = fs_nodes F s
     | (Inr l, s') \<Rightarrow> l \<notin> fs_open F s \<and> fs_open F s' = insert l (fs_open F s)
         \<and> (n = ''unix'' \<longrightarrow> (\<exists>m. fs_nodes F s' = (fs_nodes F s)(a \<mapsto> Socket l m)))"
proof -
  from assms have "Listen_law F" by (simp add: fs_laws_def)
  then show ?thesis unfolding Listen_law_def by (elim allE)
qed

lemma fs_Listen_fails:
  assumes "fs_laws F" and "net_Listen F n a s = (Inl e, s')"
  shows "fs_open F s' = fs_open F s" and "no_new_socket F t s s'"
  using fs_Listen_case [OF assms(1), where n = n and a = a and s = s] assms(2) by (simp_all add: no_new_socket_def)

lemma fs_Listen:
  assumes "fs_laws F" and "net_Listen F n a s = (Inr l, s')"
  shows "l \<notin> fs_open F s" and "fs_open F s' = insert l (fs_open F s)" and "n = ''unix'' \<Longrightarrow> \<exists>m. fs_nodes F s' = (fs_nodes F s)(a \<mapsto> Socket l m)"
  using fs_Listen_case [OF assms(1), where n = n and a = a and s = s] assms(2) by simp_all

lemma fs_Close:
  assumes "fs_laws F"
  shows "fs_open F (listener_Close F l s) = fs_open F s - {l}" and "no_new_socket F t s (listener_Close F l s)"
proof -
  from assms have laws: "Close_law F" by (simp add: fs_laws_def)
  then show "fs_open F (listener_Close F l s) = fs_open F s - {l}" by (simp add: Close_law_def)
  have gone: "fs_nodes F (listener_Close F l s) q = fs_nodes F s q \<or> fs_nodes F (listener_Close F l s) q = None" for q
    using spec [OF conjunct2 [OF spec [OF spec [OF laws [unfolded Close_law_def], of l], of s]], of q] by (elim disjE conjE disjI1 disjI2)
  show "no_new_socket F t s (listener_Close F l s)" unfolding no_new_socket_def
  proof (intro allI impI)
    fix q j m assume "fs_nodes F (listener_Close F l s) q = Some (Socket j m)"
    with gone [of q] show "fs_nodes F s q = Some (Socket j m)" by auto
  qed
qed

text \<open>Giving up after the socket was bound.\<close>

lemma listen_undone:
  assumes F: "fs_laws F" and fresh: "l \<notin> X" and opened: "fs_open F s = insert l X" and old: "no_new_socket F t s0 s"
  shows "fs_open F (snd (os_Remove F t (listener_Close F l s))) = X \<and> no_new_socket F t s0 (snd (os_Remove F t (listener_Close F l s)))"
proof
  show "fs_open F (snd (os_Remove F t (listener_Close F l s))) = X"
    using fresh opened by (simp add: fs_Remove(1) [OF F] fs_Close(1) [OF F])
  show "no_new_socket F t s0 (snd (os_Remove F t (listener_Close F l s)))"
    by (rule no_new_socket_trans [OF no_new_socket_trans [OF old fs_Close(2) [OF F]] fs_Remove(2) [OF F]])
qed

lemma CutPrefix_append: "strings_CutPrefix (p @ s) p = (s, True)"
  by (simp add: strings_CutPrefix_def)

lemma temp_path: "p @ ''.temp'' \<noteq> p"
  by simp

lemma createListener_unix:
  assumes F: "fs_laws F" and run: "createListener F (''unix://'' @ p) s = (r, s')"
  shows "case r of
      Inl err \<Rightarrow> fs_open F s' = fs_open F s \<and> no_new_socket F (p @ ''.temp'') s s'
    | Inr l \<Rightarrow> l \<notin> fs_open F s \<and> fs_open F s' = insert l (fs_open F s)
        \<and> fs_nodes F s' p = Some (Socket l 438) \<and> fs_nodes F s' (p @ ''.temp'') = None"
proof -
  let ?t = "p @ ''.temp''"
  obtain e1 s1 where mk: "os_MkdirAll F (filepath_Dir F p) 511 s = (e1, s1)" by fastforce
  note mk' = fs_MkdirAll [OF F mk]
  let ?s3 = "snd (os_Remove F p (snd (os_Remove F ?t s1)))"
  have s3: "fs_open F ?s3 = fs_open F s" "no_new_socket F ?t s ?s3"
    by (simp add: mk'(1) fs_Remove(1) [OF F])
      (rule no_new_socket_trans [OF no_new_socket_trans [OF mk'(2) fs_Remove(2) [OF F]] fs_Remove(2) [OF F]])
  obtain res s4 where ln: "net_Listen F ''unix'' ?t ?s3 = (res, s4)" by fastforce
  note run' = run [unfolded createListener_def CutPrefix_append]
  show ?thesis
  proof (cases e1)
    case (Some err)
    with run' mk mk' show ?thesis by auto
  next
    case mkdir: None
    show ?thesis
    proof (cases res)
      case (Inl err)
      with run' mk mkdir ln have "r = Inl err" "s' = s4" by (auto simp: Let_def)
      with fs_Listen_fails(1) [OF F ln [unfolded Inl]] no_new_socket_trans [OF s3(2) fs_Listen_fails(2) [OF F ln [unfolded Inl]]] s3(1)
      show ?thesis by simp
    next
      case (Inr l)
      note ln' = fs_Listen [OF F ln [unfolded Inr]]
      obtain m where m: "fs_nodes F s4 = (fs_nodes F ?s3)(?t \<mapsto> Socket l m)" using ln'(3) by blast
      have s4: "no_new_socket F ?t s s4" using s3(2) by (simp add: no_new_socket_def m)
      obtain e5 s5 where ch: "os_Chmod F ?t 438 s4 = (e5, s5)" by fastforce
      note ch' = fs_Chmod [OF F ch]
      have s5: "no_new_socket F ?t s s5" "fs_open F s5 = insert l (fs_open F s)" "l \<notin> fs_open F s"
        using s4 ch' ln'(1,2) s3(1) by (auto simp: no_new_socket_def split: if_splits)
      show ?thesis
      proof (cases e5)
        case (Some err)
        with run' mk mkdir ln Inr ch have "r = Inl err" "s' = snd (os_Remove F ?t (listener_Close F l s5))" by (auto simp: Let_def)
        with listen_undone [OF F s5(3,2,1)] show ?thesis by simp
      next
        case chmod: None
        have node: "fs_nodes F s5 ?t = Some (Socket l 438)" using ch'(2) chmod m by simp
        obtain e6 s6 where rn: "os_Rename F ?t p s5 = (e6, s6)" by fastforce
        have "is_socket (fs_nodes F s5 ?t)" by (simp add: node is_socket_def)
        note rn' = fs_Rename [OF F this rn]
        show ?thesis
        proof (cases e6)
          case (Some err)
          with run' mk mkdir ln Inr ch chmod rn have "r = Inl err" "s' = snd (os_Remove F ?t (listener_Close F l s6))" by (auto simp: Let_def)
          moreover have "fs_open F s6 = insert l (fs_open F s)" "no_new_socket F ?t s s6"
            using rn' Some s5 by (auto simp: no_new_socket_def)
          ultimately show ?thesis using listen_undone [OF F s5(3)] by simp
        next
          case None
          with run' mk mkdir ln Inr ch chmod rn have "r = Inr l" "s' = s6" by (auto simp: Let_def)
          with rn' None node s5 show ?thesis by simp
        qed
      qed
    qed
  qed
qed

section \<open>Properties\<close>

text \<open>
  C34. A Unix listener appears complete or not at all. When \<^verbatim>\<open>createListener\<close> succeeds for \<^verbatim>\<open>unix://p\<close>, exactly one listener
  was opened, its socket is at \<^verbatim>\<open>p\<close> with mode 0666, and nothing is left at the temporary name. When it fails, at whatever
  call, no listener stays open, and no path but the temporary one holds a socket it did not hold before.
\<close>

theorem createListener_all_or_nothing:
  assumes "fs_laws F" and "createListener F (''unix://'' @ p) s = (r, s')"
  shows "case r of
      Inl err \<Rightarrow> fs_open F s' = fs_open F s
        \<and> (\<forall>q l m. q \<noteq> p @ ''.temp'' \<longrightarrow> fs_nodes F s' q = Some (Socket l m) \<longrightarrow> fs_nodes F s q = Some (Socket l m))
    | Inr l \<Rightarrow> l \<notin> fs_open F s \<and> fs_open F s' = insert l (fs_open F s)
        \<and> fs_nodes F s' p = Some (Socket l 438) \<and> fs_nodes F s' (p @ ''.temp'') = None"
  using createListener_unix [OF assms] by (simp add: no_new_socket_def split: sum.splits)

text \<open>A file system of paths, with the listeners that are open; changing permissions fails on request.\<close>

definition map_filesystem :: "go_error option \<Rightarrow> ((string \<rightharpoonup> fs_node) \<times> nat list) filesystem" where
  "map_filesystem chmodError =
     \<lparr>filepath_Dir = (\<lambda>p. ''/run''),
      os_MkdirAll = (\<lambda>d m (ns, ls). case ns d of None \<Rightarrow> (None, (ns(d \<mapsto> Directory), ls)) | Some Directory \<Rightarrow> (None, (ns, ls))
        | Some _ \<Rightarrow> (Some (Opaque ''not a directory''), (ns, ls))),
      os_Remove = (\<lambda>p (ns, ls). case ns p of None \<Rightarrow> (Some (Opaque ''no such file''), (ns, ls)) | Some _ \<Rightarrow> (None, (ns(p := None), ls))),
      os_Chmod = (\<lambda>p m (ns, ls). case chmodError of Some e \<Rightarrow> (Some e, (ns, ls)) | None \<Rightarrow> (None, (ns(p := map_option (set_mode m) (ns p)), ls))),
      os_Rename = (\<lambda>p q (ns, ls). (None, (ns(p := None, q := ns p), ls))),
      net_Listen = (\<lambda>n a (ns, ls). let l = Suc (sum_list ls)
        in if n = ''unix'' then (if ns a = None then (Inr l, (ns(a \<mapsto> Socket l 493), l # ls)) else (Inl (Opaque ''address already in use''), (ns, ls)))
           else (Inr l, (ns, l # ls))),
      listener_Close = (\<lambda>l (ns, ls). (ns, filter (\<lambda>x. x \<noteq> l) ls)),
      fs_nodes = fst, fs_open = (\<lambda>s. set (snd s))\<rparr>"

lemma map_filesystem_laws: "fs_laws (map_filesystem ce)"
proof -
  have "x < Suc (sum_list ls)" if "x \<in> set ls" for x and ls :: "nat list"
    using that by (simp add: less_Suc_eq_le member_le_sum_list)
  then have fresh: "Suc (sum_list ls) \<notin> set ls" for ls :: "nat list" by blast
  have "MkdirAll_law (map_filesystem ce)"
    by (auto simp: MkdirAll_law_def map_filesystem_def Let_def split: option.splits fs_node.splits)
  moreover have "Remove_law (map_filesystem ce)" by (auto simp: Remove_law_def map_filesystem_def split: option.splits)
  moreover have "Chmod_law (map_filesystem ce)" by (auto simp: Chmod_law_def map_filesystem_def split: option.splits)
  moreover have "Rename_law (map_filesystem ce)" by (auto simp: Rename_law_def map_filesystem_def)
  moreover have "Listen_law (map_filesystem ce)"
    using fresh by (auto simp: Listen_law_def map_filesystem_def Let_def fun_eq_iff)
  moreover have "Close_law (map_filesystem ce)" by (auto simp: Close_law_def map_filesystem_def)
  ultimately show ?thesis by (simp add: fs_laws_def)
qed

definition stale_files :: "(string \<rightharpoonup> fs_node) \<times> nat list" where
  "stale_files = ([''/run'' \<mapsto> Directory, ''/run/a'' \<mapsto> Socket 7 438, ''/run/a.temp'' \<mapsto> Socket 3 493], [])"

theorem createListener_all_or_nothing_witness:
  "(\<exists>l s. createListener (map_filesystem None) ''unix:///run/a'' stale_files = (Inr l, s)
      \<and> fst s ''/run/a'' = Some (Socket l 438) \<and> fst s ''/run/a.temp'' = None)
    \<and> (\<exists>e s. createListener (map_filesystem (Some (Opaque ''not permitted''))) ''unix:///run/a'' stale_files = (Inl e, s) \<and> snd s = [])"
proof -
  let ?F = "map_filesystem None" and ?G = "map_filesystem (Some (Opaque ''not permitted''))"
  have views: "fs_nodes (map_filesystem x) = fst" "fs_open (map_filesystem x) = (\<lambda>s. set (snd s))" for x
    by (simp_all add: map_filesystem_def)
  obtain l s where ok: "createListener ?F ''unix:///run/a'' stale_files = (Inr l, s)"
    by (simp add: createListener_def map_filesystem_def strings_CutPrefix_def stale_files_def)
  obtain e s' where bad: "createListener ?G ''unix:///run/a'' stale_files = (Inl e, s')"
    by (simp add: createListener_def map_filesystem_def strings_CutPrefix_def stale_files_def)
  have p: "''unix:///run/a'' = ''unix://'' @ ''/run/a''" by simp
  from createListener_all_or_nothing [OF map_filesystem_laws ok [unfolded p]] createListener_all_or_nothing [OF map_filesystem_laws bad [unfolded p]] ok bad
  show ?thesis by (auto simp: views stale_files_def)
qed

end
