(* ===== verification/Session_Changes.thy ===== *)
theory Session_Changes
  imports Session Login_Sessions
begin

text \<open>
  What a request may do to the device sessions. \<open>session_change\<close> is the relation every handler's
  effect stays in: a device is removed, or moves on to a later generation under the same
  secret, or is new and has one of the given secrets. The lemmas show it of each handler of
  \<^verbatim>\<open>handlers/session\<close>, \<^verbatim>\<open>handlers/refresh\<close> and \<^verbatim>\<open>handlers/login\<close>, over any store that keeps the contract
  \<open>account_users\<close>.
\<close>

section \<open>The relation\<close>

definition session_change ::
  "('d \<Rightarrow> string \<rightharpoonup> string \<times> int) \<Rightarrow> ('d \<Rightarrow> string \<Rightarrow> bool) \<Rightarrow> ('d \<Rightarrow> bool) \<Rightarrow> string set \<Rightarrow> 'd \<Rightarrow> 'd \<Rightarrow> bool" where
  "session_change dev named ok secs d d' \<longleftrightarrow> ok d' \<and> named d' = named d
     \<and> (\<forall>k s g'. dev d' k = Some (s, g') \<longrightarrow> s \<in> secs \<or> (\<exists>g. dev d k = Some (s, g) \<and> g \<le> g'))"

lemma session_change_same: "ok d' \<Longrightarrow> dev d' = dev d \<Longrightarrow> named d' = named d \<Longrightarrow> session_change dev named ok S d d'"
  by (simp add: session_change_def)

lemma session_change_trans [trans]:
  assumes "session_change dev named ok S d d1" and "session_change dev named ok S d1 d2"
  shows "session_change dev named ok S d d2"
proof -
  have "s \<in> S \<or> (\<exists>g. dev d k = Some (s, g) \<and> g \<le> g2)" if "dev d2 k = Some (s, g2)" for k s g2
  proof (cases "s \<in> S")
    case False
    with assms(2) that obtain g1 where "dev d1 k = Some (s, g1)" "g1 \<le> g2" unfolding session_change_def by blast
    with assms(1) False show ?thesis unfolding session_change_def by (meson order.trans)
  qed simp
  with assms show ?thesis by (simp add: session_change_def)
qed

lemma session_changeD:
  assumes "session_change dev named ok S d d'"
  shows "ok d'" and "named d' = named d"
  using assms by (simp_all add: session_change_def)

text \<open>The devices a token names are spelled as the store spells them.\<close>

definition spelled :: "jwt_lib \<Rightarrow> (string \<Rightarrow> bool) \<Rightarrow> string \<Rightarrow> bool" where
  "spelled L nm t \<longleftrightarrow> (\<forall>c key ty k g. carries L t c key \<longrightarrow> token_identity c = Some (ty, k, g) \<longrightarrow> nm k)"

lemma verifyToken_revoked:
  assumes "jwt_laws L" and "verifyToken L m now s target d = ((c, Inl e), d')" and "errors_Is e ErrTokenRevoked"
    and "zero_like target = target"
  shows "\<exists>key. carries L s c key \<and> zero_like c = target"
proof -
  from assms(2,3) obtain c0 u ty k g key g' v where parse: "lib_ParseUnverified L s target = (c0, Inr u)"
    and ident: "token_identity c0 = Some (ty, k, g)" and htype: "hasTokenType L u ty"
    and ver: "lib_ParseWithClaims L s c0 (device_key key) (parserOptions m) now = (c, Inr v)"
    by (auto simp: verifyToken_def split: prod.splits sum.splits option.splits if_splits)
  from lib_verified [OF assms(1) parse ver] have "c = c0" "lib_signature_ok L s key" "\<exists>h. Method u = SigningMethodHMAC h"
    by (auto simp: device_key_def split: signing_method.splits)
  moreover from lib_parsed [OF assms(1) parse] have "zero_like c0 = target" by (simp add: assms(4))
  ultimately show ?thesis using parse ident htype by (auto simp: carries_def)
qed

text \<open>Of every token that verifies or is revoked, the claims name a device the token carries.\<close>

lemma refresh_device_spelled:
  assumes L: "jwt_laws L" and t: "spelled L nm t"
    and v: "verifyToken L m now t (RefreshClaimsOf zero_refresh) d = ((c, r), d')"
    and ok: "case r of Inl e \<Rightarrow> errors_Is e ErrTokenRevoked | Inr _ \<Rightarrow> True"
  shows "nm (rf_DeviceID (the_refresh c))"
proof -
  have z: "zero_like (RefreshClaimsOf zero_refresh) = RefreshClaimsOf zero_refresh" by simp
  have "\<exists>key. carries L t c key \<and> zero_like c = RefreshClaimsOf zero_refresh"
  proof (cases r)
    case (Inl e)
    with v ok show ?thesis using verifyToken_revoked [OF L _ _ z, of m now t d c e d'] by simp
  next
    case (Inr key)
    with v show ?thesis using verifyToken_sound [OF L _ z, of m now t d c key d'] by auto
  qed
  with zero_like_cases(2) obtain key x where "carries L t (RefreshClaimsOf x) key" "c = RefreshClaimsOf x" by blast
  with t show ?thesis by (auto simp: spelled_def)
qed

lemma VerifyRefresh_shape:
  assumes "VerifyRefresh L m now t d = ((cl, e), d1)"
  obtains c r where "verifyToken L m now t (RefreshClaimsOf zero_refresh) d = ((c, r), d1)" and "cl = the_refresh c"
    and "e = (case r of Inl err \<Rightarrow> Some err | Inr _ \<Rightarrow> None)"
  using assms by (auto simp: VerifyRefresh_def split: prod.splits sum.splits)

lemma VerifyAccess_shape:
  assumes "VerifyAccess L m now t d = (x, d1)"
  obtains y where "verifyToken L m now t (AccessClaimsOf zero_access) d = (y, d1)"
  using assms by (auto simp: VerifyAccess_def split: prod.splits sum.splits)

section \<open>The methods of the store\<close>

context account_users begin

lemma same_change: "store_invar d' \<and> dev d' = dev d \<and> named d' = named d \<and> P \<Longrightarrow> session_change dev named store_invar S d d'"
  by (simp add: session_change_def)

lemma verify_change:
  assumes "manager_db m = DB" and "store_invar d" and "verifyToken L m now s target d = (x, d')"
  shows "session_change dev named store_invar S d d'"
  using verify_keeps [OF assms] by (simp add: session_change_def)

lemma access_change:
  assumes "manager_db m = DB" and "store_invar d" and "GenerateAccess L m clk s u d = (x, d')"
  shows "session_change dev named store_invar S d d'"
proof -
  from assms(3) obtain y where "verifyToken L m (clk 0) s (RefreshClaimsOf zero_refresh) d = (y, d')"
    by (auto simp: GenerateAccess_def Let_def split: prod.splits sum.splits)
  with assms(1,2) show ?thesis by (rule verify_change)
qed

lemma delete_change:
  assumes "store_invar d" and "named d k" and "DeleteDevice ODB em k d = (z, d')"
  shows "session_change dev named store_invar S d d'"
proof -
  have "dev d' \<in> {dev d, (dev d)(k := None)}"
    using del_done [OF assms(1,2)] del_failed [OF assms(1,2)] assms(3) by (cases z) (auto split: if_splits)
  with del_state [OF assms] show ?thesis by (auto simp: session_change_def split: if_splits)
qed

lemma delete_all_change:
  assumes "store_invar d" and "DeleteAllDevices ODB em d = (z, d')"
  shows "session_change dev named store_invar S d d'"
  using all_state [OF assms] all_done [OF assms(1)] all_failed [OF assms(1)] assms(2)
  by (cases z) (auto simp: session_change_def split: if_splits)

lemma update_change:
  assumes "store_invar d" and "named d k" and "UpdateDeviceSecret DB k d = (y, d')"
  shows "session_change dev named store_invar S d d'"
proof -
  have "dev d' = dev d \<or> (\<exists>s g. dev d k = Some (s, g) \<and> dev d' = (dev d)(k \<mapsto> (s, g + 1)))"
    using upd_done [OF assms(1,2)] upd_failed [OF assms(1,2)] assms(3) by (cases y) auto
  with upd_state [OF assms] show ?thesis by (auto simp: session_change_def split: if_splits)
qed

lemma save_change:
  assumes "store_invar d" and "sec \<noteq> ''''" and "SaveDeviceSecret ODB em name sec d = (v, d')" and "sec \<in> S"
  shows "session_change dev named store_invar S d d'"
  using save_state [OF assms(1-3)] save_done [OF assms(1,2)] save_failed [OF assms(1,2)] assms(3,4)
  by (cases v) (auto simp: session_change_def split: if_splits)

section \<open>The handlers\<close>

lemma verify_handler_change:
  assumes "manager_db (session_jwtManager h) = DB" and "store_invar d" and "session_Verify L h clk r w d = (w', d')"
  shows "session_change dev named store_invar S d d'"
proof (cases "bearerToken (lib_unicode L) r")
  case None
  with assms show ?thesis by (simp add: session_Verify_def session_change_same)
next
  case (Some t)
  obtain x d1 where v: "VerifyAccess L (session_jwtManager h) (clk 0) t d = (x, d1)" by fastforce
  with Some assms(3) have "d' = d1" by (auto simp: session_Verify_def Let_def split: prod.splits option.splits sum.splits)
  with v verify_change [OF assms(1,2)] show ?thesis by (auto elim: VerifyAccess_shape)
qed

lemma logout_change:
  assumes L: "jwt_laws L" and h: "session_db h = ODB" "manager_db (session_jwtManager h) = DB" and d: "store_invar d"
    and t: "\<And>t. FromRequest r = Inr t \<Longrightarrow> spelled L (named d) t" and run: "session_Logout L h clk r w d = (w', d')"
  shows "session_change dev named store_invar S d d'"
proof (cases "FromRequest r")
  case (Inl e)
  with run d show ?thesis by (simp add: session_Logout_def session_change_same)
next
  case (Inr s)
  obtain cl e d1 where v: "VerifyRefresh L (session_jwtManager h) (clk 0) s d = ((cl, e), d1)" by (metis prod.collapse)
  then obtain c r1 where vt: "verifyToken L (session_jwtManager h) (clk 0) s (RefreshClaimsOf zero_refresh) d = ((c, r1), d1)"
    and cl: "cl = the_refresh c" "e = (case r1 of Inl err \<Rightarrow> Some err | Inr _ \<Rightarrow> None)" by (rule VerifyRefresh_shape)
  note c1 = verify_change [OF h(2) d vt, of S]
  note d1 = session_changeD [OF c1]
  show ?thesis
  proof (cases e)
    case None
    with cl refresh_device_spelled [OF L t [OF Inr] vt] have nm: "named d1 (rf_DeviceID cl)"
      using d1(2) by (auto split: sum.splits)
    obtain z where "DeleteDevice ODB (Subject (rf_Registered cl)) (rf_DeviceID cl) d1 = (z, d')"
      using run v Inr None h(1) by (auto simp: session_Logout_def) (metis prod.collapse)
    with c1 delete_change [OF d1(1) nm] show ?thesis by (blast intro: session_change_trans)
  next
    case (Some err)
    with run v Inr have "d' = d1" by (simp add: session_Logout_def)
    with c1 show ?thesis by simp
  qed
qed

lemma delete_me_change:
  assumes h: "session_db h = ODB" "session_usersDB h = UDB" "manager_db (session_jwtManager h) = DB" and d: "store_invar d"
    and run: "session_DeleteMe L h clk r w d = (w', d')"
  shows "session_change dev named store_invar S d d'"
proof (cases "bearerToken (lib_unicode L) r")
  case None
  with run d show ?thesis by (simp add: session_DeleteMe_def session_change_same)
next
  case (Some t)
  obtain cl e d1 where v: "VerifyAccess L (session_jwtManager h) (clk 0) t d = ((cl, e), d1)" by (metis prod.collapse)
  then have c1: "session_change dev named store_invar S d d1" using verify_change [OF h(3) d] by (auto elim: VerifyAccess_shape)
  show ?thesis
  proof (cases e)
    case (Some err)
    with run v \<open>bearerToken (lib_unicode L) r = Some t\<close> have "d' = d1" by (simp add: session_DeleteMe_def)
    with c1 show ?thesis by simp
  next
    case None
    obtain z d2 where all: "DeleteAllDevices ODB (ac_UserEmail cl) d1 = (z, d2)" by fastforce
    note d1 = session_changeD [OF c1]
    note c2 = delete_all_change [OF d1(1) all, of S]
    note d2 = session_changeD [OF c2]
    show ?thesis
    proof (cases z)
      case (Some err)
      with run v None \<open>bearerToken (lib_unicode L) r = Some t\<close> all h have "d' = d2" by (simp add: session_DeleteMe_def Let_def)
      with c1 c2 show ?thesis by (blast intro: session_change_trans)
    next
      case gone: None
      obtain y where del: "DeleteUser UDB (ac_UserEmail cl) d2 = (y, d')"
        using run v None \<open>bearerToken (lib_unicode L) r = Some t\<close> all h gone
        by (auto simp: session_DeleteMe_def Let_def split: prod.splits option.splits)
      have "\<not> owner d2 (ac_UserEmail cl) k" for k using all_done [OF d1(1) all [unfolded gone]] by blast
      from same_change [OF delete_account [OF d2(1) this del]] c1 c2 show ?thesis by (blast intro: session_change_trans)
    qed
  qed
qed

lemma reuse_change:
  assumes "refresh_db h = ODB" and "store_invar d" and "errors_Is err ErrTokenRevoked \<Longrightarrow> named d (rf_DeviceID cl)"
  shows "session_change dev named store_invar S d (deleteDeviceOnReuse h cl err d)"
  using assms delete_change [OF assms(2) _ surjective_pairing, of "rf_DeviceID cl"]
  by (simp add: deleteDeviceOnReuse_def session_change_same)

text \<open>The claims that \<^verbatim>\<open>RotateRefresh\<close> returns beside a revocation error name the presented token's device.\<close>

lemma rotation_change:
  assumes L: "jwt_laws L" and m: "manager_db m = DB" and d: "store_invar d" and t: "spelled L (named d) t"
    and run: "RotateRefresh L m clk t d = ((x, rc), d')"
  shows "session_change dev named store_invar S d d'
    \<and> (case x of Inl e \<Rightarrow> errors_Is e ErrTokenRevoked \<longrightarrow> named d' (rf_DeviceID rc) | Inr _ \<Rightarrow> True)"
proof -
  obtain c r d1 where vt: "verifyToken L m (clk 0) t (RefreshClaimsOf zero_refresh) d = ((c, r), d1)" by (metis prod.collapse)
  note c1 = verify_change [OF m d vt, of S]
  note d1 = session_changeD [OF c1]
  note nm = refresh_device_spelled [OF L t vt]
  show ?thesis
  proof (cases r)
    case (Inl e)
    with run vt have "x = Inl e" "rc = the_refresh c" "d' = d1" by (simp_all add: RotateRefresh_def)
    with c1 d1 nm Inl show ?thesis by simp
  next
    case (Inr key)
    obtain y d2 where upd: "UpdateDeviceSecret DB (rf_DeviceID (the_refresh c)) d1 = (y, d2)" by fastforce
    have k: "named d1 (rf_DeviceID (the_refresh c))" using nm Inr d1(2) by simp
    have "rf_DeviceID rc = rf_DeviceID (the_refresh c)" "d' = d2"
      using run vt upd Inr m by (auto simp: RotateRefresh_def Let_def newRefreshClaims_def split: sum.splits)
    moreover note c2 = update_change [OF d1(1) k upd, of S]
    moreover have "named d2 (rf_DeviceID (the_refresh c))" using session_changeD(2) [OF c2] k by simp
    ultimately show ?thesis using session_change_trans [OF c1 c2] by (simp split: sum.splits)
  qed
qed

lemma rotate_change:
  assumes L: "jwt_laws L" and h: "manager_db (refresh_jwtManager h) = DB" "refresh_db h = ODB" "refresh_users h = UDB"
    and d: "store_invar d" and t: "spelled L (named d) t" and run: "refresh_rotate L h clk t d = (x, d')"
  shows "session_change dev named store_invar S d d'"
proof -
  let ?m = "refresh_jwtManager h"
  obtain cl e d1 where v: "VerifyRefresh L ?m (clk 0) t d = ((cl, e), d1)" by (metis prod.collapse)
  then obtain c r where vt: "verifyToken L ?m (clk 0) t (RefreshClaimsOf zero_refresh) d = ((c, r), d1)"
    and cl: "cl = the_refresh c" "e = (case r of Inl err \<Rightarrow> Some err | Inr _ \<Rightarrow> None)" by (rule VerifyRefresh_shape)
  note c1 = verify_change [OF h(1) d vt, of S]
  note d1 = session_changeD [OF c1]
  show ?thesis
  proof (cases e)
    case (Some err)
    with cl refresh_device_spelled [OF L t vt] d1(2) have "errors_Is err ErrTokenRevoked \<Longrightarrow> named d1 (rf_DeviceID cl)"
      by (auto split: sum.splits)
    note c2 = reuse_change [OF h(2) d1(1) this, of err S]
    have "d' = deleteDeviceOnReuse h cl err d1" using run v Some by (simp add: refresh_rotate_def)
    with session_change_trans [OF c1 c2] show ?thesis by simp
  next
    case None
    obtain u d2 where name: "GetUsername UDB (Subject (rf_Registered cl)) d1 = (u, d2)" by fastforce
    note c2 = session_change_trans [OF c1 same_change [OF name_state [OF d1(1) name], of S]]
    note d2 = session_changeD [OF c2]
    show ?thesis
    proof (cases u)
      case (Inl err)
      with run v None name h have "d' = d2" by (simp add: refresh_rotate_def split: if_splits)
      with c2 show ?thesis by simp
    next
      case (Inr uname)
      obtain y rc d3 where rot: "RotateRefresh L ?m (later 1 clk) t d2 = ((y, rc), d3)" by (metis prod.collapse)
      have "spelled L (named d2) t" using t d2(2) by simp
      note r3 = rotation_change [OF L h(1) d2(1) this rot, of S]
      note c3 = session_change_trans [OF c2 conjunct1 [OF r3]]
      note d3 = session_changeD [OF c3]
      show ?thesis
      proof (cases y)
        case err: (Inl err)
        have "errors_Is err ErrTokenRevoked \<Longrightarrow> named d3 (rf_DeviceID rc)" using r3 err by simp
        note c4 = session_change_trans [OF c3 reuse_change [OF h(2) d3(1) this, of err S]]
        have "d' = d3 \<or> d' = deleteDeviceOnReuse h rc err d3"
          using run v None name Inr rot err h by (auto simp: refresh_rotate_def split: if_splits)
        with c3 c4 show ?thesis by auto
      next
        case tok: (Inr tok)
        obtain z d4 where acc: "GenerateAccess L ?m (later 4 clk) tok uname d3 = (z, d4)" by fastforce
        have "d' = d4" using run v None name Inr rot tok h acc by (auto simp: refresh_rotate_def split: sum.splits)
        with session_change_trans [OF c3 access_change [OF h(1) d3(1) acc]] show ?thesis by simp
      qed
    qed
  qed
qed

lemma refresh_access_change:
  assumes L: "jwt_laws L" and h: "manager_db (refresh_jwtManager h) = DB" "refresh_db h = ODB" "refresh_users h = UDB"
    and d: "store_invar d" and t: "\<And>t. FromRequest r = Inr t \<Longrightarrow> spelled L (named d) t"
    and run: "refresh_RefreshAccess L h clk r w d = (w', d')"
  shows "session_change dev named store_invar S d d'"
proof (cases "FromRequest r")
  case (Inl e)
  with run d show ?thesis by (simp add: refresh_RefreshAccess_def session_change_same)
next
  case (Inr s)
  let ?m = "refresh_jwtManager h"
  obtain cl e d1 where v: "VerifyRefresh L ?m (clk 0) s d = ((cl, e), d1)" by (metis prod.collapse)
  then obtain c r1 where vt: "verifyToken L ?m (clk 0) s (RefreshClaimsOf zero_refresh) d = ((c, r1), d1)"
    and cl: "cl = the_refresh c" "e = (case r1 of Inl err \<Rightarrow> Some err | Inr _ \<Rightarrow> None)" by (rule VerifyRefresh_shape)
  note c1 = verify_change [OF h(1) d vt, of S]
  note d1 = session_changeD [OF c1]
  show ?thesis
  proof (cases e)
    case (Some err)
    with cl refresh_device_spelled [OF L t [OF Inr] vt] d1(2) have "errors_Is err ErrTokenRevoked \<Longrightarrow> named d1 (rf_DeviceID cl)"
      by (auto split: sum.splits)
    note c2 = reuse_change [OF h(2) d1(1) this, of err S]
    have "d' = deleteDeviceOnReuse h cl err d1" using run v Some Inr by (simp add: refresh_RefreshAccess_def)
    with session_change_trans [OF c1 c2] show ?thesis by simp
  next
    case None
    obtain u d2 where name: "GetUsername UDB (Subject (rf_Registered cl)) d1 = (u, d2)" by fastforce
    note c2 = session_change_trans [OF c1 same_change [OF name_state [OF d1(1) name], of S]]
    note d2 = session_changeD [OF c2]
    show ?thesis
    proof (cases u)
      case err: (Inl err)
      with run v None name h Inr have "d' = d2" by (simp add: refresh_RefreshAccess_def split: if_splits)
      with c2 show ?thesis by simp
    next
      case un: (Inr uname)
      obtain z d3 where acc: "GenerateAccess L ?m (later 1 clk) s uname d2 = (z, d3)" by fastforce
      have "d' = d3" using run v None name Inr un h acc by (auto simp: refresh_RefreshAccess_def split: sum.splits if_splits)
      with session_change_trans [OF c2 access_change [OF h(1) d2(1) acc]] show ?thesis by simp
    qed
  qed
qed

lemma login_session_change:
  assumes m: "manager_db m = DB" and d: "store_invar d" and b: "b \<noteq> ''''" "generateDeviceSecret b \<in> S"
    and run: "login_session L ODB m clk b em u name d = (x, d')"
  shows "session_change dev named store_invar S d d'"
proof -
  let ?sec = "generateDeviceSecret b"
  have sec: "?sec \<noteq> ''''" by (rule hex_nonempty [OF b(1)])
  obtain v d1 where save: "SaveDeviceSecret ODB em name ?sec d = (v, d1)" by fastforce
  note c1 = save_change [OF d sec save b(2)]
  note d1 = session_changeD [OF c1]
  show ?thesis
  proof (cases v)
    case (Inl e)
    with run save have "d' = d1" by (auto simp: login_session_def Let_def split: if_splits)
    with c1 show ?thesis by simp
  next
    case (Inr k)
    have k: "named d1 k" using save_done [OF d sec save [unfolded Inr]] d1(2) by simp
    show ?thesis
    proof (cases "GenerateRefresh L m clk em k ?sec initialDeviceGeneration")
      case (Inl e)
      with run save Inr obtain z where "DeleteDevice ODB em k d1 = (z, d')"
        by (auto simp: login_session_def Let_def split: prod.splits)
      from session_change_trans [OF c1 delete_change [OF d1(1) k this]] show ?thesis .
    next
      case tok: (Inr tok)
      obtain y d2 where acc: "GenerateAccess L m (later 2 clk) tok u d1 = (y, d2)" by fastforce
      note c2 = session_change_trans [OF c1 access_change [OF m d1(1) acc]]
      note d2 = session_changeD [OF c2]
      have k2: "named d2 k" using k d1(2) d2(2) by simp
      have "d' = d2 \<or> (\<exists>z. DeleteDevice ODB em k d2 = (z, d'))"
        using run save Inr tok acc by (auto simp: login_session_def Let_def split: prod.splits sum.splits)
      with c2 delete_change [OF d2(1) k2] show ?thesis by (auto intro: session_change_trans)
    qed
  qed
qed

end

text \<open>The flight group runs the function any number of times, and between them the locker may let others work.\<close>

lemma flight_Do_keeps:
  assumes run: "flight_Do T sum256 lk key opts fn g w = (res, g', w')" and P: "P w"
    and fn: "\<And>w x w'. P w \<Longrightarrow> fn w = (x, w') \<Longrightarrow> P w'"
    and lk: "\<And>k r w e r' w'. P w \<Longrightarrow> WithContext lk k (r, w) = (e, r', w') \<Longrightarrow> P w'"
  shows "P w'"
proof -
  have doL: "P w1" if "doLocal T key fn m w = (x, m1, w1)" for m x m1 w1
    using that P fn by (auto simp: doLocal_def split: prod.splits option.splits)
  have dist: "P w1" if dd: "doDistributed T sum256 lk key only fn r w = (x, r1, w1)" for only r x r1 w1
  proof -
    obtain l r2 where load: "loadResult T (hashKey sum256 key) r = (l, r2)" by fastforce
    obtain e r3 w2 where lock: "WithContext lk (hashKey sum256 key) (r2, w) = (e, r3, w2)" by (metis prod.collapse)
    have w2: "P w2" by (rule lk [OF P lock])
    have "w1 = w \<or> w1 = w2 \<or> (\<exists>y. fn w = (y, w1)) \<or> (\<exists>y. fn w2 = (y, w1))"
      using dd load lock
      by (auto simp: doDistributed_def Let_def split: prod.splits sum.splits option.splits if_splits)
    with P w2 fn show ?thesis by blast
  qed
  show ?thesis
  proof (cases "group g key")
    case (Some v)
    with run P show ?thesis by (cases v) (auto simp: flight_Do_def Let_def)
  next
    case None
    show ?thesis
    proof (cases "redis g")
      case None
      with run \<open>group g key = None\<close> have "(\<exists>x. fn w = (x, w')) \<or> (\<exists>x m1. doLocal T key fn (the (memory g)) w = (x, m1, w'))"
        by (auto simp: flight_Do_def Let_def split: prod.splits if_splits)
      with fn [OF P] doL show ?thesis by blast
    next
      case (Some r)
      with run \<open>group g key = None\<close> have "\<exists>x r1. doDistributed T sum256 lk key (inFlightOnly (call_config opts)) fn r w = (x, r1, w')"
        by (auto simp: flight_Do_def Let_def split: prod.splits)
      with dist show ?thesis by blast
    qed
  qed
qed

text \<open>What an exchange does to the database: nothing, or it looks the user up, and perhaps opens a session.\<close>

lemma exchange_database:
  assumes run: "exchange L h clk b code state device hv w = (x, w')"
  shows "lw_db w' = lw_db w
    \<or> (\<exists>user x. login_username (login_users h) (login_options h) user (lw_db w) = (x, lw_db w'))
    \<or> (\<exists>db user uname d1 x. login_db h = Some db \<and> login_username (login_users h) (login_options h) user (lw_db w) = (Inr uname, d1)
         \<and> login_session L db (login_jwtManager h) clk b (Userinfo_Email user) uname device d1 = (x, lw_db w'))"
proof -
  obtain res err where x: "x = (res, err)" by fastforce
  note run' = run [unfolded x]
  show ?thesis
  proof (cases "Success res")
    case True
    with run' show ?thesis by (rule exchange_success) (auto split: option.splits)
  next
    case False
    show ?thesis
    proof (cases "login_db h")
      case (Some db)
      from exchange_failed [OF run' False Some] Some show ?thesis by blast
    next
      case None
      obtain y s1 where take: "state_Take (login_stateCache h) state (lw_states w) = (y, s1)" by fastforce
      have "lw_db w' = lw_db w"
        using run None take by (cases y) (auto simp: exchange_def Let_def split: prod.splits sum.splits if_splits)
      then show ?thesis by simp
    qed
  qed
qed

context account_users begin

lemma refresh_change:
  assumes L: "jwt_laws L" and h: "manager_db (refresh_jwtManager h) = DB" "refresh_db h = ODB" "refresh_users h = UDB"
    and d: "store_invar d" and t: "\<And>t. FromRequest r = Inr t \<Longrightarrow> spelled L (named d) t"
    and lk: "\<And>k q d e q' d'. store_invar d \<Longrightarrow> WithContext lk k (q, d) = (e, q', d') \<Longrightarrow> session_change dev named store_invar S d d'"
    and run: "refresh_Refresh L T sum256 lk h clk r w g d = (w', g', d')"
  shows "session_change dev named store_invar S d d'"
proof (cases "FromRequest r")
  case (Inl e)
  with run d show ?thesis by (simp add: refresh_Refresh_def session_change_same)
next
  case (Inr s)
  obtain res g1 d1 where fl: "flight_Do T sum256 lk (refresh_flightKeyPrefix @ s) [] (refresh_rotate L h clk s) g d = (res, g1, d1)"
    by (metis prod.collapse)
  have "d' = d1"
    using run Inr fl by (cases res) (auto simp: refresh_Refresh_def Let_def split: option.splits prod.splits)
  moreover have "session_change dev named store_invar S d d1"
    using fl
  proof (rule flight_Do_keeps [where P = "session_change dev named store_invar S d"])
    show "session_change dev named store_invar S d d" using d by (simp add: session_change_same)
    fix da x db assume c: "session_change dev named store_invar S d da" and fn: "refresh_rotate L h clk s da = (x, db)"
    note da = session_changeD [OF c]
    with t [OF Inr] have "spelled L (named da) s" by simp
    from session_change_trans [OF c rotate_change [OF L h da(1) this fn]] show "session_change dev named store_invar S d db" .
  next
    fix k q da e q' db assume c: "session_change dev named store_invar S d da" and "WithContext lk k (q, da) = (e, q', db)"
    from session_change_trans [OF c lk [OF session_changeD(1) [OF c] this(2)]] show "session_change dev named store_invar S d db" .
  qed
  ultimately show ?thesis by simp
qed

lemma exchange_change:
  assumes h: "login_db h = Some ODB" "login_users h = UDB" "manager_db (login_jwtManager h) = DB"
    and d: "store_invar (lw_db w)" and b: "b \<noteq> ''''" "generateDeviceSecret b \<in> S"
    and run: "exchange L h clk b code state device hv w = (x, w')"
  shows "session_change dev named store_invar S (lw_db w) (lw_db w')"
  using exchange_database [OF run] unfolding h(2)
proof (elim disjE exE conjE)
  fix db user uname d1 x
  assume db: "login_db h = Some db" and name: "login_username UDB (login_options h) user (lw_db w) = (Inr uname, d1)"
    and sess: "login_session L db (login_jwtManager h) clk b (Userinfo_Email user) uname device d1 = (x, lw_db w')"
  note c1 = same_change [OF username_state [OF d name], of S]
  from db h(1) sess have "login_session L ODB (login_jwtManager h) clk b (Userinfo_Email user) uname device d1 = (x, lw_db w')" by simp
  from session_change_trans [OF c1 login_session_change [OF h(3) session_changeD(1) [OF c1] b this]] show ?thesis .
next
  assume "lw_db w' = lw_db w"
  with d show ?thesis by (simp add: session_change_same)
next
  fix user x assume "login_username UDB (login_options h) user (lw_db w) = (x, lw_db w')"
  from same_change [OF username_state [OF d this]] show ?thesis .
qed

lemma callback_change:
  assumes h: "login_db h = Some ODB" "login_users h = UDB" "manager_db (login_jwtManager h) = DB"
    and d: "store_invar (lw_db s)" and b: "b \<noteq> ''''" "generateDeviceSecret b \<in> S"
    and lk: "\<And>k q w e q' w'. store_invar (lw_db w) \<Longrightarrow> WithContext lk k (q, w) = (e, q', w') \<Longrightarrow>
      session_change dev named store_invar S (lw_db w) (lw_db w')"
    and run: "login_Callback L T sum256 lk h clk b r w g s = (w', g', s')"
  shows "session_change dev named store_invar S (lw_db s) (lw_db s')"
proof -
  let ?P = "\<lambda>w. session_change dev named store_invar S (lw_db s) (lw_db w)"
  have refl: "?P s" using d by (simp add: session_change_same)
  have "?P s1" if "handleExchange L T sum256 lk h clk b code state device hv g s = (res, g1, s1)" for code state device hv res g1 s1
    using that [unfolded handleExchange_def Let_def]
  proof (rule flight_Do_keeps [where P = ?P])
    fix wa x wb assume c: "?P wa" and fn: "exchange L h clk b code state device hv wa = (x, wb)"
    from session_change_trans [OF c exchange_change [OF h session_changeD(1) [OF c] b fn]] show "?P wb" .
  next
    fix k q wa e q' wb assume c: "?P wa" and "WithContext lk k (q, wa) = (e, q', wb)"
    from session_change_trans [OF c lk [OF session_changeD(1) [OF c] this(2)]] show "?P wb" .
  qed (rule refl)
  then show ?thesis using run refl
    by (auto simp: login_Callback_def Let_def split: prod.splits option.splits if_splits)
qed

end

section \<open>Tokens that are refused\<close>

text \<open>
  Whatever claims the token carries and under whatever key, the device they name is gone, has
  another secret, or has moved on to a later generation.
\<close>

definition refused :: "jwt_lib \<Rightarrow> (string \<rightharpoonup> string \<times> int) \<Rightarrow> string \<Rightarrow> bool" where
  "refused L dv t \<longleftrightarrow> (\<forall>c key ty k g g'. carries L t c key \<longrightarrow> token_identity c = Some (ty, k, g) \<longrightarrow> dv k = Some (key, g') \<longrightarrow> g < g')"

lemma refused_change:
  assumes "session_change dev named ok S d d'" and "refused L (dev d) t" and "\<And>sec c. sec \<in> S \<Longrightarrow> \<not> carries L t c sec"
  shows "refused L (dev d') t"
  unfolding refused_def
proof (intro allI impI)
  fix c key ty k g g'
  assume c: "carries L t c key" and i: "token_identity c = Some (ty, k, g)" and dv: "dev d' k = Some (key, g')"
  from assms(3) c have "key \<notin> S" by blast
  with assms(1) dv obtain g0 where "dev d k = Some (key, g0)" "g0 \<le> g'" unfolding session_change_def by blast
  moreover from this(1) assms(2) c i have "g < g0" unfolding refused_def by blast
  ultimately show "g < g'" by simp
qed

context device_store begin

lemma refused_not_verified:
  assumes L: "jwt_laws L" and m: "manager_db m = DB" and d: "store_invar d" and t: "spelled L (named d) t" "refused L (dev d) t"
    and z: "zero_like target = target"
  shows "verifyToken L m now t target d \<noteq> ((c, Inr key), d')"
proof
  assume "verifyToken L m now t target d = ((c, Inr key), d')"
  from verifyToken_sound [OF L this z] obtain ty k g where c: "carries L t c key" "token_identity c = Some (ty, k, g)"
    and get: "GetDeviceSecret DB k d = (Inr (key, g), d')" by (auto simp: m)
  with t(1) have "named d k" by (auto simp: spelled_def)
  from get_found [OF d this get] t(2) c have "g < g" unfolding refused_def by blast
  then show False by simp
qed

lemma refused_access:
  assumes "jwt_laws L" and "manager_db m = DB" and "store_invar d" and "spelled L (named d) t" and "refused L (dev d) t"
  obtains cl e d' where "VerifyAccess L m now t d = ((cl, Some e), d')"
proof -
  obtain c r d' where v: "verifyToken L m now t (AccessClaimsOf zero_access) d = ((c, r), d')" by (metis prod.collapse)
  with refused_not_verified [OF assms, of "AccessClaimsOf zero_access" now c _ d'] have "\<exists>e. r = Inl e" by (cases r) auto
  with v show thesis by (auto simp: VerifyAccess_def intro: that)
qed

lemma refused_refresh:
  assumes "jwt_laws L" and "manager_db m = DB" and "store_invar d" and "spelled L (named d) t" and "refused L (dev d) t"
  obtains cl e d' where "VerifyRefresh L m now t d = ((cl, Some e), d')"
proof -
  obtain c r d' where v: "verifyToken L m now t (RefreshClaimsOf zero_refresh) d = ((c, r), d')" by (metis prod.collapse)
  with refused_not_verified [OF assms, of "RefreshClaimsOf zero_refresh" now c _ d'] have "\<exists>e. r = Inl e" by (cases r) auto
  with v show thesis by (auto simp: VerifyRefresh_def intro: that)
qed

end

end
