(* ===== verification/Server.thy ===== *)
theory Server
  imports Login_Providers Refresh Config Open_Database Listener Session_Changes
begin

text \<open>
  How the parts are put together: the routes of \<^verbatim>\<open>server/internal/handlers/handlers.go\<close> and the start of the server in
  \<^verbatim>\<open>server/cmd/main.go\<close>. \<open>platform\<close> collects what the program takes from outside the repository: the Unicode tables, the identifier quoting of
  pgx, \<^verbatim>\<open>sql.Open\<close> and the tables behind an open pool, the constructors of the Redis clients and of the in-memory caches, the network, the context
  of the discovery, and the file system with the files it starts on. Go's nil interfaces, which a server without a database passes on and
  never calls, are the fields \<open>pf_nil_db\<close> and \<open>pf_nil_users\<close>. The
  life-cycle coordinator is the list of the exit hooks registered so far; when and in which order the library runs them, and the goroutine that serves
  the listener, are not modelled. Log lines are left out.
\<close>

section \<open>\<^verbatim>\<open>handlers.go\<close>\<close>

record ('d, 's, 'o) Dependencies =
  deps_DB :: "'d options_DB option"
  deps_UsersDB :: "'d options_UsersDB"
  deps_JWTManager :: "'d JWTManager"
  deps_IdentitySigner :: "Signer option"
  deps_StateCache :: "'s state_Cache"
  deps_OAuth2Client :: "'o OAuth2Client option"
  deps_Options :: "(Options \<Rightarrow> Options) list"

datatype ('d, 's, 'o) route =
    HealthRoute
  | RefreshRoute "'d refresh_Handler"
  | RefreshAccessRoute "'d refresh_Handler"
  | VerifyRoute "'d session_Handler"
  | LogoutRoute "'d session_Handler"
  | DeleteMeRoute "'d session_Handler"
  | LoginRoute "('d, 's, 'o) login_Handler"
  | CallbackRoute "('d, 's, 'o) login_Handler"

text \<open>The mux as the list of its patterns, in the order of registration.\<close>

definition RegisterRoutes :: "('d, 's, 'o) Dependencies \<Rightarrow> (string \<times> ('d, 's, 'o) route) list" where
  "RegisterRoutes deps =
     (let opts = options_New (deps_Options deps)
      in [(''GET /health'', HealthRoute)]
       @ (case deps_DB deps of
            None \<Rightarrow> []
          | Some db \<Rightarrow>
              (let refreshHandler = refresh_New db (deps_UsersDB deps) (deps_JWTManager deps) (\<not> DevMode opts);
                   sessionHandler = session_New db (deps_UsersDB deps) (deps_JWTManager deps) (deps_IdentitySigner deps)
               in [(''POST /refresh'', RefreshRoute refreshHandler), (''POST /refresh-access'', RefreshAccessRoute refreshHandler),
                   (''GET /verify'', VerifyRoute sessionHandler), (''POST /logout'', LogoutRoute sessionHandler)]
                @ (if \<not> External (deps_UsersDB deps) then [(''DELETE /users/me'', DeleteMeRoute sessionHandler)] else [])))
       @ (case deps_OAuth2Client deps of
            None \<Rightarrow> []
          | Some oc \<Rightarrow>
              (let loginHandler = login_New (deps_DB deps) (deps_UsersDB deps) (deps_JWTManager deps) (deps_StateCache deps) oc opts
               in [(''GET /login'', LoginRoute loginHandler), (''GET /callback'', CallbackRoute loginHandler)])))"

section \<open>The interface of the two kinds of state cache\<close>

text \<open>A value of an interface type calls the methods of the implementation it holds.\<close>

definition any_states :: "('m memoryCache + 'r redisCache) state_Cache" where
  "any_states =
     \<lparr>state_Set = (\<lambda>k v c. case c of
        Inl m \<Rightarrow> (case memoryCache_Set k v m of (x, m') \<Rightarrow> (x, Inl m'))
      | Inr r \<Rightarrow> (case redisCache_Set k v r of (x, r') \<Rightarrow> (x, Inr r'))),
      state_Take = (\<lambda>k c. case c of
        Inl m \<Rightarrow> (case memoryCache_Take k m of (x, m') \<Rightarrow> (x, Inl m'))
      | Inr r \<Rightarrow> (case redisCache_Take k r of (x, r') \<Rightarrow> (x, Inr r')))\<rparr>"

section \<open>\<^verbatim>\<open>main.go\<close>\<close>

record ('s, 'x, 'r, 'm, 'n, 'q, 'a, 'o, 'f) platform =
  pf_unicode :: unicode
  pf_sanitize :: sanitize
  pf_sql_Open :: "string \<Rightarrow> string \<Rightarrow> go_error + (('s, 'x) sql_DB \<times> 's)"
  pf_tables :: "'s \<Rightarrow> pg"
  pf_ParseURL :: "string \<Rightarrow> go_error + redis_options"
  pf_NewClient :: "redis_options \<Rightarrow> go_error + 'r RedisClient"
  pf_NewLocker :: "locker_option \<Rightarrow> go_error + 'r RedisClient"
  pf_otter_secrets :: "int \<Rightarrow> (Secret \<Rightarrow> duration) \<Rightarrow> go_error + ('m, Secret) otter_cache"
  pf_otter_states :: "int \<Rightarrow> (string \<Rightarrow> duration) \<Rightarrow> go_error + ('n, string) otter_cache"
  pf_otter_results :: "int \<Rightarrow> ('a \<Rightarrow> duration) \<Rightarrow> go_error + ('q, 'a) otter_cache"
  pf_net :: "'o net"
  pf_discovery_ctx :: "nat \<Rightarrow> go_error option"
  pf_filesystem :: "'f filesystem"
  pf_files :: 'f
  pf_nil_db :: "('m, 'r) server_db jwt_Database"
  pf_nil_users :: "('m, 'r) server_db options_UsersDB"

text \<open>The hooks \<^verbatim>\<open>life.OnExit\<close> is called with, by what they close.\<close>

datatype exit_hook = CloseSQL | CloseStore | CloseRedis | CloseDeviceCache | CloseFlight | CloseListener | ShutdownServer

definition openDatabase ::
  "('s, 'x, 'r, 'm, 'n, 'q, 'a, 'o, 'f) platform \<Rightarrow> config_Database \<Rightarrow> exit_hook list
    \<Rightarrow> (go_error + (Store \<times> Database_handle \<times> 's)) \<times> exit_hook list" where
  "openDatabase P cfg life =
     (case pf_sql_Open P ''pgx'' (db_URL cfg) of
        Inl err \<Rightarrow> (Inl (Wrapped ''failed to open database'' err), life)
      | Inr (L, s) \<Rightarrow>
          (let life1 = life @ [CloseSQL];
               s1 = sql_SetConnMaxIdleTime L (db_ConnMaxIdleTime cfg) (sql_SetConnMaxLifetime L (db_ConnMaxLifetime cfg)
                 (sql_SetMaxIdleConns L (db_MaxIdleConns cfg) (sql_SetMaxOpenConns L (db_MaxOpenConns cfg) s)));
               usersOptions = [usersdb_WithAutoCreateSchema (db_AutoCreateSchema cfg),
                   WithDatabaseOptions [WithCleanupInterval (db_CleanupInterval cfg)]]
                 @ (if UserEmailReference cfg \<noteq> '''' then [WithExternal (UserEmailReference cfg) (UserUsernameColumn cfg)] else [])
           in case usersdb_New L (pf_unicode P) (pf_sanitize P) usersOptions s1 of
                (Inl err, s2) \<Rightarrow> (Inl (Wrapped ''failed to open database'' err), life1)
              | (Inr (store, d), s2) \<Rightarrow> (Inr (store, d, s2), life1 @ [CloseStore])))"

definition newOAuth2Client ::
  "('s, 'x, 'r, 'm, 'n, 'q, 'a, 'o, 'f) platform \<Rightarrow> Config \<Rightarrow> 'o \<Rightarrow> ((go_error + 'o OAuth2Client option) \<times> 'o) option" where
  "newOAuth2Client P cfg o0 =
     (case cfg_OAuth2 cfg of
        None \<Rightarrow> Some (Inr None, o0)
      | Some oauth2Config \<Rightarrow>
          (let N = pf_net P;
               cl = oa_Client oauth2Config;
               providerOptions = [WithAllowUnverifiedEmail (auth_AllowUnverifiedEmail (cfg_Auth cfg))]
           in case oa_OIDC oauth2Config of
                Some oidc \<Rightarrow>
                  (case NewOIDC N (pf_discovery_ctx P) \<lparr>oidc_IssuerURL = IssuerURL oidc, oidc_ClientID = cl_ID cl, oidc_ClientSecret = cl_Secret cl,
                         oidc_RedirectURL = cl_RedirectURL cl, oidc_Scopes = oa_Scopes oauth2Config\<rparr> providerOptions o0 of
                     None \<Rightarrow> None
                   | Some (Inl err, o1) \<Rightarrow> Some (Inl (Wrapped ''OIDC setup failed'' err), o1)
                   | Some (Inr c, o1) \<Rightarrow> Some (Inr (Some (Client_OAuth2Client N c)), o1))
              | None \<Rightarrow>
                  (let provider = the (oa_Provider oauth2Config)
                   in Some (Inr (Some (Client_OAuth2Client N (oauthclient_New N
                        \<lparr>oc_Provider = pr_Name provider, oc_ClientID = cl_ID cl, oc_ClientSecret = cl_Secret cl, oc_RedirectURL = cl_RedirectURL cl,
                         oc_AuthURL = pr_AuthURL provider, oc_TokenURL = pr_TokenURL provider, oc_UserinfoURL = pr_UserinfoURL provider,
                         oc_RevokeURL = pr_RevokeURL provider, oc_Scopes = oa_Scopes oauth2Config\<rparr> providerOptions))), o0))))"

text \<open>A running server: its routes, the state they work on, and the listener it serves.\<close>

record ('r, 'm, 'n, 'q, 'a, 'o, 'f) server =
  srv_routes :: "(string \<times> (('m, 'r) server_db, 'n memoryCache + 'r redisCache, 'o) route) list"
  srv_db :: "('m, 'r) server_db option"
  srv_flight :: "('r, 'q, 'a) Group"
  srv_states :: "'n memoryCache + 'r redisCache"
  srv_listener :: nat
  srv_files :: 'f

definition server_manager :: "('m, 'r) server_db jwt_Database \<Rightarrow> config_JWT \<Rightarrow> ('m, 'r) server_db JWTManager" where
  "server_manager db cfg = NewJWTManager db [WithAccessTokenDuration (cfg_AccessTokenDuration cfg),
     WithRefreshTokenDuration (cfg_RefreshTokenDuration cfg), WithIssuer (cfg_Issuer cfg), WithAudience (cfg_Audience cfg)]"

definition server_signer :: "config_JWT \<Rightarrow> Signer option" where
  "server_signer cfg = (if IdentitySecret cfg \<noteq> '''' then Some (NewSigner (IdentitySecret cfg) (cfg_Issuer cfg) (cfg_Audience cfg)) else None)"

definition server_run ::
  "('s, 'x, 'r, 'm, 'n, 'q, 'a, 'o, 'f) platform \<Rightarrow> environment \<Rightarrow> 'o
    \<Rightarrow> ((go_error + ('r, 'm, 'n, 'q, 'a, 'o, 'f) server) \<times> exit_hook list \<times> 'o) option" where
  "server_run P env o0 =
     (case config_Load (pf_unicode P) (pf_sanitize P) env of
        Inl err \<Rightarrow> Some (Inl (Wrapped ''invalid configuration'' err), [], o0)
      | Inr cfg \<Rightarrow>
     (case (case cfg_Database cfg of
              None \<Rightarrow> (Inr None, [])
            | Some db \<Rightarrow> (case openDatabase P db [] of (Inl err, life) \<Rightarrow> (Inl err, life) | (Inr opened, life) \<Rightarrow> (Inr (Some opened), life))) of
        (Inl err, life) \<Rightarrow> Some (Inl err, life, o0)
      | (Inr store, life) \<Rightarrow>
     (let allowRegistration = (auth_AllowRegistration (cfg_Auth cfg) \<and> \<not> (case store of None \<Rightarrow> False | Some (st, _) \<Rightarrow> external st))
      in case (case cfg_Redis cfg of
                 None \<Rightarrow> Inr (None, [], life)
               | Some r \<Rightarrow>
                   (case NewRedisClient (pf_ParseURL P) (pf_NewClient P) (redis_URL r) of
                      Inl err \<Rightarrow> Inl (Wrapped ''failed to connect to Redis'' err)
                    | Inr c \<Rightarrow> Inr (c, [WithRedis (redis_URL r) 0], life @ [CloseRedis]))) of
        Inl err \<Rightarrow> Some (Inl err, life, o0)
      | Inr (redisClient, flightOptions, life1) \<Rightarrow>
     (case NewSecretCache (pf_otter_secrets P) redisClient of
        Inl err \<Rightarrow> Some (Inl (Wrapped ''failed to create device secret cache'' err), life1, o0)
      | Inr deviceCache \<Rightarrow>
     (let life2 = life1 @ [CloseDeviceCache];
          jwtDB = (case store of None \<Rightarrow> pf_nil_db P | Some _ \<Rightarrow> CachedDB_methods any_SecretCache);
          authDB = (case store of None \<Rightarrow> None | Some _ \<Rightarrow> Some (CachedDB_DB any_SecretCache));
          usersDB = (case store of None \<Rightarrow> pf_nil_users P | Some (st, _) \<Rightarrow> Store_UsersDB st);
          jwtManager = server_manager jwtDB (cfg_JWT cfg);
          identitySigner = server_signer (cfg_JWT cfg)
      in case newOAuth2Client P cfg o0 of
        None \<Rightarrow> None
      | Some (Inl err, o1) \<Rightarrow> Some (Inl err, life2, o1)
      | Some (Inr oauth2Client, o1) \<Rightarrow>
     (case flight_New (pf_otter_results P) (pf_ParseURL P) (pf_NewLocker P) flightOptions of
        Inl err \<Rightarrow> Some (Inl (Wrapped ''failed to create flight group'' err), life2, o1)
      | Inr flightGroup \<Rightarrow>
     (case state_NewCache (pf_otter_states P) redisClient [] of
        Inl err \<Rightarrow> Some (Inl (Wrapped ''failed to create state cache'' err), life2 @ [CloseFlight], o1)
      | Inr stateCache \<Rightarrow>
     (let deps = \<lparr>deps_DB = authDB, deps_UsersDB = usersDB, deps_JWTManager = jwtManager, deps_IdentitySigner = identitySigner,
            deps_StateCache = any_states, deps_OAuth2Client = oauth2Client,
            deps_Options = [WithDevMode (HTTP_DevMode (cfg_HTTP cfg)), WithAllowRegistration allowRegistration,
              WithPassOAuthToken (auth_PassOAuthToken (cfg_Auth cfg)),
              WithClientPKCE (case cfg_OAuth2 cfg of None \<Rightarrow> False | Some oa \<Rightarrow> cl_PKCE (oa_Client oa))]\<rparr>
      in case createListener (pf_filesystem P) (http_Address (cfg_HTTP cfg)) (pf_files P) of
        (Inl err, _) \<Rightarrow> Some (Inl (Wrapped ''failed to listen'' err), life2 @ [CloseFlight], o1)
      | (Inr listener, files) \<Rightarrow>
          Some (Inr \<lparr>srv_routes = RegisterRoutes deps,
            srv_db = (case store of None \<Rightarrow> None | Some (_, _, s) \<Rightarrow> Some (NewCachedDB (pf_tables P s) deviceCache)),
            srv_flight = flightGroup, srv_states = stateCache, srv_listener = listener, srv_files = files\<rparr>,
            life2 @ [CloseFlight, CloseListener, ShutdownServer], o1)))))))))"

section \<open>What a started server is made of\<close>

text \<open>The dependencies handed to \<^verbatim>\<open>RegisterRoutes\<close>, from the configuration, the opened store and the client.\<close>

definition server_deps ::
  "('s, 'x, 'r, 'm, 'n, 'q, 'a, 'o, 'f) platform \<Rightarrow> Config \<Rightarrow> (Store \<times> Database_handle \<times> 's) option \<Rightarrow> 'o OAuth2Client option
    \<Rightarrow> (('m, 'r) server_db, 'n memoryCache + 'r redisCache, 'o) Dependencies" where
  "server_deps P cfg store oc =
     \<lparr>deps_DB = (case store of None \<Rightarrow> None | Some _ \<Rightarrow> Some (CachedDB_DB any_SecretCache)),
      deps_UsersDB = (case store of None \<Rightarrow> pf_nil_users P | Some (st, _) \<Rightarrow> Store_UsersDB st),
      deps_JWTManager = server_manager (case store of None \<Rightarrow> pf_nil_db P | Some _ \<Rightarrow> CachedDB_methods any_SecretCache) (cfg_JWT cfg),
      deps_IdentitySigner = server_signer (cfg_JWT cfg), deps_StateCache = any_states, deps_OAuth2Client = oc,
      deps_Options = [WithDevMode (HTTP_DevMode (cfg_HTTP cfg)),
        WithAllowRegistration (auth_AllowRegistration (cfg_Auth cfg) \<and> \<not> (case store of None \<Rightarrow> False | Some (st, _) \<Rightarrow> external st)),
        WithPassOAuthToken (auth_PassOAuthToken (cfg_Auth cfg)),
        WithClientPKCE (case cfg_OAuth2 cfg of None \<Rightarrow> False | Some oa \<Rightarrow> cl_PKCE (oa_Client oa))]\<rparr>"

definition server_store_opened ::
  "('s, 'x, 'r, 'm, 'n, 'q, 'a, 'o, 'f) platform \<Rightarrow> Config \<Rightarrow> (Store \<times> Database_handle \<times> 's) option \<Rightarrow> exit_hook list \<Rightarrow> bool" where
  "server_store_opened P cfg store life \<longleftrightarrow> (case cfg_Database cfg of
     None \<Rightarrow> store = None \<and> life = [] | Some db \<Rightarrow> \<exists>x. openDatabase P db [] = (Inr x, life) \<and> store = Some x)"

lemma server_runE:
  assumes "server_run P env o0 = Some (Inr srv, hooks, o1)"
  obtains cfg store life oc where "config_Load (pf_unicode P) (pf_sanitize P) env = Inr cfg"
    and "server_store_opened P cfg store life"
    and "newOAuth2Client P cfg o0 = Some (Inr oc, o1)"
    and "srv_routes srv = RegisterRoutes (server_deps P cfg store oc)"
    and "srv_db srv = None \<longleftrightarrow> store = None"
    and "createListener (pf_filesystem P) (http_Address (cfg_HTTP cfg)) (pf_files P) = (Inr (srv_listener srv), srv_files srv)"
    and "hooks = life @ (if cfg_Redis cfg = None then [] else [CloseRedis]) @ [CloseDeviceCache, CloseFlight, CloseListener, ShutdownServer]"
proof -
  let ?open = "\<lambda>cfg. (case cfg_Database cfg of None \<Rightarrow> (Inr None, [])
      | Some db \<Rightarrow> (case openDatabase P db [] of (Inl err, life) \<Rightarrow> (Inl err, life) | (Inr opened, life) \<Rightarrow> (Inr (Some opened), life)))"
  obtain cfg where cfg: "config_Load (pf_unicode P) (pf_sanitize P) env = Inr cfg"
    using assms by (auto simp: server_run_def split: sum.splits)
  obtain r life where opened: "?open cfg = (r, life)" by fastforce
  obtain store where r: "r = Inr store" using assms by (cases r) (simp_all add: server_run_def cfg opened)
  obtain oc where oc: "newOAuth2Client P cfg o0 = Some (Inr oc, o1)" and "srv_routes srv = RegisterRoutes (server_deps P cfg store oc)"
    "srv_db srv = None \<longleftrightarrow> store = None"
    "createListener (pf_filesystem P) (http_Address (cfg_HTTP cfg)) (pf_files P) = (Inr (srv_listener srv), srv_files srv)"
    "hooks = life @ (if cfg_Redis cfg = None then [] else [CloseRedis]) @ [CloseDeviceCache, CloseFlight, CloseListener, ShutdownServer]"
    using assms
    by (auto simp: server_run_def cfg opened r server_deps_def Let_def split: sum.splits option.splits prod.splits)
  moreover have "server_store_opened P cfg store life"
    using opened r by (auto simp: server_store_opened_def split: option.splits sum.splits prod.splits)
  ultimately show thesis using cfg by (intro that)
qed

lemma openDatabase_external:
  assumes "openDatabase P cfg life = (Inr (st, d, s), life')"
  shows "external st \<longleftrightarrow> UserEmailReference cfg \<noteq> ''''" and "life' = life @ [CloseSQL, CloseStore]"
proof -
  have store: "external st' \<longleftrightarrow> uo_external c \<noteq> None" if "newStore L U sanitize c x = (Inr st', x')" for L :: "('a, 'b) sql_DB" and U sanitize c x st' x'
    using that by (auto simp: newStore_def newExternal_def Let_def split: option.splits sum.splits prod.splits if_splits)
  have new: "external st' \<longleftrightarrow> uo_external (usersdb_newOptions opts) \<noteq> None" if "usersdb_New L U sanitize opts x = (Inr (st', d'), x')"
    for L :: "('a, 'b) sql_DB" and U sanitize opts x st' d' x'
    using that store by (auto simp: usersdb_New_def Let_def split: sum.splits prod.splits)
  show "life' = life @ [CloseSQL, CloseStore]"
    using assms by (auto simp: openDatabase_def Let_def split: sum.splits prod.splits)
  show "external st \<longleftrightarrow> UserEmailReference cfg \<noteq> ''''"
    using assms new
    by (auto simp: openDatabase_def usersdb_newOptions_def usersdb_WithAutoCreateSchema_def WithDatabaseOptions_def WithExternal_def Let_def
        split: sum.splits prod.splits if_splits)
qed

section \<open>Properties\<close>

text \<open>The users table belongs to another application.\<close>

definition external_users :: "environment \<Rightarrow> bool" where
  "external_users env \<longleftrightarrow> env ''DATABASE_URL'' \<noteq> '''' \<and> env ''DB_USER_EMAIL_REFERENCE'' \<noteq> ''''"

definition configured_patterns :: "environment \<Rightarrow> string list" where
  "configured_patterns env = [''GET /health'']
     @ (if env ''DATABASE_URL'' = '''' then [] else [''POST /refresh'', ''POST /refresh-access'', ''GET /verify'', ''POST /logout'']
        @ (if external_users env then [] else [''DELETE /users/me'']))
     @ (if no_client env then [] else [''GET /login'', ''GET /callback''])"

text \<open>What the environment says of a handler.\<close>

definition manager_ok :: "'d JWTManager \<Rightarrow> bool" where
  "manager_ok m \<longleftrightarrow> 0 < AccessTokenDuration (manager_config m) \<and> 0 < RefreshTokenDuration (manager_config m)"

definition signer_ok :: "environment \<Rightarrow> Signer option \<Rightarrow> bool" where
  "signer_ok env sg \<longleftrightarrow> (case sg of None \<Rightarrow> env ''IDENTITY_JWT_SECRET'' = ''''
     | Some x \<Rightarrow> signer_secret x = env ''IDENTITY_JWT_SECRET'' \<and> MinSecretLength \<le> length (signer_secret x))"

definition login_ok :: "environment \<Rightarrow> ('d, 's, 'o) login_Handler \<Rightarrow> bool" where
  "login_ok env h \<longleftrightarrow> manager_ok (login_jwtManager h)
     \<and> (AllowRegistration (login_options h) \<longleftrightarrow> isTrue env ''ALLOW_REGISTRATION'' \<and> \<not> external_users env)
     \<and> (ClientPKCE (login_options h) \<longleftrightarrow> isTrue env ''OAUTH2_CLIENT_PKCE'')
     \<and> (external_users env \<longrightarrow> (\<forall>name em d. CreateUser (login_users h) name em d = (Inl ErrExternalUsers, d)))"

fun route_ok :: "environment \<Rightarrow> ('d, 's, 'o) route \<Rightarrow> bool" where
  "route_ok env HealthRoute = True"
| "route_ok env (RefreshRoute h) = (manager_ok (refresh_jwtManager h) \<and> (refresh_secureCookie h \<longleftrightarrow> env ''HTTP_MODE'' \<noteq> ModeDevelopment))"
| "route_ok env (RefreshAccessRoute h) = manager_ok (refresh_jwtManager h)"
| "route_ok env (VerifyRoute h) = (manager_ok (session_jwtManager h) \<and> signer_ok env (session_identitySigner h))"
| "route_ok env (LogoutRoute h) = manager_ok (session_jwtManager h)"
| "route_ok env (DeleteMeRoute h) = (manager_ok (session_jwtManager h) \<and> \<not> external_users env)"
| "route_ok env (LoginRoute h) = login_ok env h"
| "route_ok env (CallbackRoute h) = login_ok env h"

lemma server_options:
  "options_New [WithDevMode a, WithAllowRegistration b, WithPassOAuthToken c, WithClientPKCE d]
    = \<lparr>DevMode = a, AllowRegistration = b, PassOAuthToken = c, ClientPKCE = d\<rparr>"
  by (simp add: options_New_def WithDevMode_def WithAllowRegistration_def WithPassOAuthToken_def WithClientPKCE_def)

lemma newOAuth2Client_None: "newOAuth2Client P cfg o0 = Some (Inr oc, o1) \<Longrightarrow> oc = None \<longleftrightarrow> cfg_OAuth2 cfg = None"
  by (auto simp: newOAuth2Client_def Let_def split: option.splits prod.splits sum.splits)

text \<open>The external store neither creates users nor counts as a place to register.\<close>

lemma server_store:
  assumes load: "config_Load (pf_unicode P) (pf_sanitize P) env = Inr cfg"
    and store: "server_store_opened P cfg store life"
  shows "store = None \<longleftrightarrow> env ''DATABASE_URL'' = ''''"
    and "life = (if env ''DATABASE_URL'' = '''' then [] else [CloseSQL, CloseStore])"
    and "(case store of None \<Rightarrow> False | Some (st, _) \<Rightarrow> external st) \<longleftrightarrow> external_users env"
proof -
  have url: "cfg_Database cfg = None \<longleftrightarrow> env ''DATABASE_URL'' = ''''"
    and ref: "\<And>db. cfg_Database cfg = Some db \<Longrightarrow> UserEmailReference db = env ''DB_USER_EMAIL_REFERENCE''"
    using Load_fields [OF load] by blast+
  show "store = None \<longleftrightarrow> env ''DATABASE_URL'' = ''''" using url store by (cases "cfg_Database cfg") (auto simp: server_store_opened_def)
  show "life = (if env ''DATABASE_URL'' = '''' then [] else [CloseSQL, CloseStore])"
    using url store openDatabase_external(2) by (cases "cfg_Database cfg") (fastforce simp: server_store_opened_def)+
  show "(case store of None \<Rightarrow> False | Some (st, _) \<Rightarrow> external st) \<longleftrightarrow> external_users env"
  proof (cases "cfg_Database cfg")
    case None
    with store url show ?thesis by (simp add: external_users_def server_store_opened_def)
  next
    case (Some db)
    with store obtain x where "openDatabase P db [] = (Inr x, life)" "store = Some x" by (auto simp: server_store_opened_def)
    moreover obtain st d s where "x = (st, d, s)" by (cases x)
    ultimately have "openDatabase P db [] = (Inr (st, d, s), life)" "store = Some (st, d, s)" by simp_all
    with openDatabase_external(1) [of P db "[]" st d s life] ref [OF Some] url Some show ?thesis by (simp add: external_users_def)
  qed
qed

lemma server_routes:
  fixes deps :: "('d, 's, 'o) Dependencies"
  assumes m: "manager_ok (deps_JWTManager deps)" and sg: "signer_ok env (deps_IdentitySigner deps)"
    and db: "deps_DB deps = None \<longleftrightarrow> env ''DATABASE_URL'' = ''''"
    and ext: "deps_DB deps \<noteq> None \<Longrightarrow> External (deps_UsersDB deps) \<longleftrightarrow> external_users env"
    and oc: "deps_OAuth2Client deps = None \<longleftrightarrow> no_client env"
    and dev: "DevMode (options_New (deps_Options deps)) \<longleftrightarrow> env ''HTTP_MODE'' = ModeDevelopment"
    and login: "\<And>c. deps_OAuth2Client deps = Some c \<Longrightarrow> login_ok env (login_New (deps_DB deps) (deps_UsersDB deps) (deps_JWTManager deps)
      (deps_StateCache deps) c (options_New (deps_Options deps)))"
  shows "map fst (RegisterRoutes deps) = configured_patterns env \<and> list_all (\<lambda>(_, r). route_ok env r) (RegisterRoutes deps)"
proof -
  let ?opts = "options_New (deps_Options deps)"
  define dbRoutes where "dbRoutes = (case deps_DB deps of None \<Rightarrow> [] | Some db \<Rightarrow>
      (let refreshHandler = refresh_New db (deps_UsersDB deps) (deps_JWTManager deps) (\<not> DevMode ?opts);
           sessionHandler = session_New db (deps_UsersDB deps) (deps_JWTManager deps) (deps_IdentitySigner deps)
       in [(''POST /refresh'', RefreshRoute refreshHandler), (''POST /refresh-access'', RefreshAccessRoute refreshHandler),
           (''GET /verify'', VerifyRoute sessionHandler), (''POST /logout'', LogoutRoute sessionHandler)]
        @ (if \<not> External (deps_UsersDB deps) then [(''DELETE /users/me'', DeleteMeRoute sessionHandler :: ('d, 's, 'o) route)] else [])))"
  define loginRoutes where "loginRoutes = (case deps_OAuth2Client deps of None \<Rightarrow> [] | Some oc \<Rightarrow>
      (let loginHandler = login_New (deps_DB deps) (deps_UsersDB deps) (deps_JWTManager deps) (deps_StateCache deps) oc ?opts
       in [(''GET /login'', LoginRoute loginHandler), (''GET /callback'', CallbackRoute loginHandler)]))"
  have "map fst dbRoutes = (if env ''DATABASE_URL'' = '''' then [] else [''POST /refresh'', ''POST /refresh-access'', ''GET /verify'', ''POST /logout'']
      @ (if external_users env then [] else [''DELETE /users/me'']))" and "list_all (\<lambda>(_, r). route_ok env r) dbRoutes"
    using m sg db ext dev by (cases "deps_DB deps"; simp add: dbRoutes_def refresh_New_def session_New_def Let_def)+
  moreover have "map fst loginRoutes = (if no_client env then [] else [''GET /login'', ''GET /callback''])"
    and "list_all (\<lambda>(_, r). route_ok env r) loginRoutes"
    using oc login by (cases "deps_OAuth2Client deps"; simp add: loginRoutes_def Let_def)+
  moreover have "RegisterRoutes deps = [(''GET /health'', HealthRoute)] @ dbRoutes @ loginRoutes"
    by (simp add: RegisterRoutes_def dbRoutes_def loginRoutes_def Let_def)
  ultimately show ?thesis by (simp add: configured_patterns_def)
qed

text \<open>The exit hooks of a server that started.\<close>

definition configured_hooks :: "environment \<Rightarrow> exit_hook list" where
  "configured_hooks env = (if env ''DATABASE_URL'' = '''' then [] else [CloseSQL, CloseStore])
     @ (if env ''REDIS_URL'' = '''' then [] else [CloseRedis]) @ [CloseDeviceCache, CloseFlight, CloseListener, ShutdownServer]"

text \<open>A start that fails has registered hooks for what it opened before, in the same order.\<close>

lemma openDatabase_hooks: "openDatabase P cfg life = (r, life') \<Longrightarrow> life' \<in> {life, life @ [CloseSQL], life @ [CloseSQL, CloseStore]}"
  by (auto simp: openDatabase_def Let_def split: sum.splits prod.splits)

lemma failed_start_hooks:
  assumes "server_run P env o0 = Some (Inl err, hooks, o1)"
  shows "prefix hooks (configured_hooks env)"
proof (cases "config_Load (pf_unicode P) (pf_sanitize P) env")
  case (Inl e)
  with assms show ?thesis by (simp add: server_run_def)
next
  case (Inr cfg)
  let ?redis = "if cfg_Redis cfg = None then [] else [CloseRedis]"
  have url: "cfg_Database cfg = None \<longleftrightarrow> env ''DATABASE_URL'' = ''''" and red: "cfg_Redis cfg = None \<longleftrightarrow> env ''REDIS_URL'' = ''''"
    using Load_fields [OF Inr] by (simp_all add: loadRedis_def Let_def)
  let ?open = "(case cfg_Database cfg of None \<Rightarrow> (Inr None, [])
      | Some db \<Rightarrow> (case openDatabase P db [] of (Inl err, life) \<Rightarrow> (Inl err, life) | (Inr opened, life) \<Rightarrow> (Inr (Some opened), life)))"
  obtain r life where opened: "?open = (r, life)" by fastforce
  let ?all = "(if cfg_Database cfg = None then [] else [CloseSQL, CloseStore])"
  have life: "prefix life ?all" "isl r \<or> life = ?all"
    using opened openDatabase_hooks openDatabase_external(2)
    by (auto split: option.splits prod.splits sum.splits; fastforce)+
  show ?thesis
  proof (cases r)
    case (Inl e)
    with assms have "hooks = life" by (simp add: server_run_def Inr opened)
    moreover have "configured_hooks env = ?all @ drop (length ?all) (configured_hooks env)" using url by (simp add: configured_hooks_def)
    ultimately show ?thesis using life(1) by (metis prefix_prefix)
  next
    case store: (Inr st)
    with assms have "hooks \<in> {life, life @ ?redis, life @ ?redis @ [CloseDeviceCache], life @ ?redis @ [CloseDeviceCache, CloseFlight]}"
      by (auto simp: server_run_def Inr opened Let_def split: sum.splits option.splits prod.splits)
    with life(2) store url red show ?thesis by (auto simp: configured_hooks_def)
  qed
qed

text \<open>
  C23. A server that starts serves what its environment asks for. Its mux has exactly the patterns of \<open>configured_patterns\<close>, each once: the session
  endpoints when there is a database, the account deletion only when the users table is the server's own, the login endpoints when an OAuth2 client is
  configured. The handlers behind them sign tokens with positive life times, sign identities with the configured secret of sufficient length, and set secure cookies unless in
  development mode; and where the users table belongs to another application, no registration is allowed and creating a user fails without
  touching the database, whatever \<^verbatim>\<open>ALLOW_REGISTRATION\<close> says. It listens on the
  configured address, and has registered an exit hook for everything it opened.
\<close>

theorem started_server_follows_environment:
  assumes "server_run P env o0 = Some (Inr srv, hooks, o1)"
  shows "map fst (srv_routes srv) = configured_patterns env \<and> distinct (map fst (srv_routes srv))
    \<and> list_all (\<lambda>(_, r). route_ok env r) (srv_routes srv) \<and> (srv_db srv = None \<longleftrightarrow> env ''DATABASE_URL'' = '''')
    \<and> createListener (pf_filesystem P) (stringOr env ''HTTP_ADDRESS'' DefaultHTTPAddress) (pf_files P) = (Inr (srv_listener srv), srv_files srv)
    \<and> hooks = configured_hooks env"
proof -
  obtain cfg store life oc where load: "config_Load (pf_unicode P) (pf_sanitize P) env = Inr cfg"
    and store: "server_store_opened P cfg store life"
    and oc: "newOAuth2Client P cfg o0 = Some (Inr oc, o1)"
    and routes: "srv_routes srv = RegisterRoutes (server_deps P cfg store oc)" and db: "srv_db srv = None \<longleftrightarrow> store = None"
    and listen: "createListener (pf_filesystem P) (http_Address (cfg_HTTP cfg)) (pf_files P) = (Inr (srv_listener srv), srv_files srv)"
    and hooks: "hooks = life @ (if cfg_Redis cfg = None then [] else [CloseRedis]) @ [CloseDeviceCache, CloseFlight, CloseListener, ShutdownServer]"
    by (rule server_runE [OF assms])
  note fields = Load_fields [OF load] and valid = Load_valid [OF load] and st = server_store [OF load store]
  let ?deps = "server_deps P cfg store oc"
  have m: "manager_ok (deps_JWTManager ?deps)"
    using valid by (simp add: server_deps_def server_manager_def manager_ok_def NewJWTManager_def jwt_ok_def
        WithAccessTokenDuration_def WithRefreshTokenDuration_def WithIssuer_def WithAudience_def)
  have sg: "signer_ok env (deps_IdentitySigner ?deps)"
    using valid fields by (auto simp: server_deps_def server_signer_def signer_ok_def NewSigner_def jwt_ok_def Let_def)
  have opts: "options_New (deps_Options ?deps) = \<lparr>DevMode = env ''HTTP_MODE'' = ModeDevelopment,
      AllowRegistration = isTrue env ''ALLOW_REGISTRATION'' \<and> \<not> external_users env, PassOAuthToken = isTrue env ''PASS_OAUTH_TOKEN'',
      ClientPKCE = (case cfg_OAuth2 cfg of None \<Rightarrow> False | Some oa \<Rightarrow> cl_PKCE (oa_Client oa))\<rparr>"
    using fields st(3) by (auto simp: server_deps_def server_options HTTP_DevMode_def stringOr_def ModeDevelopment_def ModeProduction_def)
  have create: "CreateUser (deps_UsersDB ?deps) name em d = (Inl ErrExternalUsers, d)" if "external_users env" for name em d
    using that st by (auto simp: server_deps_def Store_UsersDB_def Store_CreateUser_def on_db_def split: option.splits)
  have login: "login_ok env (login_New (deps_DB ?deps) (deps_UsersDB ?deps) (deps_JWTManager ?deps) (deps_StateCache ?deps) c (options_New (deps_Options ?deps)))"
    if "deps_OAuth2Client ?deps = Some c" for c
  proof -
    have "cfg_OAuth2 cfg \<noteq> None" using that newOAuth2Client_None [OF oc] by (simp add: server_deps_def)
    then have "(case cfg_OAuth2 cfg of None \<Rightarrow> False | Some oa \<Rightarrow> cl_PKCE (oa_Client oa)) \<longleftrightarrow> isTrue env ''OAUTH2_CLIENT_PKCE''"
      using fields by auto
    with m create show ?thesis by (simp add: login_ok_def login_New_def opts)
  qed
  have "map fst (RegisterRoutes ?deps) = configured_patterns env \<and> list_all (\<lambda>(_, r). route_ok env r) (RegisterRoutes ?deps)"
  proof (rule server_routes [OF m sg _ _ _ _ login])
    show "deps_DB ?deps = None \<longleftrightarrow> env ''DATABASE_URL'' = ''''" using st(1) by (auto simp: server_deps_def split: option.splits)
    show "External (deps_UsersDB ?deps) \<longleftrightarrow> external_users env" if "deps_DB ?deps \<noteq> None"
      using that st(3) by (auto simp: server_deps_def Store_UsersDB_def split: option.splits)
    show "deps_OAuth2Client ?deps = None \<longleftrightarrow> no_client env" using newOAuth2Client_None [OF oc] fields by (simp add: server_deps_def)
    show "DevMode (options_New (deps_Options ?deps)) \<longleftrightarrow> env ''HTTP_MODE'' = ModeDevelopment" by (simp add: opts)
  qed
  moreover have "distinct (configured_patterns env)" by (simp add: configured_patterns_def)
  moreover have "hooks = configured_hooks env" using hooks st(2) fields by (simp add: configured_hooks_def loadRedis_def Let_def)
  moreover have "createListener (pf_filesystem P) (stringOr env ''HTTP_ADDRESS'' DefaultHTTPAddress) (pf_files P) = (Inr (srv_listener srv), srv_files srv)"
    using listen fields by simp
  ultimately show ?thesis using routes db st(1) by simp
qed

text \<open>A machine where the database is reachable, and an environment with a users table of another application.\<close>

definition demo_platform ::
  "(string list \<times> string list, string list, string \<rightharpoonup> string, (string \<times> Secret) list, (string \<times> string) list, (string \<times> nat) list, nat, nat,
    (string \<rightharpoonup> fs_node) \<times> nat list) platform" where
  "demo_platform =
     \<lparr>pf_unicode = ascii, pf_sanitize = dotted_parts, pf_sql_Open = (\<lambda>_ _. Inr (log_DB None, [], [])), pf_tables = (\<lambda>_. demo_pg),
      pf_ParseURL = (\<lambda>_. Inl (Opaque ''no redis'')), pf_NewClient = (\<lambda>_. Inl (Opaque ''no redis'')), pf_NewLocker = (\<lambda>_. Inl (Opaque ''no redis'')),
      pf_otter_secrets = (\<lambda>_ _. Inr \<lparr>otter_methods = map_otter zero_Secret, otter_state = []\<rparr>),
      pf_otter_states = (\<lambda>_ _. Inr \<lparr>otter_methods = map_otter '''', otter_state = []\<rparr>),
      pf_otter_results = (\<lambda>_ _. Inr \<lparr>otter_methods = map_otter 0, otter_state = []\<rparr>),
      pf_net = down_net, pf_discovery_ctx = (\<lambda>_. None), pf_filesystem = map_filesystem None, pf_files = stale_files, pf_nil_db = CachedDB_methods any_SecretCache,
      pf_nil_users = Store_UsersDB \<lparr>external = True, selectUsernameQuery = ''''\<rparr>\<rparr>"

definition shared_env :: environment where
  "shared_env = demo_env [(''DATABASE_URL'', ''postgres://h''), (''DB_USER_EMAIL_REFERENCE'', ''users(email)''), (''ALLOW_REGISTRATION'', ''true'')]"

lemma shared_reference: "\<exists>p. ParseUserEmailReference ascii dotted_parts ''users(email)'' = Inr p"
proof -
  have "\<not> isl (ParseUserEmailReference ascii dotted_parts ''users(email)'')" by code_simp
  then show ?thesis by (cases "ParseUserEmailReference ascii dotted_parts ''users(email)''") auto
qed

lemma shared_config:
  obtains cfg db where "config_Load ascii dotted_parts shared_env = Inr cfg" and "cfg_Database cfg = Some db"
    and "UserEmailReference db = ''users(email)''" and "UserUsernameColumn db = ''''" and "\<not> db_AutoCreateSchema db" and "cfg_Redis cfg = None" and "cfg_OAuth2 cfg = None"
    and "cfg_Issuer (cfg_JWT cfg) = ''''" and "cfg_Audience (cfg_JWT cfg) = ''''"
proof -
  obtain p where p: "ParseUserEmailReference ascii dotted_parts ''users(email)'' = Inr p" using shared_reference by blast
  obtain cfg where "config_Load ascii dotted_parts shared_env = Inr cfg" "map_option UserEmailReference (cfg_Database cfg) = Some ''users(email)''"
    "map_option UserUsernameColumn (cfg_Database cfg) = Some ''''" "map_option db_AutoCreateSchema (cfg_Database cfg) = Some False"
    "cfg_Redis cfg = None" "cfg_OAuth2 cfg = None" "cfg_Issuer (cfg_JWT cfg) = ''''" "cfg_Audience (cfg_JWT cfg) = ''''"
    by (simp add: config_Load_def loadDatabase_def loadJWT_def loadRedis_def loadOAuth2_def env_integer_def env_duration_def shared_env_def demo_env_def p Let_def
        isTrue_def strings_ToLower_def strings_TrimSpace_def DefaultJWTAccessDuration_def DefaultJWTRefreshDuration_def time_units)
  then show thesis by (cases "cfg_Database cfg") (auto intro: that)
qed

lemma demo_server:
  obtains srv hooks h where "server_run demo_platform shared_env 0 = Some (Inr srv, hooks, 0)"
    and "srv_db srv = Some (NewCachedDB demo_pg (Inl demo_memory))"
    and "map_of (srv_routes srv) ''POST /logout'' = Some (LogoutRoute h)" and "parserOptions (session_jwtManager h) = []"
    and "''GET /verify'' \<in> set (map fst (srv_routes srv))" and "session_db h = CachedDB_DB any_SecretCache"
    and "manager_db (session_jwtManager h) = CachedDB_methods any_SecretCache"
proof -
  obtain cfg db where cfg: "config_Load ascii dotted_parts shared_env = Inr cfg" "cfg_Database cfg = Some db"
    "UserEmailReference db = ''users(email)''" "UserUsernameColumn db = ''''" "\<not> db_AutoCreateSchema db" "cfg_Redis cfg = None" "cfg_OAuth2 cfg = None"
    "cfg_Issuer (cfg_JWT cfg) = ''''" "cfg_Audience (cfg_JWT cfg) = ''''"
    by (rule shared_config)
  obtain p where p: "ParseUserEmailReference ascii dotted_parts ''users(email)'' = Inr p" using shared_reference by blast
  obtain st d s where open': "openDatabase demo_platform db [] = (Inr (st, d, s), [CloseSQL, CloseStore])"
    using cfg p
    by (simp add: openDatabase_def demo_platform_def log_DB_def usersdb_New_def usersdb_newOptions_def usersdb_WithAutoCreateSchema_def WithDatabaseOptions_def
        WithExternal_def newStore_def newExternal_def WithUserEmailReference_def database_New_def database_newOptions_def database_WithAutoCreateSchema_def
        database_open_def WithCleanupInterval_def database_defaultOptions_def Let_def)
  have parts: "pf_unicode demo_platform = ascii" "pf_sanitize demo_platform = dotted_parts" "pf_filesystem demo_platform = map_filesystem None" "pf_files demo_platform = stale_files"
    "pf_otter_secrets demo_platform i t = Inr \<lparr>otter_methods = map_otter zero_Secret, otter_state = []\<rparr>"
    "pf_otter_states demo_platform i u = Inr \<lparr>otter_methods = map_otter '''', otter_state = []\<rparr>"
    "pf_otter_results demo_platform i v = Inr \<lparr>otter_methods = map_otter 0, otter_state = []\<rparr>" for i t u v
    by (simp_all add: demo_platform_def)
  have address: "http_Address (cfg_HTTP cfg) = '':80''"
    using Load_fields [OF cfg(1)] by (simp add: stringOr_def shared_env_def demo_env_def DefaultHTTPAddress_def Let_def)
  have listen: "createListener (map_filesystem None) '':80'' stale_files = (Inr 1, (fst stale_files, [1]))"
    by (simp add: createListener_def strings_CutPrefix_def map_filesystem_def stale_files_def)
  have tables: "pf_tables demo_platform s = demo_pg" by (simp add: demo_platform_def)
  obtain srv hooks where run: "server_run demo_platform shared_env 0 = Some (Inr srv, hooks, 0)"
    and db: "srv_db srv = Some (NewCachedDB demo_pg (Inl demo_memory))"
    and routes: "srv_routes srv = RegisterRoutes (server_deps demo_platform cfg (Some (st, d, s)) None)"
    by (simp add: server_run_def parts cfg open' address listen tables newOAuth2Client_def NewSecretCache_def newMemorySecretCache_def NewMemoryCache_def
        secretMemoryMaxSize_def flight_New_def memoryMaxSize_def state_NewCache_def newMemoryCache_def demo_memory_def server_deps_def Let_def)
  have opts: "parserOptions (server_manager db (cfg_JWT cfg)) = []" for db :: "('m, 'r) server_db jwt_Database"
    using cfg by (simp add: parserOptions_def server_manager_def NewJWTManager_def WithAccessTokenDuration_def WithRefreshTokenDuration_def
        WithIssuer_def WithAudience_def jwt_defaultOptions_def)
  show thesis
    by (rule that [OF run db, of "session_New (CachedDB_DB any_SecretCache) (Store_UsersDB st)
          (server_manager (CachedDB_methods any_SecretCache) (cfg_JWT cfg)) (server_signer (cfg_JWT cfg))"])
      (simp_all add: routes RegisterRoutes_def server_deps_def Let_def session_New_def opts, simp add: server_manager_def NewJWTManager_def)
qed

theorem started_server_follows_environment_witness:
  "\<exists>srv. server_run demo_platform shared_env 0 = Some (Inr srv, [CloseSQL, CloseStore, CloseDeviceCache, CloseFlight, CloseListener, ShutdownServer], 0)
    \<and> map fst (srv_routes srv) = [''GET /health'', ''POST /refresh'', ''POST /refresh-access'', ''GET /verify'', ''POST /logout'']"
proof -
  obtain srv hooks h where run: "server_run demo_platform shared_env 0 = Some (Inr srv, hooks, 0)" by (rule demo_server)
  have "configured_hooks shared_env = [CloseSQL, CloseStore, CloseDeviceCache, CloseFlight, CloseListener, ShutdownServer]"
    by (simp add: configured_hooks_def shared_env_def demo_env_def)
  moreover
  have "configured_patterns shared_env = [''GET /health'', ''POST /refresh'', ''POST /refresh-access'', ''GET /verify'', ''POST /logout'']"
    by (simp add: configured_patterns_def external_users_def no_client_def shared_env_def demo_env_def)
  ultimately show ?thesis using started_server_follows_environment [OF run] run by auto
qed

end
