(* ===== verification/Requests.thy ===== *)
theory Requests
  imports Server
begin

text \<open>
  A started server at work: the requests its mux hands to the handlers of
  \<^verbatim>\<open>server/internal/handlers/handlers.go\<close>, one after the other, on the state the server was started with. What the handlers are
  given from outside (the token library, SHA-256, the result types and the locker of the flight group) is
  one record. A request comes with the pattern the mux matched it to, the clock while it is served, and the
  random bytes and the PKCE verifier drawn for it. An answer the mux gives without a handler leaves the state as it is.
\<close>

section \<open>Serving requests\<close>

record ('r, 'a, 'd, 's, 'o) surroundings =
  sr_jwt :: jwt_lib
  sr_pairs :: "(TokenPair, 'a) result_type"
  sr_exchanges :: "(ExchangeResponse, 'a) result_type"
  sr_sum256 :: "string \<Rightarrow> string"
  sr_refresh_locker :: "('r, 'd) locker"
  sr_login_locker :: "('r, ('d, 's, 'o) login_world) locker"
  sr_not_found :: ResponseWriter

record http_event =
  ev_pattern :: string
  ev_request :: Request
  ev_clock :: clock
  ev_random :: string
  ev_verifier :: string

record ('r, 'q, 'a, 'd, 's, 'o) runtime =
  rt_flight :: "('r, 'q, 'a) Group"
  rt_world :: "('d, 's, 'o) login_world"

definition with_db :: "'w \<times> 'd \<Rightarrow> ('r, 'q, 'a, 'd, 's, 'o) runtime \<Rightarrow> 'w \<times> ('r, 'q, 'a, 'd, 's, 'o) runtime" where
  "with_db x rt = (fst x, rt\<lparr>rt_world := (rt_world rt)\<lparr>lw_db := snd x\<rparr>\<rparr>)"

fun serve_route ::
  "('r, 'a, 'd, 's, 'o) surroundings \<Rightarrow> http_event \<Rightarrow> ('d, 's, 'o) route \<Rightarrow> ('r, 'q, 'a, 'd, 's, 'o) runtime
    \<Rightarrow> ResponseWriter \<times> ('r, 'q, 'a, 'd, 's, 'o) runtime" where
  "serve_route E ev HealthRoute rt = (health_Handle new_writer, rt)"
| "serve_route E ev (RefreshRoute h) rt =
     (case refresh_Refresh (sr_jwt E) (sr_pairs E) (sr_sum256 E) (sr_refresh_locker E) h (ev_clock ev) (ev_request ev) new_writer
         (rt_flight rt) (lw_db (rt_world rt)) of
        (w, g, d) \<Rightarrow> with_db (w, d) (rt\<lparr>rt_flight := g\<rparr>))"
| "serve_route E ev (RefreshAccessRoute h) rt =
     with_db (refresh_RefreshAccess (sr_jwt E) h (ev_clock ev) (ev_request ev) new_writer (lw_db (rt_world rt))) rt"
| "serve_route E ev (VerifyRoute h) rt =
     with_db (session_Verify (sr_jwt E) h (ev_clock ev) (ev_request ev) new_writer (lw_db (rt_world rt))) rt"
| "serve_route E ev (LogoutRoute h) rt =
     with_db (session_Logout (sr_jwt E) h (ev_clock ev) (ev_request ev) new_writer (lw_db (rt_world rt))) rt"
| "serve_route E ev (DeleteMeRoute h) rt =
     with_db (session_DeleteMe (sr_jwt E) h (ev_clock ev) (ev_request ev) new_writer (lw_db (rt_world rt))) rt"
| "serve_route E ev (LoginRoute h) rt =
     (case login_Login h (ev_verifier ev) (ev_random ev) new_writer (rt_world rt) of (w, s) \<Rightarrow> (w, rt\<lparr>rt_world := s\<rparr>))"
| "serve_route E ev (CallbackRoute h) rt =
     (case login_Callback (sr_jwt E) (sr_exchanges E) (sr_sum256 E) (sr_login_locker E) h (ev_clock ev) (ev_random ev) (ev_request ev) new_writer
         (rt_flight rt) (rt_world rt) of
        (w, g, s) \<Rightarrow> (w, rt\<lparr>rt_flight := g, rt_world := s\<rparr>))"

definition serve ::
  "(string \<times> ('d, 's, 'o) route) list \<Rightarrow> ('r, 'a, 'd, 's, 'o) surroundings \<Rightarrow> http_event \<Rightarrow> ('r, 'q, 'a, 'd, 's, 'o) runtime
    \<Rightarrow> ResponseWriter \<times> ('r, 'q, 'a, 'd, 's, 'o) runtime" where
  "serve mux E ev rt = (case map_of mux (ev_pattern ev) of None \<Rightarrow> (sr_not_found E, rt) | Some r \<Rightarrow> serve_route E ev r rt)"

definition serve_all ::
  "(string \<times> ('d, 's, 'o) route) list \<Rightarrow> ('r, 'a, 'd, 's, 'o) surroundings \<Rightarrow> http_event list \<Rightarrow> ('r, 'q, 'a, 'd, 's, 'o) runtime
    \<Rightarrow> ('r, 'q, 'a, 'd, 's, 'o) runtime" where
  "serve_all mux E evs rt = fold (\<lambda>ev rt. snd (serve mux E ev rt)) evs rt"

section \<open>The sessions while the server works\<close>

abbreviation any_change :: "string set \<Rightarrow> ('m, 'r) server_db \<Rightarrow> ('m, 'r) server_db \<Rightarrow> bool" where
  "any_change \<equiv> session_change cdb_dev cdb_named any_invar"

text \<open>The handlers of a server with a database, and the patterns they are registered under.\<close>

definition wired_manager :: "('m, 'r) server_db JWTManager \<Rightarrow> bool" where
  "wired_manager m \<longleftrightarrow> manager_db m = CachedDB_methods any_SecretCache"

fun wired :: "Store \<Rightarrow> string \<times> (('m, 'r) server_db, 's, 'o) route \<Rightarrow> bool" where
  "wired st (p, HealthRoute) = (p = ''GET /health'')"
| "wired st (p, RefreshRoute h) = (p = ''POST /refresh'' \<and> wired_manager (refresh_jwtManager h)
     \<and> refresh_db h = CachedDB_DB any_SecretCache \<and> refresh_users h = Store_UsersDB st)"
| "wired st (p, RefreshAccessRoute h) = (p = ''POST /refresh-access'' \<and> wired_manager (refresh_jwtManager h)
     \<and> refresh_db h = CachedDB_DB any_SecretCache \<and> refresh_users h = Store_UsersDB st)"
| "wired st (p, VerifyRoute h) = (p = ''GET /verify'' \<and> wired_manager (session_jwtManager h))"
| "wired st (p, LogoutRoute h) = (p = ''POST /logout'' \<and> wired_manager (session_jwtManager h)
     \<and> session_db h = CachedDB_DB any_SecretCache)"
| "wired st (p, DeleteMeRoute h) = (p = ''DELETE /users/me'' \<and> wired_manager (session_jwtManager h)
     \<and> session_db h = CachedDB_DB any_SecretCache \<and> session_usersDB h = Store_UsersDB st)"
| "wired st (p, LoginRoute h) = (p = ''GET /login'')"
| "wired st (p, CallbackRoute h) = (p = ''GET /callback'' \<and> wired_manager (login_jwtManager h)
     \<and> login_db h = Some (CachedDB_DB any_SecretCache) \<and> login_users h = Store_UsersDB st)"

lemma server_wired:
  assumes "server_run P env o0 = Some (Inr srv, hooks, o1)" and "srv_db srv \<noteq> None"
  obtains st where "list_all (wired st) (srv_routes srv)"
proof -
  obtain cfg store life oc where routes: "srv_routes srv = RegisterRoutes (server_deps P cfg store oc)"
    and "srv_db srv = None \<longleftrightarrow> store = None" by (rule server_runE [OF assms(1)])
  with assms(2) obtain st x where "store = Some (st, x)" by (cases store) auto
  then have "list_all (wired st) (srv_routes srv)"
    by (auto simp: routes RegisterRoutes_def server_deps_def server_manager_def NewJWTManager_def wired_manager_def refresh_New_def session_New_def
        login_New_def Let_def split: option.splits)
  then show thesis by (rule that)
qed

text \<open>While the locker waits, other servers on the same database may serve requests of their own.\<close>

definition lockers_keep :: "string set \<Rightarrow> ('r, 'a, ('m, 'r) server_db, 's, 'o) surroundings \<Rightarrow> bool" where
  "lockers_keep S E \<longleftrightarrow>
     (\<forall>k q d e q' d'. any_invar d \<longrightarrow> WithContext (sr_refresh_locker E) k (q, d) = (e, q', d') \<longrightarrow> any_change S d d')
   \<and> (\<forall>k q w e q' w'. any_invar (lw_db w) \<longrightarrow> WithContext (sr_login_locker E) k (q, w) = (e, q', w') \<longrightarrow> any_change S (lw_db w) (lw_db w'))"

text \<open>The secrets drawn for logins are in \<open>S\<close>, and refresh tokens name devices as the database spells them.\<close>

definition event_ok :: "jwt_lib \<Rightarrow> (string \<Rightarrow> bool) \<Rightarrow> string set \<Rightarrow> http_event \<Rightarrow> bool" where
  "event_ok L nm S ev \<longleftrightarrow> (\<forall>t. FromRequest (ev_request ev) = Inr t \<longrightarrow> spelled L nm t)
     \<and> (ev_pattern ev = ''GET /callback'' \<longrightarrow> ev_random ev \<noteq> '''' \<and> generateDeviceSecret (ev_random ev) \<in> S)"

lemma with_db_world [simp]: "lw_db (rt_world (snd (with_db x rt))) = snd x" "fst (with_db x rt) = fst x"
  by (simp_all add: with_db_def)

lemma serve_route_change:
  assumes L: "jwt_laws (sr_jwt E)" and r: "wired st (ev_pattern ev, r)" and d: "any_invar (lw_db (rt_world rt))"
    and lk: "lockers_keep S E" and ev: "event_ok (sr_jwt E) (cdb_named (lw_db (rt_world rt))) S ev"
  shows "any_change S (lw_db (rt_world rt)) (lw_db (rt_world (snd (serve_route E ev r rt))))"
proof -
  let ?d = "lw_db (rt_world rt)"
  have t: "spelled (sr_jwt E) (cdb_named ?d) t" if "FromRequest (ev_request ev) = Inr t" for t
    using ev that by (simp add: event_ok_def)
  have lk1: "any_change S d d'" if "any_invar d" "WithContext (sr_refresh_locker E) k (q, d) = (e, q', d')" for k q d e q' d'
    using lk that unfolding lockers_keep_def by blast
  have lk2: "any_change S (lw_db w) (lw_db w')" if "any_invar (lw_db w)" "WithContext (sr_login_locker E) k (q, w) = (e, q', w')" for k q w e q' w'
    using lk that unfolding lockers_keep_def by blast
  show ?thesis
  proof (cases r)
    case (RefreshRoute h)
    obtain w g d' where run: "refresh_Refresh (sr_jwt E) (sr_pairs E) (sr_sum256 E) (sr_refresh_locker E) h (ev_clock ev) (ev_request ev) new_writer
        (rt_flight rt) ?d = (w, g, d')" by (metis prod.collapse)
    have h: "manager_db (refresh_jwtManager h) = CachedDB_methods any_SecretCache" "refresh_db h = CachedDB_DB any_SecretCache"
      "refresh_users h = Store_UsersDB st" using r RefreshRoute by (simp_all add: wired_manager_def)
    from any.handlers.refresh_change [OF L h d t lk1 run] show ?thesis by (simp add: RefreshRoute run)
  next
    case (RefreshAccessRoute h)
    have h: "manager_db (refresh_jwtManager h) = CachedDB_methods any_SecretCache" "refresh_db h = CachedDB_DB any_SecretCache"
      "refresh_users h = Store_UsersDB st" using r RefreshAccessRoute by (simp_all add: wired_manager_def)
    from any.handlers.refresh_access_change [OF L h d t surjective_pairing] show ?thesis by (simp add: RefreshAccessRoute)
  next
    case (VerifyRoute h)
    have h: "manager_db (session_jwtManager h) = CachedDB_methods any_SecretCache" using r VerifyRoute by (simp add: wired_manager_def)
    from any.handlers.verify_handler_change [OF h d surjective_pairing] show ?thesis by (simp add: VerifyRoute)
  next
    case (LogoutRoute h)
    have h: "session_db h = CachedDB_DB any_SecretCache" "manager_db (session_jwtManager h) = CachedDB_methods any_SecretCache"
      using r LogoutRoute by (simp_all add: wired_manager_def)
    from any.handlers.logout_change [OF L h d t surjective_pairing] show ?thesis by (simp add: LogoutRoute)
  next
    case (DeleteMeRoute h)
    have h: "session_db h = CachedDB_DB any_SecretCache" "session_usersDB h = Store_UsersDB st"
      "manager_db (session_jwtManager h) = CachedDB_methods any_SecretCache"
      using r DeleteMeRoute by (simp_all add: wired_manager_def)
    from any.handlers.delete_me_change [OF h d surjective_pairing] show ?thesis by (simp add: DeleteMeRoute)
  next
    case (LoginRoute h)
    obtain w s where run: "login_Login h (ev_verifier ev) (ev_random ev) new_writer (rt_world rt) = (w, s)" by fastforce
    then have "lw_db s = ?d" by (auto simp: login_Login_def Let_def split: prod.splits option.splits)
    with d show ?thesis by (simp add: LoginRoute run session_change_same)
  next
    case (CallbackRoute h)
    have h: "login_db h = Some (CachedDB_DB any_SecretCache)" "login_users h = Store_UsersDB st"
      "manager_db (login_jwtManager h) = CachedDB_methods any_SecretCache" using r CallbackRoute by (simp_all add: wired_manager_def)
    have b: "ev_random ev \<noteq> ''''" "generateDeviceSecret (ev_random ev) \<in> S" using ev r CallbackRoute by (simp_all add: event_ok_def)
    obtain w g s where run: "login_Callback (sr_jwt E) (sr_exchanges E) (sr_sum256 E) (sr_login_locker E) h (ev_clock ev) (ev_random ev) (ev_request ev)
        new_writer (rt_flight rt) (rt_world rt) = (w, g, s)" by (metis prod.collapse)
    from any.handlers.callback_change [OF h d b lk2 run] show ?thesis by (simp add: CallbackRoute run)
  qed (use d in \<open>simp add: session_change_same\<close>)
qed

lemma serve_change:
  assumes L: "jwt_laws (sr_jwt E)" and mux: "list_all (wired st) mux" and d: "any_invar (lw_db (rt_world rt))"
    and lk: "lockers_keep S E" and ev: "event_ok (sr_jwt E) (cdb_named (lw_db (rt_world rt))) S ev"
  shows "any_change S (lw_db (rt_world rt)) (lw_db (rt_world (snd (serve mux E ev rt))))"
proof (cases "map_of mux (ev_pattern ev)")
  case None
  with d show ?thesis by (simp add: serve_def session_change_same)
next
  case (Some r)
  with mux have "wired st (ev_pattern ev, r)" by (metis list_all_iff map_of_SomeD)
  from serve_route_change [OF L this d lk ev] Some show ?thesis by (simp add: serve_def)
qed

lemma serve_all_change:
  assumes L: "jwt_laws (sr_jwt E)" and mux: "list_all (wired st) mux" and d: "any_invar (lw_db (rt_world rt))"
    and lk: "lockers_keep S E" and evs: "list_all (event_ok (sr_jwt E) (cdb_named (lw_db (rt_world rt))) S) evs"
  shows "any_change S (lw_db (rt_world rt)) (lw_db (rt_world (serve_all mux E evs rt)))"
  using d evs
proof (induction evs arbitrary: rt)
  case Nil
  then show ?case by (simp add: serve_all_def session_change_same)
next
  case (Cons ev evs)
  let ?rt = "snd (serve mux E ev rt)"
  from Cons.prems have c: "any_change S (lw_db (rt_world rt)) (lw_db (rt_world ?rt))"
    by (intro serve_change [OF L mux _ lk]) simp_all
  from Cons.IH [of ?rt] Cons.prems session_changeD [OF c]
  have "any_change S (lw_db (rt_world ?rt)) (lw_db (rt_world (serve_all mux E evs ?rt)))" by simp
  with c show ?case by (simp add: serve_all_def) (rule session_change_trans)
qed

lemma refused_stays:
  assumes L: "jwt_laws (sr_jwt E)" and mux: "list_all (wired st) mux" and d: "any_invar (lw_db (rt_world rt))"
    and lk: "lockers_keep S E" and evs: "list_all (event_ok (sr_jwt E) (cdb_named (lw_db (rt_world rt))) S) evs"
    and t: "refused (sr_jwt E) (cdb_dev (lw_db (rt_world rt))) t" "\<And>sec c. sec \<in> S \<Longrightarrow> \<not> carries (sr_jwt E) t c sec"
  shows "any_invar (lw_db (rt_world (serve_all mux E evs rt)))
    \<and> cdb_named (lw_db (rt_world (serve_all mux E evs rt))) = cdb_named (lw_db (rt_world rt))
    \<and> refused (sr_jwt E) (cdb_dev (lw_db (rt_world (serve_all mux E evs rt)))) t"
proof -
  note c = serve_all_change [OF L mux d lk evs]
  from session_changeD [OF c] refused_change [OF c t] show ?thesis by simp
qed

text \<open>The answer to a refused token, by the pattern of the request.\<close>

definition presents :: "jwt_lib \<Rightarrow> http_event \<Rightarrow> string \<Rightarrow> bool" where
  "presents L ev t \<longleftrightarrow>
     (ev_pattern ev \<in> {''GET /verify'', ''DELETE /users/me''} \<and> bearerToken (lib_unicode L) (ev_request ev) = Some t)
   \<or> (ev_pattern ev = ''POST /refresh-access'' \<and> FromRequest (ev_request ev) = Inr t)"

lemma refused_answer:
  assumes L: "jwt_laws (sr_jwt E)" and mux: "list_all (wired st) mux" and d: "any_invar (lw_db (rt_world rt))"
    and t: "spelled (sr_jwt E) (cdb_named (lw_db (rt_world rt))) t" "refused (sr_jwt E) (cdb_dev (lw_db (rt_world rt))) t"
    and ev: "presents (sr_jwt E) ev t" "ev_pattern ev \<in> set (map fst mux)"
  shows "w_status (fst (serve mux E ev rt)) = Some StatusUnauthorized"
proof -
  let ?d = "lw_db (rt_world rt)"
  from ev(2) obtain r where r: "map_of mux (ev_pattern ev) = Some r" by (metis list.set_map map_of_eq_None_iff not_Some_eq)
  with mux have w: "wired st (ev_pattern ev, r)" by (metis list_all_iff map_of_SomeD)
  show ?thesis
  proof (cases r)
    case (VerifyRoute h)
    with w have m: "manager_db (session_jwtManager h) = CachedDB_methods any_SecretCache" and p: "ev_pattern ev = ''GET /verify''"
      by (simp_all add: wired_manager_def)
    obtain cl e d' where "VerifyAccess (sr_jwt E) (session_jwtManager h) (ev_clock ev 0) t ?d = ((cl, Some e), d')"
      by (rule any.cached.refused_access [OF L m d t])
    with ev(1) p r VerifyRoute show ?thesis by (simp add: serve_def presents_def session_Verify_def AuthErrorHeader_def)
  next
    case (DeleteMeRoute h)
    with w have m: "manager_db (session_jwtManager h) = CachedDB_methods any_SecretCache" and p: "ev_pattern ev = ''DELETE /users/me''"
      by (simp_all add: wired_manager_def)
    obtain cl e d' where "VerifyAccess (sr_jwt E) (session_jwtManager h) (ev_clock ev 0) t ?d = ((cl, Some e), d')"
      by (rule any.cached.refused_access [OF L m d t])
    with ev(1) p r DeleteMeRoute show ?thesis by (simp add: serve_def presents_def session_DeleteMe_def AuthErrorHeader_def)
  next
    case (RefreshAccessRoute h)
    with w have m: "manager_db (refresh_jwtManager h) = CachedDB_methods any_SecretCache" and p: "ev_pattern ev = ''POST /refresh-access''"
      by (simp_all add: wired_manager_def)
    obtain cl e d' where "VerifyRefresh (sr_jwt E) (refresh_jwtManager h) (ev_clock ev 0) t ?d = ((cl, Some e), d')"
      by (rule any.cached.refused_refresh [OF L m d t])
    with ev(1) p r RefreshAccessRoute show ?thesis by (simp add: serve_def presents_def refresh_RefreshAccess_def AuthErrorHeader_def)
  qed (use w ev(1) in \<open>simp_all add: presents_def\<close>)
qed

section \<open>Properties\<close>

text \<open>The state a server starts on.\<close>

definition started :: "('r, 'm, 'n, 'q, 'a, 'o, 'f) server \<Rightarrow> 'o \<Rightarrow> ('r, 'q, 'a, ('m, 'r) server_db, 'n memoryCache + 'r redisCache, 'o) runtime" where
  "started srv o1 = \<lparr>rt_flight = srv_flight srv, rt_world = \<lparr>lw_db = the (srv_db srv), lw_states = srv_states srv, lw_oauth = o1\<rparr>\<rparr>"

text \<open>
  The demo server: the requests of the witnesses, and a state of it with the device of \<open>demo_saved\<close>. The flight group keeps no results, and
  the locker never waits.
\<close>

definition no_results :: "'t \<Rightarrow> ('t, nat) result_type" where
  "no_results z = \<lparr>zero_result = z, to_any = (\<lambda>_. 0), from_any = (\<lambda>_. None), json_Marshal = (\<lambda>_. Inl ErrNoRows), json_Unmarshal = (\<lambda>_. Inl ErrNoRows)\<rparr>"

definition demo_surroundings :: "('r, nat, 'd, 's, 'o) surroundings" where
  "demo_surroundings = \<lparr>sr_jwt = demo_lib, sr_pairs = no_results zero_TokenPair, sr_exchanges = no_results (exchange_failure '''' 0), sr_sum256 = id,
     sr_refresh_locker = free_locker, sr_login_locker = free_locker, sr_not_found = new_writer\<rparr>"

definition demo_event :: "string \<Rightarrow> http_event" where
  "demo_event pat = \<lparr>ev_pattern = pat, ev_request = \<lparr>r_Cookies = [(CookieName, ''r1'')], r_Header = [(''Authorization'', ''Bearer a1'')],
     r_Body = Inl ErrNoRows, r_Query = [], r_UserAgent = ''''\<rparr>, ev_clock = (\<lambda>_. 0), ev_random = ''a'', ev_verifier = ''v''\<rparr>"

lemma demo_event_facts:
  "ev_pattern (demo_event pat) = pat" "ev_clock (demo_event pat) = (\<lambda>_. 0)" "FromRequest (ev_request (demo_event pat)) = Inr ''r1''"
  "bearerToken U (ev_request (demo_event pat)) = Some ''a1''"
  by (simp_all add: demo_event_def FromRequest_def bearerToken_def header_Get_def strings_EqualFold_def is_ascii_def ascii_lower_def byte_of_def)

lemma demo_lockers: "lockers_keep S demo_surroundings"
  by (simp add: lockers_keep_def demo_surroundings_def session_change_same)

lemma demo_spelled: "uuid_in (cdb_db d) = Some \<Longrightarrow> spelled L (cdb_named d) t"
  by (simp add: spelled_def cdb_named_def)

lemma demo_event_ok: "uuid_in (cdb_db d) = Some \<Longrightarrow> pat \<noteq> ''GET /callback'' \<Longrightarrow> event_ok L (cdb_named d) S (demo_event pat)"
  by (simp add: event_ok_def demo_event_facts demo_spelled)

lemma demo_jwt [simp]: "sr_jwt demo_surroundings = demo_lib"
  by (simp add: demo_surroundings_def)

lemma demo_uuid: "uuid_in (cdb_db (NewCachedDB demo_pg c)) = Some" "uuid_in (cdb_db (NewCachedDB demo_saved c)) = Some"
  by (simp_all add: NewCachedDB_def demo_pg_def demo_saved_def)

lemma demo_no_device: "cdb_dev (NewCachedDB demo_pg c) = Map.empty"
  by (simp add: cdb_dev_def NewCachedDB_def demo_pg_def device_at_def fun_eq_iff)

lemma demo_carried: "carries demo_lib t c key \<Longrightarrow> \<exists>ty g. token_identity c = Some (ty, ''d'', g)"
  by (auto simp: carries_def table_parse_Inr demo_table_def demo_token_def demo_refresh_def demo_access_def split: if_splits)

definition demo_runtime :: "('r, 'm, 'n, 'q, 'a, 'o, 'f) server \<Rightarrow> pg \<Rightarrow> 'm memorySecretCache \<Rightarrow> 'o
    \<Rightarrow> ('r, 'q, 'a, ('m, 'r) server_db, 'n memoryCache + 'r redisCache, 'o) runtime" where
  "demo_runtime srv p m o1 = started (srv\<lparr>srv_db := Some (NewCachedDB p (Inl m))\<rparr>) o1"

lemma demo_runtime_db [simp]: "lw_db (rt_world (demo_runtime srv p m o1)) = NewCachedDB p (Inl m)"
  by (simp add: demo_runtime_def started_def)

text \<open>
  C5. Requests make no session out of nothing. Whatever requests a started server serves, one after the other, the device cache stays
  coherent with the database, and every device found afterwards was there before under the same secret, at the
  same or an earlier generation, or has a secret that a login drew. This holds for every configuration with a database and
  over both kinds of cache, also when database calls fail (without effect); Redis is reachable. Refresh tokens name devices as the database
  spells them (\<open>event_ok\<close>), and other servers on the same database keep to the same changes (\<open>lockers_keep\<close>).
\<close>

theorem requests_keep_sessions:
  assumes "jwt_laws (sr_jwt E)" and "server_run P env o0 = Some (Inr srv, hooks, o1)" and "srv_db srv = Some d0" and "any_invar d0"
    and "lockers_keep S E" and "list_all (event_ok (sr_jwt E) (cdb_named d0) S) evs"
    and "d = lw_db (rt_world (serve_all (srv_routes srv) E evs (started srv o1)))"
  shows "any_invar d \<and> cdb_named d = cdb_named d0
    \<and> (\<forall>k sec g'. cdb_dev d k = Some (sec, g') \<longrightarrow> sec \<in> S \<or> (\<exists>g. cdb_dev d0 k = Some (sec, g) \<and> g \<le> g'))"
proof -
  from assms(3) have "srv_db srv \<noteq> None" by simp
  then obtain st where mux: "list_all (wired st) (srv_routes srv)" by (rule server_wired [OF assms(2)])
  have d0: "lw_db (rt_world (started srv o1)) = d0" by (simp add: started_def assms(3))
  from serve_all_change [OF assms(1) mux _ assms(5), of "started srv o1" evs] assms(4,6) show ?thesis
    by (simp add: d0 assms(7) session_change_def)
qed

theorem requests_keep_sessions_witness:
  "\<exists>srv hooks. server_run demo_platform shared_env 0 = Some (Inr srv, hooks, 0)
    \<and> cdb_dev (lw_db (rt_world (serve_all (srv_routes srv) demo_surroundings [demo_event ''POST /logout'', demo_event ''POST /refresh''] (started srv 0))))
        = Map.empty"
proof -
  obtain srv hooks h where run: "server_run demo_platform shared_env 0 = Some (Inr srv, hooks, 0)"
    and db: "srv_db srv = Some (NewCachedDB demo_pg (Inl demo_memory))" by (rule demo_server)
  let ?evs = "[demo_event ''POST /logout'', demo_event ''POST /refresh'']"
  let ?d = "lw_db (rt_world (serve_all (srv_routes srv) demo_surroundings ?evs (started srv 0)))"
  have evs: "list_all (event_ok (sr_jwt demo_surroundings) (cdb_named (NewCachedDB demo_pg (Inl demo_memory))) {}) ?evs"
    by (simp add: demo_event_ok [OF demo_uuid(1)])
  have L: "jwt_laws (sr_jwt demo_surroundings)" by (simp add: demo_lib_laws)
  from requests_keep_sessions [OF L run db demo_any_invar(1) demo_lockers evs refl]
  have "cdb_dev ?d = Map.empty" by (auto simp: demo_no_device fun_eq_iff) (metis not_None_eq surj_pair)
  with run show ?thesis by blast
qed

text \<open>
  C4. A token that is refused stays refused. Once the device a token names is gone or has moved on to a later generation (after a
  rotation, a logout, the deletion of the account, or a detected reuse), then whatever requests the server serves, \<^verbatim>\<open>/verify\<close>,
  \<^verbatim>\<open>DELETE /users/me\<close> and \<^verbatim>\<open>/refresh-access\<close> answer 401 to it, as long as no login draws a secret under which it happens to
  verify. As in C5, database calls may fail without effect, and Redis, if it is the cache, can be reached (\<open>any_invar\<close>, and \<open>lockers_keep\<close> for
  what other processes do while a lock is waited for).
\<close>

theorem revoked_token_stays_revoked:
  assumes "jwt_laws (sr_jwt E)" and "server_run P env o0 = Some (Inr srv, hooks, o1)" and "srv_db srv \<noteq> None"
    and "any_invar (lw_db (rt_world rt))" and "spelled (sr_jwt E) (cdb_named (lw_db (rt_world rt))) t"
    and "refused (sr_jwt E) (cdb_dev (lw_db (rt_world rt))) t"
    and "lockers_keep S E" and "list_all (event_ok (sr_jwt E) (cdb_named (lw_db (rt_world rt))) S) evs"
    and "\<And>sec c. sec \<in> S \<Longrightarrow> \<not> carries (sr_jwt E) t c sec"
    and "presents (sr_jwt E) ev t" and "ev_pattern ev \<in> set (map fst (srv_routes srv))"
  shows "w_status (fst (serve (srv_routes srv) E ev (serve_all (srv_routes srv) E evs rt))) = Some StatusUnauthorized"
proof -
  obtain st where mux: "list_all (wired st) (srv_routes srv)" using assms(3) by (rule server_wired [OF assms(2)])
  from refused_stays [OF assms(1) mux assms(4,7,8,6,9)] assms(5) show ?thesis
    by (intro refused_answer [OF assms(1) mux _ _ _ assms(10,11)]) simp_all
qed

theorem revoked_token_stays_revoked_witness:
  "\<exists>srv hooks. server_run demo_platform shared_env 0 = Some (Inr srv, hooks, 0)
    \<and> w_status (fst (serve (srv_routes srv) demo_surroundings (demo_event ''GET /verify'')
        (serve_all (srv_routes srv) demo_surroundings [demo_event ''POST /refresh''] (started srv 0)))) = Some StatusUnauthorized"
proof -
  obtain srv hooks h where run: "server_run demo_platform shared_env 0 = Some (Inr srv, hooks, 0)"
    and db: "srv_db srv = Some (NewCachedDB demo_pg (Inl demo_memory))" and mux: "''GET /verify'' \<in> set (map fst (srv_routes srv))"
    by (rule demo_server)
  have st: "lw_db (rt_world (started srv 0)) = NewCachedDB demo_pg (Inl demo_memory)" by (simp add: started_def db)
  have "w_status (fst (serve (srv_routes srv) demo_surroundings (demo_event ''GET /verify'')
      (serve_all (srv_routes srv) demo_surroundings [demo_event ''POST /refresh''] (started srv 0)))) = Some StatusUnauthorized"
  proof (rule revoked_token_stays_revoked [OF _ run, where t = "''a1''" and S = "{}"])
    show "refused (sr_jwt demo_surroundings) (cdb_dev (lw_db (rt_world (started srv 0)))) ''a1''"
      by (simp add: st demo_no_device refused_def)
  qed (use mux in \<open>simp_all add: st db demo_lib_laws demo_any_invar demo_lockers demo_event_ok demo_spelled demo_uuid presents_def demo_event_facts\<close>)
  with run show ?thesis by blast
qed

text \<open>
  C2. A session that was logged out never comes back. After \<^verbatim>\<open>/logout\<close> with a valid refresh token of the device's owner, if the \<^verbatim>\<open>DELETE\<close>
  it sent to the database reported no error, every access and refresh token of that device, however many were handed out and whatever their dates, is answered 401 by
  \<^verbatim>\<open>/verify\<close>, \<^verbatim>\<open>DELETE /users/me\<close> and \<^verbatim>\<open>/refresh-access\<close>, at once and after any further requests, logins of the same user included, and whether or
  not later database calls fail. (When the \<^verbatim>\<open>DELETE\<close> fails, \<^verbatim>\<open>/logout\<close> answers 200 as well and the session stays: see C15.) As everywhere under
  \<open>any_invar\<close>, a database call that reports an error took no effect, and Redis, if it is the cache, can be reached; when Redis loses the
  tombstone of the deleted device, \<^verbatim>\<open>DeleteSecret\<close> says nothing and a cached secret keeps answering for up to five minutes. The secrets that
  later logins draw differ from the device's, and refresh tokens name devices as the database spells them (\<open>event_ok\<close>).
\<close>

theorem logged_out_session_never_returns:
  assumes "jwt_laws (sr_jwt E)" and "server_run P env o0 = Some (Inr srv, hooks, o1)" and "srv_db srv \<noteq> None"
    and "map_of (srv_routes srv) ''POST /logout'' = Some (LogoutRoute h)"
    and "any_invar (lw_db (rt_world rt))"
    and "DeleteDevice (session_db h) (Subject (rf_Registered cl)) (rf_DeviceID cl) d1 = (None, d2)"
    and "ev_pattern out = ''POST /logout''" and "FromRequest (ev_request out) = Inr s"
    and "VerifyRefresh (sr_jwt E) (session_jwtManager h) (ev_clock out 0) s (lw_db (rt_world rt)) = ((cl, None), d1)"
    and "cdb_named (lw_db (rt_world rt)) (rf_DeviceID cl)"
    and "cdb_owner (lw_db (rt_world rt)) (Subject (rf_Registered cl)) (rf_DeviceID cl)"
    and "lockers_keep S E" and "list_all (event_ok (sr_jwt E) (cdb_named (lw_db (rt_world rt))) S) evs"
    and "\<And>c key. carries (sr_jwt E) t c key \<Longrightarrow> key \<notin> S \<and> (\<exists>ty g. token_identity c = Some (ty, rf_DeviceID cl, g))"
    and "presents (sr_jwt E) ev t" and "ev_pattern ev \<in> set (map fst (srv_routes srv))"
  shows "w_status (fst (serve (srv_routes srv) E ev (serve_all (srv_routes srv) E (out # evs) rt))) = Some StatusUnauthorized"
proof -
  let ?k = "rf_DeviceID cl" and ?rt = "snd (serve (srv_routes srv) E out rt)"
  obtain st where mux: "list_all (wired st) (srv_routes srv)" using assms(3) by (rule server_wired [OF assms(2)])
  from bspec [OF mux [unfolded list_all_iff] map_of_SomeD [OF assms(4)]]
  have h: "session_db h = CachedDB_DB any_SecretCache" "manager_db (session_jwtManager h) = CachedDB_methods any_SecretCache"
    by (simp_all add: wired_manager_def)
  obtain w d' where run: "session_Logout (sr_jwt E) h (ev_clock out) (ev_request out) new_writer (lw_db (rt_world rt)) = (w, d')" by fastforce
  from any.sessions.logout_step [OF h assms(5,8,9,10,6) run] assms(11)
  have rt: "any_invar (lw_db (rt_world ?rt))" "cdb_named (lw_db (rt_world ?rt)) = cdb_named (lw_db (rt_world rt))"
    "cdb_dev (lw_db (rt_world ?rt)) ?k = None" by (simp_all add: serve_def assms(4,7) run)
  have t: "refused (sr_jwt E) (cdb_dev (lw_db (rt_world ?rt))) t" "spelled (sr_jwt E) (cdb_named (lw_db (rt_world ?rt))) t"
    using assms(10,14) rt(2,3) by (fastforce simp: refused_def spelled_def)+
  have evs: "list_all (event_ok (sr_jwt E) (cdb_named (lw_db (rt_world ?rt))) S) evs" using assms(13) rt(2) by simp
  have "\<not> carries (sr_jwt E) t c sec" if "sec \<in> S" for sec c using assms(14) that by blast
  note after = refused_stays [OF assms(1) mux rt(1) assms(12) evs t(1) this]
  have all: "serve_all (srv_routes srv) E (out # evs) rt = serve_all (srv_routes srv) E evs ?rt" by (simp add: serve_all_def)
  show ?thesis
    unfolding all by (rule refused_answer [OF assms(1) mux _ _ _ assms(15,16)]) (use after t(2) in simp_all)
qed

theorem logged_out_session_never_returns_witness:
  "\<exists>srv hooks. server_run demo_platform shared_env 0 = Some (Inr srv, hooks, 0)
    \<and> w_status (fst (serve (srv_routes srv) demo_surroundings (demo_event ''GET /verify'')
        (serve_all (srv_routes srv) demo_surroundings [demo_event ''POST /logout'', demo_event ''POST /refresh'']
          (demo_runtime srv demo_saved demo_memory 0)))) = Some StatusUnauthorized"
proof -
  let ?d = demo_db
  obtain srv hooks h where run: "server_run demo_platform shared_env 0 = Some (Inr srv, hooks, 0)"
    and db: "srv_db srv = Some (NewCachedDB demo_pg (Inl demo_memory))" and h: "map_of (srv_routes srv) ''POST /logout'' = Some (LogoutRoute h)"
    and m: "parserOptions (session_jwtManager h) = []" "manager_db (session_jwtManager h) = CachedDB_methods any_SecretCache"
    and s: "session_db h = CachedDB_DB any_SecretCache" and mux: "''GET /verify'' \<in> set (map fst (srv_routes srv))" by (rule demo_server)
  have valid: "claims_valid (parserOptions (session_jwtManager h)) 0 (claims_registered (RefreshClaimsOf (demo_refresh 1)))"
    using demo_valid_now(2) [where SC = any_SecretCache] by (simp add: m demo_manager_facts)
  obtain d1 where v: "VerifyRefresh demo_lib (session_jwtManager h) 0 ''r1'' ?d = ((demo_refresh 1, None), d1)"
    and d1: "any_invar d1" "cdb_up d1" "cdb_named d1 = cdb_named ?d"
    by (rule any.cached.verify_current [OF demo_lib_laws m(2) demo_any_invar(2) demo_saved_facts(1) demo_carries(1) demo_identity(2) demo_saved_facts(3)
        demo_identity(4) valid]) (auto simp: VerifyRefresh_def)
  have nm: "cdb_named d1 ''d''" using demo_db_facts(2) by (simp add: d1(3))
  obtain d2 where del: "DeleteDevice (session_db h) ''a@x'' ''d'' d1 = (None, d2)"
    using any.sessions.del_up [OF d1(1) nm d1(2), of "''a@x''"] unfolding s by (metis prod.collapse)
  have dev: "rf_DeviceID (demo_refresh 1) = ''d''" "Subject (rf_Registered (demo_refresh 1)) = ''a@x''"
    by (simp_all add: demo_refresh_def demo_registered_def)
  have "w_status (fst (serve (srv_routes srv) demo_surroundings (demo_event ''GET /verify'')
      (serve_all (srv_routes srv) demo_surroundings [demo_event ''POST /logout'', demo_event ''POST /refresh'']
        (demo_runtime srv demo_saved demo_memory 0)))) = Some StatusUnauthorized"
    by (rule logged_out_session_never_returns [OF _ run _ h, where t = "''a1''" and S = "{}" and s = "''r1''" and cl = "demo_refresh 1" and ?d1.0 = d1 and ?d2.0 = d2])
      (use mux v del demo_carried in \<open>simp_all add: db demo_lib_laws demo_any_invar demo_lockers demo_event_ok demo_spelled demo_uuid presents_def
        demo_event_facts demo_saved_facts dev\<close>)
  with run show ?thesis by blast
qed

end
