(* ===== verification/Url.thy ===== *)
theory Url
  imports Encodings "HOL-Library.List_Lexorder"
begin

text \<open>
  What \<^verbatim>\<open>server/test-provider/main.go\<close> uses of \<^verbatim>\<open>net/url\<close>: percent encoding of query components, \<^verbatim>\<open>url.Values\<close> as the list of its pairs (the pairs
  of one key in the order of its values), its encoding sorted by key, and the reading of a query. Parsing an URL is a parameter of the functions that
  need it; a parsed URL is what comes before the query, the query, and what comes after it. Reading back an encoded query is proved to give the same
  values.
\<close>

section \<open>Percent encoding\<close>

definition unreserved :: "char \<Rightarrow> bool" where
  "unreserved c =
     (let b = byte_of c
      in 48 \<le> b \<and> b \<le> 57 \<or> 65 \<le> b \<and> b \<le> 90 \<or> 97 \<le> b \<and> b \<le> 122 \<or> b = 45 \<or> b = 95 \<or> b = 46 \<or> b = 126)"

definition upper_hex :: "nat \<Rightarrow> char" where
  "upper_hex n = (if n < 10 then char_of (48 + n) else char_of (55 + n))"

definition escape_char :: "char \<Rightarrow> string" where
  "escape_char c =
     (if unreserved c then [c] else if c = CHR '' '' then ''+''
      else [CHR ''%'', upper_hex (byte_of c div 16), upper_hex (byte_of c mod 16)])"

definition QueryEscape :: "string \<Rightarrow> string" where
  "QueryEscape s = concat (map escape_char s)"

definition unhex :: "char \<Rightarrow> nat option" where
  "unhex c =
     (let b = byte_of c
      in if 48 \<le> b \<and> b \<le> 57 then Some (b - 48) else if 97 \<le> b \<and> b \<le> 102 then Some (b - 87)
         else if 65 \<le> b \<and> b \<le> 70 then Some (b - 55) else None)"

fun QueryUnescape :: "string \<Rightarrow> string option" where
  "QueryUnescape [] = Some []"
| "QueryUnescape (c # s) =
     (if c = CHR ''%''
      then (case s of
          a # b # rest \<Rightarrow>
            (case (unhex a, unhex b) of
               (Some x, Some y) \<Rightarrow> map_option (Cons (char_of (x * 16 + y))) (QueryUnescape rest)
             | _ \<Rightarrow> None)
        | _ \<Rightarrow> None)
      else map_option (Cons (if c = CHR ''+'' then CHR '' '' else c)) (QueryUnescape s))"

section \<open>\<^verbatim>\<open>url.Values\<close>\<close>

type_synonym url_Values = "(string \<times> string) list"

definition Values_Get :: "url_Values \<Rightarrow> string \<Rightarrow> string" where
  "Values_Get vs k = (case map_of vs k of None \<Rightarrow> '''' | Some v \<Rightarrow> v)"

definition Values_Set :: "string \<Rightarrow> string \<Rightarrow> url_Values \<Rightarrow> url_Values" where
  "Values_Set k v vs = (k, v) # filter (\<lambda>x. fst x \<noteq> k) vs"

definition encode_pair :: "string \<times> string \<Rightarrow> string" where
  "encode_pair x = QueryEscape (fst x) @ ''='' @ QueryEscape (snd x)"

fun strings_Join :: "string list \<Rightarrow> string \<Rightarrow> string" where
  "strings_Join [] sep = []"
| "strings_Join [s] sep = s"
| "strings_Join (s # ss) sep = s @ sep @ strings_Join ss sep"

definition Values_Encode :: "url_Values \<Rightarrow> string" where
  "Values_Encode vs = strings_Join (map encode_pair (sort_key (\<lambda>x. map byte_of (fst x)) vs)) ''&''"

text \<open>A pair that does not decode is left out, as \<^verbatim>\<open>URL.Query\<close> does with its error ignored.\<close>

definition decode_pair :: "string \<Rightarrow> (string \<times> string) option" where
  "decode_pair piece =
     (if piece = '''' \<or> CHR '';'' \<in> set piece then None
      else case strings_Cut piece ''='' of
        (k, v, _) \<Rightarrow>
          (case (QueryUnescape k, QueryUnescape v) of (Some k', Some v') \<Rightarrow> Some (k', v') | _ \<Rightarrow> None))"

definition ParseQuery :: "string \<Rightarrow> url_Values" where
  "ParseQuery query = List.map_filter decode_pair (strings_Split query CHR ''&'')"

record url =
  url_Prefix :: string
  RawQuery :: string
  url_Suffix :: string

definition URL_Query :: "url \<Rightarrow> url_Values" where
  "URL_Query u = ParseQuery (RawQuery u)"

definition URL_String :: "url \<Rightarrow> string" where
  "URL_String u = url_Prefix u @ (if RawQuery u = '''' then '''' else ''?'' @ RawQuery u) @ url_Suffix u"

section \<open>Reading back\<close>

lemma unhex_upper: "n < 16 \<Longrightarrow> unhex (upper_hex n) = Some n"
  by (auto simp: unhex_def upper_hex_def byte_of_def)

lemma escaped_bytes:
  assumes "c \<in> set (QueryEscape s)"
  shows "unreserved c \<or> c = CHR ''+'' \<or> c = CHR ''%''"
proof -
  have hex: "unreserved (upper_hex n)" if "n < 16" for n
    using that by (auto simp: unreserved_def upper_hex_def byte_of_def)
  have "unreserved (upper_hex (byte_of x div 16))" "unreserved (upper_hex (byte_of x mod 16))" for x
    by (rule hex, use byte_bound [of x] in simp)+
  with assms show ?thesis by (auto simp: QueryEscape_def escape_char_def split: if_splits)
qed

lemma escaped_free: "CHR ''&'' \<notin> set (QueryEscape s)" "CHR ''='' \<notin> set (QueryEscape s)" "CHR '';'' \<notin> set (QueryEscape s)"
  using escaped_bytes [of _ s] by (fastforce simp: unreserved_def byte_of_def)+

lemma unescape_char: "QueryUnescape (escape_char c @ s) = map_option (Cons c) (QueryUnescape s)"
proof -
  have plain: "c \<noteq> CHR ''%'' \<and> c \<noteq> CHR ''+''" if "unreserved c" using that by (auto simp: unreserved_def byte_of_def)
  have "byte_of c div 16 < 16" "byte_of c mod 16 < 16" "byte_of c div 16 * 16 + byte_of c mod 16 = byte_of c"
    using byte_bound [of c] by auto
  with plain show ?thesis by (auto simp: escape_char_def unhex_upper char_byte)
qed

lemma QueryUnescape_escape: "QueryUnescape (QueryEscape s) = Some s"
  by (induction s) (simp_all add: QueryEscape_def unescape_char del: QueryUnescape.simps(2))

lemma decode_encode_pair: "decode_pair (encode_pair x) = Some x"
proof -
  have cut: "strings_Cut (encode_pair x) ''='' = (QueryEscape (fst x), QueryEscape (snd x), True)"
    using strings_Cut_append [OF escaped_free(2), of "fst x" "QueryEscape (snd x)"] by (simp add: encode_pair_def)
  have "CHR '';'' \<notin> set (encode_pair x)" using escaped_free(3) by (simp add: encode_pair_def)
  with cut show ?thesis by (simp add: decode_pair_def QueryUnescape_escape encode_pair_def)
qed

lemma Split_Join:
  "(\<And>s. s \<in> set ss \<Longrightarrow> c \<notin> set s) \<Longrightarrow> strings_Split (strings_Join ss [c]) c = (if ss = [] then [[]] else ss)"
proof (induction ss "[c]" rule: strings_Join.induct)
  case (3 s t ss)
  then show ?case by (simp add: strings_Split_append)
qed (auto simp: strings_Split_absent)

lemma ParseQuery_Encode: "ParseQuery (Values_Encode vs) = sort_key (\<lambda>x. map byte_of (fst x)) vs"
proof -
  let ?xs = "sort_key (\<lambda>x. map byte_of (fst x)) vs"
  have "CHR ''&'' \<notin> set (encode_pair x)" for x using escaped_free(1) by (simp add: encode_pair_def)
  then have "strings_Split (Values_Encode vs) CHR ''&'' = (if ?xs = [] then [[]] else map encode_pair ?xs)"
    unfolding Values_Encode_def by (subst Split_Join) auto
  moreover have "List.map_filter decode_pair (map encode_pair xs) = xs" for xs
    by (induction xs) (simp_all add: decode_encode_pair)
  moreover have "List.map_filter decode_pair [[]] = []" by (simp add: decode_pair_def)
  ultimately show ?thesis by (auto simp: ParseQuery_def)
qed

lemma map_of_filter_eq: "map_of (filter (\<lambda>x. f (fst x) = f k) xs) k = map_of xs k"
  by (induction xs) auto

lemma map_of_sort: "map_of (sort_key (\<lambda>x. f (fst x)) xs) k = map_of xs k"
  using map_of_filter_eq [of f k "sort_key (\<lambda>x. f (fst x)) xs"] map_of_filter_eq [of f k xs]
  by (simp add: sort_key_stable)

lemma Get_ParseQuery_Encode: "Values_Get (ParseQuery (Values_Encode vs)) k = Values_Get vs k"
  by (simp add: ParseQuery_Encode Values_Get_def map_of_sort)

lemma Get_Set [simp]: "Values_Get (Values_Set k v vs) j = (if j = k then v else Values_Get vs j)"
proof -
  have "map_of (filter (\<lambda>x. fst x \<noteq> k) vs) j = map_of vs j" if "j \<noteq> k" using that by (induction vs) auto
  then show ?thesis by (simp add: Values_Get_def Values_Set_def)
qed

end
