(* ===== verification/Test_Provider.thy ===== *)
theory Test_Provider
  imports Url Http OAuth_Client Config
begin

text \<open>
  \<^verbatim>\<open>server/test-provider/main.go\<close>: the stand-in OpenID Connect provider the server is run against. Its package variables are read
  from the environment once (\<open>provider_start\<close>); the store of pending codes is the state the handlers share, each access under the mutex.
  \<open>provider_lib\<close> holds what the program takes from libraries: SHA-256, the text \<^verbatim>\<open>encoding/json/v2\<close> writes for a document, and
  \<^verbatim>\<open>url.Parse\<close>. Random bytes and clock readings are arguments. A request is the query it carries, or the form \<^verbatim>\<open>ParseForm\<close> makes
  of it. \<^verbatim>\<open>http.Redirect\<close> is given an URL with a scheme; how the library resolves others against the request's path is not modelled, nor is
  the serving loop of \<^verbatim>\<open>main\<close>.

  An authorization code is redeemed at most once, within five minutes, and only by who holds the verifier of its challenge; and what the provider hands
  out is what the server's own client (\<open>Oidc\<close>) accepts.
\<close>

section \<open>State\<close>

definition getenv :: "environment \<Rightarrow> string \<Rightarrow> string \<Rightarrow> string" where
  "getenv env key fallback = (let v = env key in if v \<noteq> '''' then v else fallback)"

record pendingCode =
  pending_challenge :: string
  pending_expiresAt :: time

record test_provider =
  tp_issuer :: string
  listenAddr :: string
  userSub :: string
  userEmail :: string
  userName :: string
  codeStore :: "string \<rightharpoonup> pendingCode"

definition provider_start :: "environment \<Rightarrow> test_provider" where
  "provider_start env =
     \<lparr>tp_issuer = getenv env ''ISSUER_URL'' ''http://test-provider:5556'',
      listenAddr = getenv env ''LISTEN_ADDR'' '':5556'',
      userSub = getenv env ''USER_SUB'' ''test-user-001'',
      userEmail = getenv env ''USER_EMAIL'' ''user@example.com'',
      userName = getenv env ''USER_NAME'' ''Test User'',
      codeStore = Map.empty\<rparr>"

record provider_lib =
  sum256 :: "string \<Rightarrow> string"
  json_text :: "json \<Rightarrow> string"
  url_Parse :: "string \<Rightarrow> go_error + url"

section \<open>Helpers\<close>

definition randomToken :: "string \<Rightarrow> string" where
  "randomToken b = base64_RawURLEncoding b"

definition pkceOK :: "provider_lib \<Rightarrow> string \<Rightarrow> string \<Rightarrow> bool" where
  "pkceOK L verifier challenge \<longleftrightarrow> base64_RawURLEncoding (sum256 L verifier) = challenge"

text \<open>\<^verbatim>\<open>time.Time.Unix\<close>, \<^verbatim>\<open>http.Error\<close>, \<^verbatim>\<open>http.Redirect\<close>.\<close>

definition time_Unix :: "time \<Rightarrow> int" where
  "time_Unix t = t div Second"

definition http_Error :: "string \<Rightarrow> int \<Rightarrow> ResponseWriter \<Rightarrow> ResponseWriter" where
  "http_Error msg code w =
     (WriteHeader code (header_Set ''X-Content-Type-Options'' ''nosniff'' (header_Set ''Content-Type'' ''text/plain; charset=utf-8'' w)))
       \<lparr>w_body := Some (RawBody (msg @ [CHR 0x0A]))\<rparr>"

definition http_Redirect :: "string \<Rightarrow> int \<Rightarrow> ResponseWriter \<Rightarrow> ResponseWriter" where
  "http_Redirect target code w = WriteHeader code (header_Set ''Location'' target w)"

definition writeJSON :: "provider_lib \<Rightarrow> json \<Rightarrow> ResponseWriter \<Rightarrow> ResponseWriter" where
  "writeJSON L v w =
     (WriteHeader StatusOK (header_Set ''Content-Type'' ''application/json'' w))\<lparr>w_body := Some (RawBody (json_text L v))\<rparr>"

definition id_claims :: "clock \<Rightarrow> test_provider \<Rightarrow> json" where
  "id_claims clk tp = JObject
     [(''iss'', JString (tp_issuer tp)),
      (''sub'', JString (userSub tp)),
      (''email'', JString (userEmail tp)),
      (''email_verified'', JBool True),
      (''name'', JString (userName tp)),
      (''aud'', JString ''corvauth''),
      (''iat'', JNumber (time_Unix (clk 0))),
      (''exp'', JNumber (time_Unix (clk 1 + Hour)))]"

definition buildIDToken :: "provider_lib \<Rightarrow> clock \<Rightarrow> test_provider \<Rightarrow> string" where
  "buildIDToken L clk tp =
     (let header = base64_RawURLEncoding ''{\"alg\":\"none\",\"typ\":\"JWT\"}'';
          payload = json_text L (id_claims clk tp)
      in header @ ''.'' @ base64_RawURLEncoding payload @ ''.'')"

section \<open>Handlers\<close>

definition discovery_document :: "test_provider \<Rightarrow> json" where
  "discovery_document tp = JObject
     [(''issuer'', JString (tp_issuer tp)),
      (''authorization_endpoint'', JString (tp_issuer tp @ ''/auth'')),
      (''token_endpoint'', JString (tp_issuer tp @ ''/token'')),
      (''userinfo_endpoint'', JString (tp_issuer tp @ ''/userinfo'')),
      (''response_types_supported'', JArray [JString ''code'']),
      (''subject_types_supported'', JArray [JString ''public'']),
      (''id_token_signing_alg_values_supported'', JArray [JString ''none'']),
      (''scopes_supported'', JArray [JString ''openid'', JString ''profile'', JString ''email'']),
      (''code_challenge_methods_supported'', JArray [JString ''S256'']),
      (''authorization_response_iss_parameter_supported'', JBool True)]"

definition handleDiscovery :: "provider_lib \<Rightarrow> test_provider \<Rightarrow> ResponseWriter \<Rightarrow> ResponseWriter" where
  "handleDiscovery L tp w = writeJSON L (discovery_document tp) w"

definition handleAuth ::
  "provider_lib \<Rightarrow> string \<Rightarrow> time \<Rightarrow> url_Values \<Rightarrow> ResponseWriter \<Rightarrow> test_provider \<Rightarrow> ResponseWriter \<times> test_provider" where
  "handleAuth L b now q w tp =
     (let redirectURI = Values_Get q ''redirect_uri'';
          state = Values_Get q ''state'';
          challenge = Values_Get q ''code_challenge''
      in if redirectURI = '''' then (http_Error ''missing redirect_uri'' StatusBadRequest w, tp)
         else
           (let code = randomToken b;
                tp1 = tp\<lparr>codeStore := (codeStore tp)(code \<mapsto> \<lparr>pending_challenge = challenge, pending_expiresAt = now + 5 * Minute\<rparr>)\<rparr>
            in case url_Parse L redirectURI of
                 Inl err \<Rightarrow> (http_Error ''invalid redirect_uri'' StatusBadRequest w, tp1)
               | Inr u \<Rightarrow>
                   (let params = Values_Set ''iss'' (tp_issuer tp) (Values_Set ''code'' code (URL_Query u));
                        params1 = (if state \<noteq> '''' then Values_Set ''state'' state params else params);
                        u1 = u\<lparr>RawQuery := Values_Encode params1\<rparr>
                    in (http_Redirect (URL_String u1) StatusFound w, tp1))))"

text \<open>The clock is read for the expiry of the code, then by \<^verbatim>\<open>buildIDToken\<close>.\<close>

definition handleToken ::
  "provider_lib \<Rightarrow> string \<Rightarrow> clock \<Rightarrow> go_error + url_Values \<Rightarrow> ResponseWriter \<Rightarrow> test_provider \<Rightarrow> ResponseWriter \<times> test_provider" where
  "handleToken L b clk form w tp =
     (case form of
        Inl err \<Rightarrow> (http_Error ''{\"error\":\"invalid_request\"}'' StatusBadRequest w, tp)
      | Inr f \<Rightarrow>
          (let code = Values_Get f ''code'';
               verifier = Values_Get f ''code_verifier'';
               pending = codeStore tp code;
               tp1 = (if pending \<noteq> None then tp\<lparr>codeStore := (codeStore tp)(code := None)\<rparr> else tp)
           in case pending of
                None \<Rightarrow> (http_Error ''{\"error\":\"invalid_grant\"}'' StatusBadRequest w, tp1)
              | Some p \<Rightarrow>
                  if clk 0 > pending_expiresAt p then (http_Error ''{\"error\":\"invalid_grant\"}'' StatusBadRequest w, tp1)
                  else if pending_challenge p \<noteq> '''' \<and> \<not> pkceOK L verifier (pending_challenge p)
                  then (http_Error ''{\"error\":\"invalid_grant\",\"error_description\":\"pkce verification failed\"}'' StatusBadRequest w, tp1)
                  else (writeJSON L (JObject
                         [(''access_token'', JString (randomToken b)),
                          (''token_type'', JString ''Bearer''),
                          (''expires_in'', JNumber 3600),
                          (''id_token'', JString (buildIDToken L (later 1 clk) tp1))]) w, tp1)))"

definition userinfo_document :: "test_provider \<Rightarrow> json" where
  "userinfo_document tp = JObject
     [(''sub'', JString (userSub tp)),
      (''email'', JString (userEmail tp)),
      (''email_verified'', JBool True),
      (''name'', JString (userName tp))]"

definition handleUserinfo :: "provider_lib \<Rightarrow> test_provider \<Rightarrow> ResponseWriter \<Rightarrow> ResponseWriter" where
  "handleUserinfo L tp w = writeJSON L (userinfo_document tp) w"

text \<open>\<^verbatim>\<open>main\<close>: the routes, and one request after the other.\<close>

datatype provider_route = DiscoveryRoute | AuthRoute | TokenRoute | UserinfoRoute

definition provider_routes :: "(string \<times> provider_route) list" where
  "provider_routes = [(''GET /.well-known/openid-configuration'', DiscoveryRoute), (''GET /auth'', AuthRoute),
     (''POST /token'', TokenRoute), (''GET /userinfo'', UserinfoRoute)]"

datatype provider_request =
    DiscoveryRequest
  | AuthRequest string time url_Values
  | TokenRequest string clock "go_error + url_Values"
  | UserinfoRequest

fun provider_serve :: "provider_lib \<Rightarrow> provider_request \<Rightarrow> test_provider \<Rightarrow> ResponseWriter \<times> test_provider" where
  "provider_serve L DiscoveryRequest tp = (handleDiscovery L tp new_writer, tp)"
| "provider_serve L (AuthRequest b now q) tp = handleAuth L b now q new_writer tp"
| "provider_serve L (TokenRequest b clk form) tp = handleToken L b clk form new_writer tp"
| "provider_serve L UserinfoRequest tp = (handleUserinfo L tp new_writer, tp)"

fun provider_run :: "provider_lib \<Rightarrow> provider_request list \<Rightarrow> test_provider \<Rightarrow> test_provider" where
  "provider_run L [] tp = tp"
| "provider_run L (r # rs) tp = provider_run L rs (snd (provider_serve L r tp))"

section \<open>The store of codes\<close>

text \<open>The code a request asks the provider to issue, or presents.\<close>

fun issued :: "provider_request \<Rightarrow> string option" where
  "issued (AuthRequest b now q) = (if Values_Get q ''redirect_uri'' = '''' then None else Some (randomToken b))"
| "issued _ = None"

fun presented :: "provider_request \<Rightarrow> string option" where
  "presented (TokenRequest b clk (Inr f)) = Some (Values_Get f ''code'')"
| "presented _ = None"

lemma handleAuth_state:
  "snd (handleAuth L b now q w tp) =
    (if Values_Get q ''redirect_uri'' = '''' then tp
     else tp\<lparr>codeStore := (codeStore tp)(randomToken b \<mapsto>
       \<lparr>pending_challenge = Values_Get q ''code_challenge'', pending_expiresAt = now + 5 * Minute\<rparr>)\<rparr>)"
  by (simp add: handleAuth_def Let_def split: sum.splits)

lemma handleToken_state:
  "snd (handleToken L b clk (Inr f) w tp) = tp\<lparr>codeStore := (codeStore tp)(Values_Get f ''code'' := None)\<rparr>"
  by (auto simp: handleToken_def Let_def fun_upd_idem split: option.splits)

lemma handleToken_bad: "snd (handleToken L b clk (Inl e) w tp) = tp"
  by (simp add: handleToken_def)

lemma serve_other_code:
  assumes "issued r \<noteq> Some c" and "presented r \<noteq> Some c"
  shows "codeStore (snd (provider_serve L r tp)) c = codeStore tp c"
proof (cases r)
  case (AuthRequest b now q)
  with assms show ?thesis by (auto simp: handleAuth_state)
next
  case (TokenRequest b clk form)
  with assms show ?thesis by (cases form) (auto simp: handleToken_state handleToken_bad)
qed auto

lemma run_other_code:
  "\<forall>r\<in>set rs. issued r \<noteq> Some c \<and> presented r \<noteq> Some c \<Longrightarrow> codeStore (provider_run L rs tp) c = codeStore tp c"
  by (induction rs arbitrary: tp) (auto simp: serve_other_code)

lemma serve_presented: "presented r = Some c \<Longrightarrow> codeStore (snd (provider_serve L r tp)) c = None"
  by (induction r rule: presented.induct) (auto simp: handleToken_state)

lemma run_append: "provider_run L (rs @ rs') tp = provider_run L rs' (provider_run L rs tp)"
  by (induction rs arbitrary: tp) auto

text \<open>A pending code was issued by an authorization request, and not presented since.\<close>

lemma pending_origin:
  assumes "codeStore tp0 = Map.empty" and "codeStore (provider_run L rs tp0) c = Some p"
  shows "\<exists>us b now q vs. rs = us @ AuthRequest b now q # vs \<and> randomToken b = c \<and> Values_Get q ''redirect_uri'' \<noteq> ''''
    \<and> p = \<lparr>pending_challenge = Values_Get q ''code_challenge'', pending_expiresAt = now + 5 * Minute\<rparr>
    \<and> (\<forall>r\<in>set vs. presented r \<noteq> Some c)"
  using assms(2)
proof (induction rs rule: rev_induct)
  case Nil
  with assms(1) show ?case by simp
next
  case (snoc r rs)
  let ?tp = "provider_run L rs tp0"
  from snoc.prems have p: "codeStore (snd (provider_serve L r ?tp)) c = Some p" by (simp add: run_append)
  then have fresh: "presented r \<noteq> Some c" using serve_presented by force
  show ?case
  proof (cases "issued r = Some c")
    case True
    then obtain b now q where r: "r = AuthRequest b now q" and "randomToken b = c" "Values_Get q ''redirect_uri'' \<noteq> ''''"
      by (cases r) (auto split: if_splits)
    with p have "p = \<lparr>pending_challenge = Values_Get q ''code_challenge'', pending_expiresAt = now + 5 * Minute\<rparr>"
      by (simp add: handleAuth_state)
    with r \<open>randomToken b = c\<close> \<open>Values_Get q _ \<noteq> _\<close> show ?thesis
      by (intro exI [of _ rs] exI [of _ b] exI [of _ now] exI [of _ q] exI [of _ "[]"]) simp
  next
    case False
    with fresh p have "codeStore ?tp c = Some p" by (simp add: serve_other_code)
    from snoc.IH [OF this] obtain us b now q vs where "rs = us @ AuthRequest b now q # vs" "randomToken b = c"
      "Values_Get q ''redirect_uri'' \<noteq> ''''" "p = \<lparr>pending_challenge = Values_Get q ''code_challenge'', pending_expiresAt = now + 5 * Minute\<rparr>"
      "\<forall>r\<in>set vs. presented r \<noteq> Some c" by blast
    with fresh show ?thesis
      by (intro exI [of _ us] exI [of _ b] exI [of _ now] exI [of _ q] exI [of _ "vs @ [r]"]) simp
  qed
qed

lemma handleToken_accepts:
  "w_status (fst (handleToken L b clk (Inr f) new_writer tp)) = Some StatusOK \<longleftrightarrow>
    (\<exists>p. codeStore tp (Values_Get f ''code'') = Some p \<and> clk 0 \<le> pending_expiresAt p
      \<and> (pending_challenge p = '''' \<or> pkceOK L (Values_Get f ''code_verifier'') (pending_challenge p)))"
  by (auto simp: handleToken_def writeJSON_def http_Error_def Let_def status_codes split: option.splits)

section \<open>Properties\<close>

text \<open>
  C31. A code buys one token, for its client. When the test provider, having served any requests since its start, answers a
  token request with 200, the code of the request was issued by an authorization request with a redirect URI at most five minutes before, no
  request has presented the code since, with or without success, and the verifier of the request hashes to the challenge of
  the authorization request unless that had none. Afterwards the code is gone.
\<close>

theorem code_redeemed_once:
  assumes "handleToken L b clk (Inr f) new_writer (provider_run L rs (provider_start env)) = (w, tp)" and "w_status w = Some StatusOK"
  shows "(\<exists>us b' now q vs. rs = us @ AuthRequest b' now q # vs \<and> Values_Get f ''code'' = randomToken b'
      \<and> Values_Get q ''redirect_uri'' \<noteq> '''' \<and> clk 0 \<le> now + 5 * Minute \<and> (\<forall>r\<in>set vs. presented r \<noteq> Some (randomToken b'))
      \<and> (Values_Get q ''code_challenge'' = ''''
         \<or> base64_RawURLEncoding (sum256 L (Values_Get f ''code_verifier'')) = Values_Get q ''code_challenge''))
    \<and> codeStore tp (Values_Get f ''code'') = None"
proof -
  let ?tp = "provider_run L rs (provider_start env)"
  from assms handleToken_accepts [of L b clk f ?tp] obtain p where p: "codeStore ?tp (Values_Get f ''code'') = Some p"
    and ok: "clk 0 \<le> pending_expiresAt p" "pending_challenge p = '''' \<or> pkceOK L (Values_Get f ''code_verifier'') (pending_challenge p)"
    by auto
  have "codeStore (provider_start env) = Map.empty" by (simp add: provider_start_def)
  from pending_origin [OF this p] ok have "\<exists>us b' now q vs. rs = us @ AuthRequest b' now q # vs \<and> Values_Get f ''code'' = randomToken b'
      \<and> Values_Get q ''redirect_uri'' \<noteq> '''' \<and> clk 0 \<le> now + 5 * Minute \<and> (\<forall>r\<in>set vs. presented r \<noteq> Some (randomToken b'))
      \<and> (Values_Get q ''code_challenge'' = ''''
         \<or> base64_RawURLEncoding (sum256 L (Values_Get f ''code_verifier'')) = Values_Get q ''code_challenge'')"
    unfolding pkceOK_def by fastforce
  moreover have "tp = ?tp\<lparr>codeStore := (codeStore ?tp)(Values_Get f ''code'' := None)\<rparr>"
    using handleToken_state [of L b clk f new_writer ?tp] assms(1) by simp
  ultimately show ?thesis by simp
qed

text \<open>Libraries for the witnesses: the digest is the text itself, an URL is its prefix.\<close>

definition demo_provider_lib :: "json \<Rightarrow> provider_lib" where
  "demo_provider_lib discovery = \<lparr>sum256 = id, json_text = (\<lambda>j. if j = discovery then ''discovery'' else ''claims''),
     url_Parse = (\<lambda>u. Inr \<lparr>url_Prefix = u, RawQuery = '''', url_Suffix = ''''\<rparr>)\<rparr>"

definition demo_query :: url_Values where
  "demo_query = [(''redirect_uri'', ''https://app/callback''), (''state'', ''st''), (''code_challenge'', base64_RawURLEncoding ''verifier'')]"

definition demo_auth :: provider_request where
  "demo_auth = AuthRequest ''random'' Hour demo_query"

lemma demo_query_values:
  "Values_Get demo_query ''redirect_uri'' = ''https://app/callback''" "Values_Get demo_query ''state'' = ''st''"
  "Values_Get demo_query ''code_challenge'' = base64_RawURLEncoding ''verifier''"
  by (simp_all add: demo_query_def Values_Get_def)

definition demo_redeem :: url_Values where
  "demo_redeem = [(''code'', randomToken ''random''), (''code_verifier'', ''verifier'')]"

lemma demo_auth_state:
  "codeStore (provider_run (demo_provider_lib JNull) [demo_auth] tp) = (codeStore tp)(randomToken ''random'' \<mapsto>
     \<lparr>pending_challenge = base64_RawURLEncoding ''verifier'', pending_expiresAt = Hour + 5 * Minute\<rparr>)"
  by (simp add: demo_auth_def handleAuth_state demo_query_values)

theorem code_redeemed_once_witness:
  "w_status (fst (handleToken (demo_provider_lib JNull) ''b'' (\<lambda>_. Hour) (Inr demo_redeem) new_writer
      (provider_run (demo_provider_lib JNull) [demo_auth] (provider_start (\<lambda>_. ''''))))) = Some StatusOK
    \<and> codeStore (snd (handleToken (demo_provider_lib JNull) ''b'' (\<lambda>_. Hour) (Inr demo_redeem) new_writer
      (provider_run (demo_provider_lib JNull) [demo_auth] (provider_start (\<lambda>_. ''''))))) (randomToken ''random'') = None"
proof -
  let ?tp = "provider_run (demo_provider_lib JNull) [demo_auth] (provider_start (\<lambda>_. ''''))"
  obtain w tp where run: "handleToken (demo_provider_lib JNull) ''b'' (\<lambda>_. Hour) (Inr demo_redeem) new_writer ?tp = (w, tp)" by fastforce
  have "w_status (fst (handleToken (demo_provider_lib JNull) ''b'' (\<lambda>_. Hour) (Inr demo_redeem) new_writer ?tp)) = Some StatusOK"
    unfolding handleToken_accepts demo_auth_state
    by (simp add: demo_redeem_def Values_Get_def pkceOK_def demo_provider_lib_def time_units)
  with code_redeemed_once [OF run] run show ?thesis by (simp add: demo_redeem_def Values_Get_def)
qed

text \<open>
  C32. The authorization code flow works. Let the provider answer an authorization request that names a redirect URI which parses,
  serve other requests that neither present the code nor are issued the same one, and then get the code with the verifier of the challenge, within
  five minutes. The first answer redirects to the URI with its own query kept and the code, the issuer and the client's
  state set in it; the second is 200 with a bearer token and the ID token; and presenting the code again is refused.
\<close>

theorem authorization_code_flow:
  assumes "Values_Get q ''redirect_uri'' \<noteq> ''''" and "url_Parse L (Values_Get q ''redirect_uri'') = Inr u"
    and "handleAuth L b now q new_writer tp = (w1, tp1)"
    and "\<forall>r\<in>set rs. issued r \<noteq> Some (randomToken b) \<and> presented r \<noteq> Some (randomToken b)"
    and "Values_Get f ''code'' = randomToken b" and "clk 0 \<le> now + 5 * Minute"
    and "Values_Get q ''code_challenge'' = base64_RawURLEncoding (sum256 L (Values_Get f ''code_verifier''))"
    and "handleToken L b' clk (Inr f) new_writer (provider_run L rs tp1) = (w2, tp2)"
  shows "(\<exists>u1. w_status w1 = Some StatusFound \<and> w_lookup w1 ''Location'' = Some (URL_String u1) \<and> url_Prefix u1 = url_Prefix u
      \<and> Values_Get (URL_Query u1) ''code'' = randomToken b \<and> Values_Get (URL_Query u1) ''iss'' = tp_issuer tp
      \<and> (Values_Get q ''state'' \<noteq> '''' \<longrightarrow> Values_Get (URL_Query u1) ''state'' = Values_Get q ''state'')
      \<and> (\<forall>k. k \<notin> {''code'', ''iss'', ''state''} \<longrightarrow> Values_Get (URL_Query u1) k = Values_Get (URL_Query u) k))
    \<and> w_status w2 = Some StatusOK
    \<and> w_body w2 = Some (RawBody (json_text L (JObject [(''access_token'', JString (randomToken b')), (''token_type'', JString ''Bearer''),
        (''expires_in'', JNumber 3600), (''id_token'', JString (buildIDToken L (later 1 clk) tp2))])))
    \<and> w_status (fst (handleToken L b'' clk' (Inr f) new_writer tp2)) = Some StatusBadRequest"
proof (intro conjI)
  let ?c = "randomToken b"
  let ?params = "let params = Values_Set ''iss'' (tp_issuer tp) (Values_Set ''code'' ?c (URL_Query u))
    in if Values_Get q ''state'' \<noteq> '''' then Values_Set ''state'' (Values_Get q ''state'') params else params"
  let ?u1 = "u\<lparr>RawQuery := Values_Encode ?params\<rparr>"
  have w1: "w1 = http_Redirect (URL_String ?u1) StatusFound new_writer" and tp1: "codeStore tp1 ?c =
      Some \<lparr>pending_challenge = Values_Get q ''code_challenge'', pending_expiresAt = now + 5 * Minute\<rparr>"
    using assms(1-3) by (auto simp: handleAuth_def Let_def)
  have "Values_Get (URL_Query ?u1) k = Values_Get ?params k" for k by (simp add: URL_Query_def Get_ParseQuery_Encode)
  then show "\<exists>u1. w_status w1 = Some StatusFound \<and> w_lookup w1 ''Location'' = Some (URL_String u1) \<and> url_Prefix u1 = url_Prefix u
      \<and> Values_Get (URL_Query u1) ''code'' = ?c \<and> Values_Get (URL_Query u1) ''iss'' = tp_issuer tp
      \<and> (Values_Get q ''state'' \<noteq> '''' \<longrightarrow> Values_Get (URL_Query u1) ''state'' = Values_Get q ''state'')
      \<and> (\<forall>k. k \<notin> {''code'', ''iss'', ''state''} \<longrightarrow> Values_Get (URL_Query u1) k = Values_Get (URL_Query u) k)"
    by (intro exI [of _ ?u1]) (auto simp: w1 http_Redirect_def Let_def)
  from run_other_code [OF assms(4), of L tp1] tp1 have "codeStore (provider_run L rs tp1) ?c =
      Some \<lparr>pending_challenge = Values_Get q ''code_challenge'', pending_expiresAt = now + 5 * Minute\<rparr>" by simp
  with assms(5-8) have w2: "w2 = writeJSON L (JObject [(''access_token'', JString (randomToken b')), (''token_type'', JString ''Bearer''),
        (''expires_in'', JNumber 3600), (''id_token'', JString (buildIDToken L (later 1 clk) tp2))]) new_writer"
    and tp2: "codeStore tp2 ?c = None"
    by (auto simp: handleToken_def Let_def pkceOK_def)
  from w2 show "w_status w2 = Some StatusOK"
    and "w_body w2 = Some (RawBody (json_text L (JObject [(''access_token'', JString (randomToken b')), (''token_type'', JString ''Bearer''),
        (''expires_in'', JNumber 3600), (''id_token'', JString (buildIDToken L (later 1 clk) tp2))])))"
    by (simp_all add: writeJSON_def)
  show "w_status (fst (handleToken L b'' clk' (Inr f) new_writer tp2)) = Some StatusBadRequest"
    using tp2 assms(5) by (simp add: handleToken_def http_Error_def Let_def)
qed

theorem authorization_code_flow_witness:
  "\<exists>w1 u1 w2 tp2. fst (provider_serve (demo_provider_lib JNull) demo_auth (provider_start (\<lambda>_. ''''))) = w1
    \<and> w_lookup w1 ''Location'' = Some (URL_String u1) \<and> Values_Get (URL_Query u1) ''state'' = ''st''
    \<and> handleToken (demo_provider_lib JNull) ''b'' (\<lambda>_. Hour) (Inr demo_redeem) new_writer
        (provider_run (demo_provider_lib JNull) [demo_auth, UserinfoRequest] (provider_start (\<lambda>_. ''''))) = (w2, tp2)
    \<and> w_status w2 = Some StatusOK"
proof -
  let ?L = "demo_provider_lib JNull" and ?tp = "provider_start (\<lambda>_. '''')"
  let ?u = "\<lparr>url_Prefix = ''https://app/callback'', RawQuery = '''', url_Suffix = ''''\<rparr>"
  obtain w1 tp1 where auth: "handleAuth ?L ''random'' Hour demo_query new_writer ?tp = (w1, tp1)" by fastforce
  obtain w2 tp2 where redeem: "handleToken ?L ''b'' (\<lambda>_. Hour) (Inr demo_redeem) new_writer (provider_run ?L [UserinfoRequest] tp1) = (w2, tp2)"
    by fastforce
  have hyps: "Values_Get demo_query ''redirect_uri'' \<noteq> ''''" "url_Parse ?L (Values_Get demo_query ''redirect_uri'') = Inr ?u"
    "\<forall>r\<in>set [UserinfoRequest]. issued r \<noteq> Some (randomToken ''random'') \<and> presented r \<noteq> Some (randomToken ''random'')"
    "Values_Get demo_redeem ''code'' = randomToken ''random''" "Hour \<le> Hour + 5 * Minute"
    "Values_Get demo_query ''code_challenge'' = base64_RawURLEncoding (sum256 ?L (Values_Get demo_redeem ''code_verifier''))"
    by (simp_all only: demo_query_values) (simp_all add: demo_redeem_def demo_provider_lib_def Values_Get_def time_units)
  note flow = authorization_code_flow [OF hyps(1,2) auth hyps(3,4,5,6) redeem]
  then obtain u1 where "w_lookup w1 ''Location'' = Some (URL_String u1)" "Values_Get (URL_Query u1) ''state'' = ''st''"
    unfolding demo_query_values by fastforce
  with flow auth redeem show ?thesis by (auto simp: demo_auth_def)
qed

section \<open>The server's client accepts what the provider hands out\<close>

text \<open>The text written for a document is read back as an object with the same members.\<close>

definition reads_back :: "'o net \<Rightarrow> provider_lib \<Rightarrow> json \<Rightarrow> bool" where
  "reads_back N L j \<longleftrightarrow>
     (\<exists>ms ms'. j = JObject ms \<and> json_parse N (json_text L j) = Inr (JObject ms') \<and> map_of ms' = map_of ms)"

lemma getenv_ne: "fallback \<noteq> '''' \<Longrightarrow> getenv env key fallback \<noteq> ''''"
  by (simp add: getenv_def Let_def)

lemma serve_names:
  "tp_issuer (snd (provider_serve L r tp)) = tp_issuer tp \<and> userSub (snd (provider_serve L r tp)) = userSub tp
    \<and> userEmail (snd (provider_serve L r tp)) = userEmail tp \<and> userName (snd (provider_serve L r tp)) = userName tp"
proof (cases r)
  case (TokenRequest b clk form)
  then show ?thesis by (cases form) (simp_all add: handleToken_state handleToken_bad)
qed (simp_all add: handleAuth_state)

lemma run_names:
  "tp_issuer (provider_run L rs tp) = tp_issuer tp \<and> userSub (provider_run L rs tp) = userSub tp
    \<and> userEmail (provider_run L rs tp) = userEmail tp \<and> userName (provider_run L rs tp) = userName tp"
  by (induction rs arbitrary: tp) (simp_all add: serve_names)

lemma discovery_checked:
  assumes "reads_back N L (discovery_document tp)" and "tp_issuer tp \<noteq> ''''"
  shows "checkDiscovery N (json_text L (discovery_document tp)) = Inr
    \<lparr>discovery_Issuer = tp_issuer tp, AuthorizationEndpoint = tp_issuer tp @ ''/auth'', TokenEndpoint = tp_issuer tp @ ''/token'',
     UserinfoEndpoint = tp_issuer tp @ ''/userinfo'', RevocationEndpoint = '''', AuthorizationResponseIssParameterSupported = True\<rparr>"
  using assms
  by (auto simp: reads_back_def checkDiscovery_def decode_OIDCDiscovery_def discovery_document_def json_field_def)

lemma div_times_less_eq_dividend_int: "0 < k \<Longrightarrow> (x::int) div k * k \<le> x"
  using pos_mod_sign [of k x] minus_mod_eq_div_mult [of x k] by linarith

lemma claims_decoded:
  assumes "reads_back N L (id_claims clk tp)" and "0 \<le> clk 1" and "clk 1 + Hour \<le> MaxInt64"
  obtains j where "json_parse N (json_text L (id_claims clk tp)) = Inr j" and "decode_idTokenClaims j = Inr
    \<lparr>claim_Sub = userSub tp, claim_Email = userEmail tp, claim_EmailVerified = True, claim_Name = userName tp,
     claim_Iss = tp_issuer tp, claim_Aud = [''corvauth''], claim_Exp = time_Unix (clk 1 + Hour)\<rparr>"
proof -
  from assms(1) obtain ms where parse: "json_parse N (json_text L (id_claims clk tp)) = Inr (JObject ms)"
    and ms: "map_of ms = map_of (case id_claims clk tp of JObject ms \<Rightarrow> ms | _ \<Rightarrow> [])" by (auto simp: reads_back_def)
  have "MinInt64 \<le> time_Unix (clk 1 + Hour) \<and> time_Unix (clk 1 + Hour) \<le> MaxInt64"
    using assms(2,3) pos_imp_zdiv_nonneg_iff [of Second "clk 1 + Hour"] div_times_less_eq_dividend_int [of Second "clk 1 + Hour"]
    by (simp add: time_Unix_def time_units MaxInt64_def MinInt64_def)
  then show thesis
    by (intro that [OF parse]) (simp add: decode_idTokenClaims_def ms id_claims_def json_field_def flexibleBool_Unmarshal_def audienceClaim_Unmarshal_def)
qed

lemma provider_id_token_user:
  assumes "reads_back N L (id_claims clk tp)" and "0 \<le> clk 1" and "clk 1 + Hour \<le> MaxInt64" and "time_Now N o0 \<le> clk 1 + Hour"
    and "userSub tp \<noteq> ''''" and "userEmail tp \<noteq> ''''" and "discovery_Issuer (oidc_discovery p) = tp_issuer tp"
    and "config_ClientID (oidc_config p) = ''corvauth''" and "oauth_id_token tok = Some (buildIDToken L clk tp)"
  shows "oidc_GetUser N p tok o0 = (Inr \<lparr>Userinfo_ID = userSub tp, Userinfo_Email = userEmail tp, Userinfo_Name = userName tp\<rparr>, o0)"
proof -
  let ?c = "\<lparr>claim_Sub = userSub tp, claim_Email = userEmail tp, claim_EmailVerified = True, claim_Name = userName tp,
     claim_Iss = tp_issuer tp, claim_Aud = [''corvauth''], claim_Exp = time_Unix (clk 1 + Hour)\<rparr>"
  let ?hdr = "base64_RawURLEncoding ''{\"alg\":\"none\",\"typ\":\"JWT\"}''"
  obtain j where j: "json_parse N (json_text L (id_claims clk tp)) = Inr j" "decode_idTokenClaims j = Inr ?c"
    by (rule claims_decoded [OF assms(1-3)])
  have "time_Now N o0 div Second \<le> claim_Exp ?c" using assms(4) by (simp add: time_Unix_def zdiv_mono1 time_units)
  with parseIDTokenClaims_encoded [OF base64_no_dot _ j, of "[]" "time_Now N o0" "''{\"alg\":\"none\",\"typ\":\"JWT\"}''"]
  have "parseIDTokenClaims N (time_Now N o0) (buildIDToken L clk tp) = Inr ?c" by (simp add: buildIDToken_def Let_def)
  moreover have "buildIDToken L clk tp \<noteq> ''''" by (simp add: buildIDToken_def Let_def)
  ultimately show ?thesis
    using assms(5-9) by (simp add: oidc_GetUser_def Let_def validateIDTokenClaims_def checkEmail_def claims_user_def)
qed

text \<open>
  C33. The provider and the server's OpenID Connect client fit together. A client built against the discovery document that
  the provider serves requires an issuer in the callback and accepts the one the provider puts there; and for the ID token the
  provider builds, until its hour is over, it answers with exactly the user the provider was configured with, without asking the userinfo
  endpoint, when the client id is \<^verbatim>\<open>corvauth\<close>. The two JSON texts are assumed to be read back with the members written.
\<close>

theorem client_accepts_test_provider:
  assumes "tp = provider_run L rs (provider_start env)"
    and "w_body (handleDiscovery L tp new_writer) = Some (RawBody body)"
    and "ctx 0 = None" and "url_error N durl = None" and "durl = strings_TrimRight (oidc_IssuerURL cfg) CHR ''/'' @ ''/.well-known/openid-configuration''"
    and "DefaultClient N \<lparr>req_Method = ''GET'', req_URL = durl, req_Header = [], req_Payload = NoPayload\<rparr> o0
      = (Inr \<lparr>StatusCode = StatusOK, resp_Body = Inr body\<rparr>, o1)"
    and "reads_back N L (discovery_document tp)" and "reads_back N L (id_claims clk tp)"
    and "oidc_ClientID cfg = ''corvauth''" and "0 \<le> clk 1" and "clk 1 + Hour \<le> MaxInt64" and "time_Now N o2 \<le> clk 1 + Hour"
  shows "\<exists>c. NewOIDC N ctx cfg opts o0 = Some (Inr c, o1)
    \<and> Client_ValidateIssuer c (tp_issuer tp) = None \<and> Client_ValidateIssuer c '''' \<noteq> None
    \<and> Client_GetUser c \<lparr>oauth_AccessToken = at, oauth_RefreshToken = rt, oauth_id_token = Some (buildIDToken L clk tp)\<rparr> o2
      = (Inr \<lparr>Userinfo_ID = getenv env ''USER_SUB'' ''test-user-001'', Userinfo_Email = getenv env ''USER_EMAIL'' ''user@example.com'',
          Userinfo_Name = getenv env ''USER_NAME'' ''Test User''\<rparr>, o2)"
proof -
  have names: "tp_issuer tp = getenv env ''ISSUER_URL'' ''http://test-provider:5556''" "userSub tp = getenv env ''USER_SUB'' ''test-user-001''"
    "userEmail tp = getenv env ''USER_EMAIL'' ''user@example.com''" "userName tp = getenv env ''USER_NAME'' ''Test User''"
    using run_names [of L rs "provider_start env"] by (simp_all add: assms(1) provider_start_def)
  have ne: "tp_issuer tp \<noteq> ''''" "userSub tp \<noteq> ''''" "userEmail tp \<noteq> ''''" by (simp_all add: names getenv_ne)
  have "body = json_text L (discovery_document tp)" using assms(2) by (simp add: handleDiscovery_def writeJSON_def)
  with assms(4,6) have "tryFetchDiscovery N durl o0 = (Inr (json_text L (discovery_document tp)), o1)"
    by (simp add: tryFetchDiscovery_def StatusOK_def)
  with assms(3) discovery_checked [OF assms(7) ne(1)] obtain doc where "fetchLoop N ctx durl 0 o0 = Some (Inr doc, o1)"
    and doc: "discovery_Issuer doc = tp_issuer tp" "AuthorizationResponseIssParameterSupported doc"
    by (subst (asm) fetchLoop.simps) auto
  then have fetch: "FetchDiscovery N ctx (oidc_IssuerURL cfg) o0 = Some (Inr doc, o1)" by (simp add: FetchDiscovery_def assms(5))
  let ?c = "oidc_client N cfg opts doc"
  have "Client_GetUser ?c \<lparr>oauth_AccessToken = at, oauth_RefreshToken = rt, oauth_id_token = Some (buildIDToken L clk tp)\<rparr> o2
      = (Inr \<lparr>Userinfo_ID = userSub tp, Userinfo_Email = userEmail tp, Userinfo_Name = userName tp\<rparr>, o2)"
    unfolding Client_GetUser_def oidc_client_def oidc_Provider_def
    by (simp only: Let_def oauthclient_Client.simps Provider.simps)
      (rule provider_id_token_user [OF assms(8,10,11,12) ne(2,3)]; simp add: NewOIDCProvider_def doc assms(9))
  moreover have "Client_ValidateIssuer ?c (tp_issuer tp) = None" "Client_ValidateIssuer ?c '''' \<noteq> None"
    by (simp_all add: Client_ValidateIssuer_def oidc_client_def Let_def doc ne(1))
  ultimately show ?thesis using fetch names by (auto simp: NewOIDC_def)
qed

definition demo_provider_net :: "json \<Rightarrow> json \<Rightarrow> nat net" where
  "demo_provider_net discovery claims = down_net
     \<lparr>DefaultClient := (\<lambda>req n. (Inr \<lparr>StatusCode = StatusOK, resp_Body = Inr ''discovery''\<rparr>, Suc n)),
      json_parse := (\<lambda>t. Inr (if t = ''discovery'' then discovery else claims))\<rparr>"

theorem client_accepts_test_provider_witness:
  "\<exists>N tp c o1. NewOIDC N (\<lambda>_. None) \<lparr>oidc_IssuerURL = ''http://test-provider:5556/'', oidc_ClientID = ''corvauth'', oidc_ClientSecret = '''',
      oidc_RedirectURL = '''', oidc_Scopes = []\<rparr> [] (0 :: nat) = Some (Inr c, o1)
    \<and> Client_GetUser c \<lparr>oauth_AccessToken = ''at'', oauth_RefreshToken = '''',
        oauth_id_token = Some (buildIDToken (demo_provider_lib (discovery_document tp)) (\<lambda>_. Hour) tp)\<rparr> 5
      = (Inr \<lparr>Userinfo_ID = ''test-user-001'', Userinfo_Email = ''user@example.com'', Userinfo_Name = ''Test User''\<rparr>, 5)"
proof -
  let ?env = "\<lambda>_. ''''"
  let ?tp = "provider_start ?env"
  let ?L = "demo_provider_lib (discovery_document ?tp)"
  let ?N = "demo_provider_net (discovery_document ?tp) (id_claims (\<lambda>_. Hour) ?tp)"
  let ?cfg = "\<lparr>oidc_IssuerURL = ''http://test-provider:5556/'', oidc_ClientID = ''corvauth'', oidc_ClientSecret = '''',
      oidc_RedirectURL = '''', oidc_Scopes = []\<rparr>"
  let ?url = "strings_TrimRight (oidc_IssuerURL ?cfg) CHR ''/'' @ ''/.well-known/openid-configuration''"
  have ne: "id_claims clk ?tp \<noteq> discovery_document ?tp" for clk
    by (simp add: id_claims_def discovery_document_def)
  have run: "?tp = provider_run ?L [] ?tp" by simp
  have body: "w_body (handleDiscovery ?L ?tp new_writer) = Some (RawBody ''discovery'')"
    by (simp add: handleDiscovery_def writeJSON_def demo_provider_lib_def)
  have net: "url_error ?N ?url = None" "DefaultClient ?N \<lparr>req_Method = ''GET'', req_URL = ?url, req_Header = [], req_Payload = NoPayload\<rparr> 0
      = (Inr \<lparr>StatusCode = StatusOK, resp_Body = Inr ''discovery''\<rparr>, Suc 0)"
    by (simp_all add: demo_provider_net_def down_net_def)
  have texts: "reads_back ?N ?L (discovery_document ?tp)" "reads_back ?N ?L (id_claims (\<lambda>_. Hour) ?tp)"
    unfolding reads_back_def using ne
    by (auto simp: demo_provider_net_def demo_provider_lib_def id_claims_def [of "\<lambda>_. Hour"] discovery_document_def)
  have hour: "(0::int) \<le> Hour" "Hour + Hour \<le> MaxInt64" "time_Now ?N 5 \<le> Hour + Hour"
    by (simp_all add: time_units MaxInt64_def demo_provider_net_def down_net_def)
  have own: "oidc_ClientID ?cfg = ''corvauth''" by simp
  have unset: "getenv ?env k v = v" for k v by (simp add: getenv_def)
  from client_accepts_test_provider [OF run body refl net(1) refl net(2) texts own hour, of "[]" "''at''" "''''"]
  show ?thesis unfolding unset by blast
qed

end
