(* ===== verification/Spec2Isabelle.thy ===== *)
theory Spec2Isabelle
  imports Token_Lifecycle Session Refresh Login_Sessions Login_Providers Config Liveness Open_Database Requests Test_Provider
begin

text \<open>
  \<^bold>\<open>What is verified.\<close> \<^verbatim>\<open>corvauth\<close> is an authentication server in Go. It signs users in at an OAuth2 or OpenID Connect provider, opens a device session in
  PostgreSQL, and hands out a pair of JSON web tokens signed with the secret of the device; the refresh token is rotated at every use, and a device row counts the rotations
  (its generation), so that an already rotated token is recognised. Secrets are cached in memory or in Redis, retried requests are answered once by the flight group, and a reverse proxy asks
  \<^verbatim>\<open>/verify\<close> for identity headers. This development models every package of the repository's implementation, shallowly: each Go function
  is a HOL function of the same name (prefixed with its package where two packages share one), pointers to mutable objects are states passed and returned, errors are values (\<open>go_error\<close>), and a
  call into a library is a parameter.

  \<^bold>\<open>The theories, and the code they model.\<close>

  \<^item> \<open>Prelude\<close>, \<open>Go_Strings\<close>, \<open>Encodings\<close>, \<open>Json\<close>, \<open>Url\<close>: errors with \<^verbatim>\<open>errors.Is\<close>, \<^verbatim>\<open>errors.As\<close>, \<^verbatim>\<open>errors.Join\<close>; times; the functions of \<^verbatim>\<open>strings\<close>, \<^verbatim>\<open>strconv\<close>,
    \<^verbatim>\<open>encoding/hex\<close>, \<^verbatim>\<open>encoding/base64\<close>, \<^verbatim>\<open>net/url\<close> and of JSON decoding that the code uses, with the round trips of the encodings.
  \<^item> \<open>Database\<close> (\<^verbatim>\<open>database/device.go\<close>): the statements on the table of device sessions, over tables with the constraints of the schema (\<open>pg_invar\<close>) and calls that may fail before or after they
    took effect; the clean-up. \<open>Open_Database\<close> (\<^verbatim>\<open>database/database.go\<close>, \<^verbatim>\<open>options.go\<close>, the constructors of \<^verbatim>\<open>server/internal/usersdb\<close>): opening,
    migrating under the advisory lock, probing an external table. \<open>Schema\<close> (\<^verbatim>\<open>database/schema/schema.go\<close>): the users reference and the generated schema. \<open>Users_Store\<close>
    (\<^verbatim>\<open>usersdb.go\<close>): the users table with its cascades.
  \<^item> \<open>Memory_Cache\<close>, \<open>Redis_Client\<close> (\<^verbatim>\<open>server/internal/cache\<close>), \<open>Device_Cache\<close> (\<^verbatim>\<open>cache/device/memory.go\<close>, \<^verbatim>\<open>redis.go\<close>, its Lua script included), \<open>Cached_DB\<close>
    (\<^verbatim>\<open>cached_db.go\<close>), \<open>State_Cache\<close> (\<^verbatim>\<open>cache/state\<close>). The locale \<open>secret_cache\<close> and its extensions (\<open>reliable_secret_cache\<close>, \<open>retaining_secret_cache\<close>) are the contract
    the cached database needs; both caches interpret it, and so does their sum \<open>any_SecretCache\<close>, the one or the other as the server is configured.
  \<^item> \<open>Interleaving\<close>, \<open>Liveness\<close>: the methods of \<^verbatim>\<open>CachedDB\<close> again, one atomic call at a time, as the goroutines of a server run them, with the table of the
    \<^verbatim>\<open>singleflight\<close> group; a step relation, its invariants, and fair executions. An undisturbed goroutine computes the sequential method.
  \<^item> \<open>Jwt\<close>, \<open>Token_Lifecycle\<close> (\<^verbatim>\<open>jwt/jwt.go\<close>, \<^verbatim>\<open>options.go\<close>): the manager over any \<^verbatim>\<open>jwt.Database\<close>, and over the cached database.
  \<^item> \<open>Flight\<close> (\<^verbatim>\<open>server/internal/flight\<close>), \<open>Http\<close> (responses, the refresh-token cookie, \<^verbatim>\<open>/health\<close>), \<open>Handler_Options\<close>, \<open>Session\<close> (\<^verbatim>\<open>/verify\<close>, \<^verbatim>\<open>/logout\<close>,
    \<^verbatim>\<open>DELETE /users/me\<close>, identity tokens), \<open>Refresh\<close> (\<^verbatim>\<open>/refresh\<close>, \<^verbatim>\<open>/refresh-access\<close>), \<open>Login\<close> with \<open>Login_Sessions\<close> and \<open>Login_Providers\<close> (\<^verbatim>\<open>/login\<close>, \<^verbatim>\<open>/callback\<close>).
  \<^item> \<open>Session_Changes\<close>: the relation every handler's effect on the sessions stays in, over any store with the contract \<open>account_users\<close>. \<open>Requests\<close>: the handlers behind the mux of a started server, one
    request after the other (\<open>serve\<close>, \<open>serve_all\<close>), and what no sequence of requests can do.
  \<^item> \<open>Providers\<close>, \<open>Oidc\<close>, \<open>OAuth_Client\<close> (\<^verbatim>\<open>oauth2/\<close>): the identity providers behind the locale \<open>vouching_provider\<close>, and the client of the login handler.
  \<^item> \<open>Durations\<close>, \<open>Config\<close> (\<^verbatim>\<open>server/internal/config\<close>), \<open>Listener\<close> and \<open>Server\<close> (\<^verbatim>\<open>server/cmd/main.go\<close>, \<^verbatim>\<open>handlers.go\<close>): from the environment to the routes and the listening socket.
  \<^item> \<open>Test_Provider\<close> (\<^verbatim>\<open>server/test-provider/main.go\<close>): the provider the integration tests run the server against. \<open>Demo\<close>: the concrete database, caches and signing library the
    witnesses evaluate.

  \<^bold>\<open>How the parts interact.\<close> A handler is a function of the request, a response writer and the state of what it calls. \<open>Server\<close> builds the handlers the way \<^verbatim>\<open>run\<close> does: the manager, the session
  and the refresh handlers share one cached database over \<open>any_SecretCache\<close>, so what is proved over a reliable cache holds of the server as wired. The login handler works on the cached database, the state cache and the state of the remote services together (\<open>login_world\<close>).

  \<^bold>\<open>What the lemmas show.\<close> Every operation on the tables changes exactly the rows it names, for every outcome, and keeps their constraints. The cache lemmas show that an entry is never newer than its row and never
  older than a rotation or deletion that the server completed (\<open>coherent\<close>), sequentially and under every interleaving. The token lemmas say exactly which texts the manager accepts. On these rest
  the properties of the handlers: what a request changes, who gets which status, header, cookie and token, that reuse of a rotated token ends the session, and that a login is opened only
  with a pending verifier and an e-mail its provider vouches for (of GitHub, also the one on the public profile). Over the started server they compose: no sequence of requests makes a session without a login,
  or brings a rotated, deleted or logged out one back. The configuration lemmas follow every environment variable into the started server, and every mistake in one into an error.

  \<^bold>\<open>Conditions of the properties.\<close> \<open>any_invar\<close>, the invariant of the cached database, says that cache and tables are coherent, that a database call which reports an error took no effect, and
  that Redis, if it is the cache, can be reached. Properties that also need every database call to succeed have the hypothesis \<open>cdb_up\<close> and say so; the others hold when calls fail.
  \<open>cdb_named\<close> is the spelling of a device's identifier that PostgreSQL prints, which every token the server makes has; \<open>lib_text\<close> is valid UTF-8, which JSON encoding keeps.

  \<^bold>\<open>Parameters, and what is assumed of them.\<close> Code outside the repository is an argument of the definitions: the signing library \<^verbatim>\<open>golang-jwt\<close> (\<open>jwt_lib\<close>: a signed text parses back
  to its claims exactly under its secret), \<^verbatim>\<open>otter\<close> (\<open>otter_methods\<close>: entries may vanish, never appear), \<^verbatim>\<open>rueidis\<close> (a command takes effect on the keys or fails),
  \<^verbatim>\<open>rueidislock\<close> (\<open>locker\<close>), \<^verbatim>\<open>database/sql\<close> (\<open>sql_DB\<close>), the quoting of pgx (\<open>sanitize\<close>), \<^verbatim>\<open>golang.org/x/oauth2\<close>, the network and the JSON parser (\<open>net\<close>), the operating system's
  files and sockets (\<open>filesystem\<close>), SHA-256 and the Unicode tables. PostgreSQL is the exception: the effect of each SQL statement is written out from its text. The hypotheses on parameters
  are named predicates over the parameter (\<open>jwt_laws\<close>, \<open>otter_laws\<close>, \<open>redis_exact\<close>, \<open>sql_laws\<close>, \<open>fs_laws\<close>, \<open>reads_back\<close>), and each is met by a concrete function in a witness.

  \<^bold>\<open>Bounds and fuel.\<close> Integers that the code keeps in 64 or 32 bits have their range in the model: \<open>wrap64\<close> for the sums of durations, \<open>MaxInt32\<close> for the generation column, \<open>MinInt64\<close> and \<open>MaxInt64\<close> for parsed
  numbers; times are nanoseconds. No function has fuel. The one loop that may not end, \<^verbatim>\<open>FetchDiscovery\<close>, is a \<^theory_text>\<open>partial_function\<close> of what its context
  answers at each look, and is proved to return when the context ends. Waiting for another goroutine is a state of \<open>Interleaving\<close>, and is proved to end in every fair execution.

  \<^bold>\<open>Not modelled.\<close> Contexts and deadlines, except where a loop ends by them: a call they cut off answers with an error, which every parameter may do at any time. Log lines. The closing methods
  that only stop goroutines of a library; the exit hooks are recorded, not run. The serving loops of \<^verbatim>\<open>net/http\<close>, the matching of a request to a pattern, and the resolution of a relative redirect. The
  concurrency of anything but the cached database: the statements of PostgreSQL and the commands of Redis are atomic, and a handler runs alone between them. Where the code is generic (\<open>flight_Do\<close>), the type argument is the record of
  what the code uses of the type.
\<close>

end
